theory Spec2Isabelle
  imports Main "HOL-Library.Word" "HOL-Library.Multiset"
begin

unbundle bit_operations_syntax

section \<open>Shared data model of ELF/SyntheticSections.cpp\<close>

text \<open>
  Objects that the linker reaches through pointers (symbol bodies, output sections, input
  files) are named by their address, a natural number, and their fields live in a store
  indexed by that address. Two pointers are equal iff the addresses are.
\<close>

type_synonym SymbolPtr = nat
type_synonym OutSecPtr = nat
type_synonym FilePtr = nat
type_synonym u64 = "64 word"
type_synonym u32 = "32 word"

datatype SymbolKind =
  DefinedRegularKind | DefinedCommonKind | SharedKind | UndefinedKind | LazyObjectKind

text \<open>
  The fields and accessors of \<^verbatim>\<open>SymbolBody\<close> that the synthetic sections read.
  \<^verbatim>\<open>getVA(Addend)\<close> is computed outside this file, so it is a field holding the function.
  \<^verbatim>\<open>SymOutSec\<close> is the output section of the symbol's section; \<^verbatim>\<open>SymSection\<close> is the section of a
  defined regular symbol when it is an input section (the \<^verbatim>\<open>dyn_cast<InputSectionBase>\<close>
  succeeds), with \<^verbatim>\<open>SymValue\<close> and \<^verbatim>\<open>SymSize\<close> the symbol's offset in it and its size.
  \<^verbatim>\<open>SymHasSection\<close> says whether the pointer \<^verbatim>\<open>Section\<close> of a defined regular symbol is not null;
  a defined regular symbol without a section has no output section.
\<close>

record SymbolBody =
  SymName :: string
  SymKind :: SymbolKind
  SymType :: nat
  IsPreemptible :: bool
  GetVA :: "u64 \<Rightarrow> u64"
  SymOutSec :: "OutSecPtr option"
  SymFile :: FilePtr
  SymSection :: "nat option"
  SymHasSection :: bool
  SymValue :: u64
  SymSize :: u64
  GotIndex :: u32
  DynsymIndex :: u32

definition STT_OBJECT :: nat where "STT_OBJECT = 1"
definition STT_SECTION :: nat where "STT_SECTION = 3"
definition STT_TLS :: nat where "STT_TLS = 6"

definition isTls :: "SymbolBody \<Rightarrow> bool" where
  "isTls B = (SymType B = STT_TLS)"




definition isUndefined :: "SymbolBody \<Rightarrow> bool" where
  "isUndefined B = (SymKind B = UndefinedKind)"

record OutputSection =
  OsAddr :: u64
  OsSize :: u64

text \<open>The configuration and target constants read by the functions modelled below.\<close>

record Configuration =
  Wordsize :: nat
  Is64 :: bool
  MipsGotSize :: nat
  Pic :: bool
  Pie :: bool
  Static :: bool
  IsRela :: bool
  AllowUndefinedCapRelocs :: bool
  EMachine :: nat
  HeaderEntriesNum :: nat
  RelativeRel :: u32
  TlsGotRel :: u32
  TlsModuleIndexRel :: u32
  TlsOffsetRel :: u32

definition EM_MIPS :: nat where "EM_MIPS = 8"
definition EM_X86_64 :: nat where "EM_X86_64 = 62"

record Link =
  Config :: Configuration
  Syms :: "SymbolPtr \<Rightarrow> SymbolBody"
  OutSecs :: "OutSecPtr \<Rightarrow> OutputSection"

section \<open>llvm::MapVector and llvm::set\_union\<close>

text \<open>
  A \<^verbatim>\<open>MapVector<K, V>\<close> is a vector of key/value pairs in insertion order with at most one
  pair per key. \<^verbatim>\<open>insert\<close> appends the pair unless the key is present; \<^verbatim>\<open>set_union(S1, S2)\<close>
  inserts every element of \<^verbatim>\<open>S2\<close> into \<^verbatim>\<open>S1\<close> in order; \<^verbatim>\<open>remove_if\<close> erases the
  pairs that satisfy the predicate and keeps the order of the others.
\<close>

definition mv_count :: "('k \<times> 'v) list \<Rightarrow> 'k \<Rightarrow> bool" where
  "mv_count m k = (k \<in> set (map fst m))"

definition mv_insert :: "('k \<times> 'v) list \<Rightarrow> 'k \<times> 'v \<Rightarrow> ('k \<times> 'v) list" where
  "mv_insert m kv = (if mv_count m (fst kv) then m else m @ [kv])"

definition set_union :: "('k \<times> 'v) list \<Rightarrow> ('k \<times> 'v) list \<Rightarrow> ('k \<times> 'v) list" where
  "set_union S1 S2 = foldl mv_insert S1 S2"

definition remove_if :: "('k \<times> 'v \<Rightarrow> bool) \<Rightarrow> ('k \<times> 'v) list \<Rightarrow> ('k \<times> 'v) list" where
  "remove_if P m = filter (\<lambda>kv. \<not> P kv) m"

section \<open>MipsGotSection\<close>

datatype RelExpr = R_ABS | R_MIPS_GOT_LOCAL_PAGE | R_MIPS_GOT_OFF | R_MIPS_GOT_OFF32

type_synonym GotEntry = "SymbolPtr \<times> u64"

text \<open>
  \<^verbatim>\<open>FileGot\<close>: one GOT partition. The key \<^verbatim>\<open>nullptr\<close> of \<^verbatim>\<open>DynTlsSymbols\<close> (the module index
  entry of \<^verbatim>\<open>addTlsIndex\<close>) is \<open>None\<close>.
\<close>

record FileGot =
  File :: "FilePtr option"
  StartIndex :: nat
  PageIndexMap :: "(OutSecPtr \<times> nat) list"
  Local16 :: "(GotEntry \<times> nat) list"
  Local32 :: "(GotEntry \<times> nat) list"
  Global :: "(SymbolPtr \<times> nat) list"
  Relocs :: "(SymbolPtr \<times> nat) list"
  Tls :: "(SymbolPtr \<times> nat) list"
  DynTlsSymbols :: "(SymbolPtr option \<times> nat) list"

definition emptyFileGot :: FileGot where
  "emptyFileGot = \<lparr> File = None, StartIndex = 0, PageIndexMap = [], Local16 = [],
     Local32 = [], Global = [], Relocs = [], Tls = [], DynTlsSymbols = [] \<rparr>"

text \<open>
  The section: its partitions, its size, and the field \<^verbatim>\<open>MipsGotIndex\<close> of every input file
  (\<open>None\<close> is \<^verbatim>\<open>size_t(-1)\<close>).
\<close>

record MipsGotSection =
  Gots :: "FileGot list"
  GotSize :: nat
  MipsGotIndex :: "FilePtr \<Rightarrow> nat option"

definition newMipsGotSection :: MipsGotSection where
  "newMipsGotSection = \<lparr> Gots = [], GotSize = 0, MipsGotIndex = (\<lambda>_. None) \<rparr>"

definition getMipsPageAddr :: "u64 \<Rightarrow> u64" where
  "getMipsPageAddr Addr = (Addr + 0x8000) AND NOT 0xffff"

definition getMipsPageCount :: "u64 \<Rightarrow> u64" where
  "getMipsPageCount Size = (Size + 0xfffe) div 0xffff + 1"

text \<open>
  Entry counts are numbers of container elements and of pages; they are natural numbers
  here (the \<^verbatim>\<open>size_t\<close> sums of the source do not wrap for any set of sections that fits an
  address space). The page count of one section is the 64-bit computation of the source.
\<close>

definition getPageEntriesNum :: "Link \<Rightarrow> FileGot \<Rightarrow> nat" where
  "getPageEntriesNum L G =
     foldl (\<lambda>Num P. Num + unat (getMipsPageCount (OsSize (OutSecs L (fst P))))) 0 (PageIndexMap G)"

definition getEntriesNum :: "Link \<Rightarrow> FileGot \<Rightarrow> nat" where
  "getEntriesNum L G =
     getPageEntriesNum L G + length (Local16 G) + length (Global G) + length (Relocs G) +
     length (Tls G) + length (DynTlsSymbols G) * 2"

definition getIndexEntriesNum :: "Link \<Rightarrow> FileGot \<Rightarrow> nat" where
  "getIndexEntriesNum L G =
     (let Count = getPageEntriesNum L G + length (Local16 G) + length (Global G)
      in if Tls G \<noteq> [] \<or> DynTlsSymbols G \<noteq> []
         then Count + (length (Relocs G) + length (Tls G) + length (DynTlsSymbols G) * 2)
         else Count)"

text \<open>
  \<^verbatim>\<open>getGot(F)\<close> creates the partition of a file on first use and returns its position (the
  source returns a reference to \<^verbatim>\<open>Gots[F.MipsGotIndex]\<close>).
\<close>

definition getGot :: "FilePtr \<Rightarrow> MipsGotSection \<Rightarrow> nat \<times> MipsGotSection" where
  "getGot F S =
     (case MipsGotIndex S F of
        Some i \<Rightarrow> (i, S)
      | None \<Rightarrow>
          (length (Gots S),
           S\<lparr> Gots := Gots S @ [emptyFileGot\<lparr> File := Some F \<rparr>],
              MipsGotIndex := (MipsGotIndex S)(F \<mapsto> length (Gots S)) \<rparr>))"

datatype GotError = BadCast

text \<open>
  \<^verbatim>\<open>addEntry(File, Sym, Addend, Expr)\<close>. The \<^verbatim>\<open>cast<DefinedRegular>\<close> of the page branch fails
  on a symbol of another kind; a defined regular symbol without output section is refused
  in the same way, since the key would be a null pointer dereferenced later.
\<close>

definition addEntry ::
  "Link \<Rightarrow> FilePtr \<Rightarrow> SymbolPtr \<Rightarrow> u64 \<Rightarrow> RelExpr \<Rightarrow> MipsGotSection \<Rightarrow> GotError + MipsGotSection"
where
  "addEntry L F Sym Addend Expr S0 =
     (let (i, S) = getGot F S0; G = Gots S ! i; B = Syms L Sym;
          put = (\<lambda>G'. Inr (S\<lparr> Gots := (Gots S)[i := G'] \<rparr>))
      in if Expr = R_MIPS_GOT_LOCAL_PAGE then
           (case (SymKind B, SymOutSec B) of
              (DefinedRegularKind, Some OS) \<Rightarrow>
                put (G\<lparr> PageIndexMap := mv_insert (PageIndexMap G) (OS, 0) \<rparr>)
            | _ \<Rightarrow> Inl BadCast)
         else if isTls B then put (G\<lparr> Tls := mv_insert (Tls G) (Sym, 0) \<rparr>)
         else if IsPreemptible B \<and> Expr = R_ABS then
           put (G\<lparr> Relocs := mv_insert (Relocs G) (Sym, 0) \<rparr>)
         else if IsPreemptible B then put (G\<lparr> Global := mv_insert (Global G) (Sym, 0) \<rparr>)
         else if Expr = R_MIPS_GOT_OFF32 then
           put (G\<lparr> Local32 := mv_insert (Local32 G) ((Sym, Addend), 0) \<rparr>)
         else put (G\<lparr> Local16 := mv_insert (Local16 G) ((Sym, Addend), 0) \<rparr>))"

definition addDynTlsEntry :: "FilePtr \<Rightarrow> SymbolPtr \<Rightarrow> MipsGotSection \<Rightarrow> MipsGotSection" where
  "addDynTlsEntry F Sym S0 =
     (let (i, S) = getGot F S0; G = Gots S ! i
      in S\<lparr> Gots := (Gots S)[i := G\<lparr> DynTlsSymbols := mv_insert (DynTlsSymbols G) (Some Sym, 0) \<rparr>] \<rparr>)"

definition addTlsIndex :: "FilePtr \<Rightarrow> MipsGotSection \<Rightarrow> MipsGotSection" where
  "addTlsIndex F S0 =
     (let (i, S) = getGot F S0; G = Gots S ! i
      in S\<lparr> Gots := (Gots S)[i := G\<lparr> DynTlsSymbols := mv_insert (DynTlsSymbols G) (None, 0) \<rparr>] \<rparr>)"

text \<open>
  \<^verbatim>\<open>tryMergeGots(Dst, Src, IsPrimary)\<close>: \<open>None\<close> when the merged partition would not fit
  (\<^verbatim>\<open>Dst\<close> unchanged), otherwise the new \<^verbatim>\<open>Dst\<close>.
\<close>

definition tryMergeGots :: "Link \<Rightarrow> FileGot \<Rightarrow> FileGot \<Rightarrow> bool \<Rightarrow> FileGot option" where
  "tryMergeGots L Dst Src IsPrimary =
     (let Tmp = Dst\<lparr> PageIndexMap := set_union (PageIndexMap Dst) (PageIndexMap Src),
                    Local16 := set_union (Local16 Dst) (Local16 Src),
                    Global := set_union (Global Dst) (Global Src),
                    Relocs := set_union (Relocs Dst) (Relocs Src),
                    Tls := set_union (Tls Dst) (Tls Src),
                    DynTlsSymbols := set_union (DynTlsSymbols Dst) (DynTlsSymbols Src) \<rparr>;
          Count = (if IsPrimary then HeaderEntriesNum (Config L) else 0) + getIndexEntriesNum L Tmp
      in if Count * Wordsize (Config L) > MipsGotSize (Config L) then None else Some Tmp)"

definition updateAllocSize :: "Link \<Rightarrow> MipsGotSection \<Rightarrow> MipsGotSection" where
  "updateAllocSize L S =
     S\<lparr> GotSize := foldl (\<lambda>Sz G. Sz + getEntriesNum L G * Wordsize (Config L))
                      (HeaderEntriesNum (Config L) * Wordsize (Config L)) (Gots S) \<rparr>"

subsection \<open>MipsGotSection::build\<close>

text \<open>First loop: non-preemptible symbols move from \<^verbatim>\<open>Global\<close> to \<^verbatim>\<open>Local16\<close>.\<close>

definition moveNonPreemptible :: "Link \<Rightarrow> FileGot \<Rightarrow> FileGot" where
  "moveNonPreemptible L Got =
     Got\<lparr> Local16 := foldl (\<lambda>m P. if \<not> IsPreemptible (Syms L (fst P))
                                    then mv_insert m ((fst P, 0), 0) else m)
                         (Local16 Got) (Global Got),
          Global := remove_if (\<lambda>P. \<not> IsPreemptible (Syms L (fst P))) (Global Got) \<rparr>"

text \<open>Second loop: drop reloc-only entries that are global, fold \<^verbatim>\<open>Local32\<close> into \<^verbatim>\<open>Local16\<close>.\<close>

definition foldLocal32 :: "FileGot \<Rightarrow> FileGot" where
  "foldLocal32 Got =
     Got\<lparr> Relocs := remove_if (\<lambda>P. mv_count (Global Got) (fst P)) (Relocs Got),
          Local16 := set_union (Local16 Got) (Local32 Got),
          Local32 := [] \<rparr>"

text \<open>
  Third loop: the future primary GOT collects every global and reloc-only entry, and the
  reloc-only list of each file is cleared. The result is the primary and the files' GOTs.
\<close>

fun collectRelocs :: "FileGot \<Rightarrow> FileGot list \<Rightarrow> FileGot \<times> FileGot list" where
  "collectRelocs Prim [] = (Prim, [])"
| "collectRelocs Prim (Got # Gs) =
     (let Prim' = Prim\<lparr> Relocs := set_union (set_union (Relocs Prim) (Global Got)) (Relocs Got) \<rparr>;
          (P, Gs') = collectRelocs Prim' Gs
      in (P, Got\<lparr> Relocs := [] \<rparr> # Gs'))"

text \<open>
  Fourth loop: merge each file's GOT into the last merged partition, or open a new
  partition holding that file's GOT when the merge is refused. \<^verbatim>\<open>&DstGot == PrimGot\<close> holds
  exactly while \<^verbatim>\<open>MergedGots\<close> has one element. The files' \<^verbatim>\<open>MipsGotIndex\<close> is updated.
\<close>

fun mergeGots ::
  "Link \<Rightarrow> FileGot list \<Rightarrow> (FilePtr \<Rightarrow> nat option) \<Rightarrow> FileGot list
    \<Rightarrow> FileGot list \<times> (FilePtr \<Rightarrow> nat option)"
where
  "mergeGots L MergedGots Idx [] = (MergedGots, Idx)"
| "mergeGots L MergedGots Idx (SrcGot # Gs) =
     (let MergedGots' =
            (case tryMergeGots L (last MergedGots) SrcGot (length MergedGots = 1) of
               Some Dst \<Rightarrow> butlast MergedGots @ [Dst]
             | None \<Rightarrow> MergedGots @ [SrcGot]);
          Idx' = (case File SrcGot of
                    Some F \<Rightarrow> Idx(F \<mapsto> length MergedGots' - 1)
                  | None \<Rightarrow> Idx)
      in mergeGots L MergedGots' Idx' Gs)"

text \<open>Fifth step: in the primary GOT, reloc-only entries that are global are dropped.\<close>

definition reducePrimary :: "FileGot list \<Rightarrow> FileGot list" where
  "reducePrimary Gs =
     (case Gs of
        [] \<Rightarrow> []
      | Prim # Rest \<Rightarrow>
          Prim\<lparr> Relocs := remove_if (\<lambda>P. mv_count (Global Prim) (fst P)) (Relocs Prim) \<rparr> # Rest)"

text \<open>Index assignment: the loops over the six containers of one partition.\<close>

fun assignPages :: "Link \<Rightarrow> nat \<Rightarrow> (OutSecPtr \<times> nat) list \<Rightarrow> (OutSecPtr \<times> nat) list \<times> nat" where
  "assignPages L Index [] = ([], Index)"
| "assignPages L Index (P # Ps) =
     (let (Ps', Index') =
            assignPages L (Index + unat (getMipsPageCount (OsSize (OutSecs L (fst P))))) Ps
      in ((fst P, Index) # Ps', Index'))"

fun assignStep :: "nat \<Rightarrow> nat \<Rightarrow> ('k \<times> nat) list \<Rightarrow> ('k \<times> nat) list \<times> nat" where
  "assignStep d Index [] = ([], Index)"
| "assignStep d Index (P # Ps) =
     (let (Ps', Index') = assignStep d (Index + d) Ps in ((fst P, Index) # Ps', Index'))"

definition assignGot :: "Link \<Rightarrow> bool \<Rightarrow> nat \<Rightarrow> FileGot \<Rightarrow> FileGot \<times> nat" where
  "assignGot L IsPrim Index0 Got =
     (let (pm, i1) = assignPages L Index0 (PageIndexMap Got);
          (l16, i2) = assignStep 1 i1 (Local16 Got);
          (gl, i3) = assignStep 1 i2 (Global Got);
          (rl, i4) = assignStep 1 i3 (Relocs Got);
          (tl, i5) = assignStep 1 i4 (Tls Got);
          (dt, i6) = assignStep 2 i5 (DynTlsSymbols Got)
      in (Got\<lparr> StartIndex := (if IsPrim then 0 else Index0), PageIndexMap := pm, Local16 := l16,
               Global := gl, Relocs := rl, Tls := tl, DynTlsSymbols := dt \<rparr>, i6))"

fun assignGots :: "Link \<Rightarrow> bool \<Rightarrow> nat \<Rightarrow> FileGot list \<Rightarrow> FileGot list" where
  "assignGots L IsPrim Index [] = []"
| "assignGots L IsPrim Index (Got # Gs) =
     (let (Got', Index') = assignGot L IsPrim Index Got in Got' # assignGots L False Index' Gs)"

text \<open>
  The partitions after \<^verbatim>\<open>build\<close> (the creation of dynamic relocations, which follows in the
  source, does not change them). \<^verbatim>\<open>prepareGots\<close> is the first three loops: it yields the future
  primary GOT and the files' GOTs as they enter the merge loop.
\<close>

definition prepareGots :: "Link \<Rightarrow> FileGot list \<Rightarrow> FileGot \<times> FileGot list" where
  "prepareGots L Gs =
     collectRelocs emptyFileGot (map (\<lambda>G. foldLocal32 (moveNonPreemptible L G)) Gs)"

definition build :: "Link \<Rightarrow> MipsGotSection \<Rightarrow> MipsGotSection" where
  "build L S =
     (if Gots S = [] then S
      else
        let (Prim, Gs) = prepareGots L (Gots S);
            (Merged, Idx) = mergeGots L [Prim] (MipsGotIndex S) Gs
        in S\<lparr> Gots := assignGots L True (HeaderEntriesNum (Config L)) (reducePrimary Merged),
              MipsGotIndex := Idx \<rparr>)"


subsection \<open>Scenario: one object, two local symbols in .data, one preemptible global\<close>

definition thenE :: "'e + 'a \<Rightarrow> ('a \<Rightarrow> 'e + 'b) \<Rightarrow> 'e + 'b" where
  "thenE r f = (case r of Inl e \<Rightarrow> Inl e | Inr x \<Rightarrow> f x)"

definition cfgE :: "nat \<Rightarrow> nat \<Rightarrow> nat \<Rightarrow> Configuration" where
  "cfgE ws h M = \<lparr> Wordsize = ws, Is64 = (ws = 8), MipsGotSize = M, Pic = False, Pie = False,
     Static = False, IsRela = False, AllowUndefinedCapRelocs = False, EMachine = EM_MIPS,
     HeaderEntriesNum = h,
     RelativeRel = 3, TlsGotRel = 50, TlsModuleIndexRel = 38, TlsOffsetRel = 39 \<rparr>"

text \<open>
  Symbols 1 and 2 are the local symbols, symbol 3 is the preemptible global \<^verbatim>\<open>p\<close>; output
  section 10 is \<^verbatim>\<open>.data\<close>, of size 0x30000; the object file is 7.
\<close>

definition symE :: "SymbolPtr \<Rightarrow> SymbolBody" where
  "symE p = \<lparr> SymName = (if p = 3 then ''p'' else ''l''), SymKind = DefinedRegularKind,
     SymType = 1, IsPreemptible = (p = 3), GetVA = (\<lambda>a. 0x10000 + a), SymOutSec = Some 10,
     SymFile = 7, SymSection = None, SymHasSection = True, SymValue = 0,
     SymSize = 0, GotIndex = - 1, DynsymIndex = 0 \<rparr>"

definition linkE :: "nat \<Rightarrow> nat \<Rightarrow> nat \<Rightarrow> Link" where
  "linkE ws h M = \<lparr> Config = cfgE ws h M, Syms = symE,
     OutSecs = (\<lambda>_. \<lparr> OsAddr = 0x10000, OsSize = 0x30000 \<rparr>) \<rparr>"

text \<open>
  The registrations: a page reference and a 16-bit GOT reference through each local symbol,
  and a GOT reference to \<^verbatim>\<open>p\<close>; then \<^verbatim>\<open>build\<close> and \<^verbatim>\<open>finalizeContents\<close>.
\<close>

definition registerE :: "Link \<Rightarrow> GotError + MipsGotSection" where
  "registerE L =
      thenE (thenE (thenE (thenE
        (addEntry L 7 1 0 R_MIPS_GOT_LOCAL_PAGE newMipsGotSection)
        (addEntry L 7 2 0 R_MIPS_GOT_LOCAL_PAGE))
        (addEntry L 7 1 0 R_MIPS_GOT_OFF))
        (addEntry L 7 2 0 R_MIPS_GOT_OFF))
        (addEntry L 7 3 0 R_MIPS_GOT_OFF)"

definition scenarioE :: "nat \<Rightarrow> nat \<Rightarrow> nat \<Rightarrow> GotError + MipsGotSection" where
  "scenarioE ws h M =
     (let L = linkE ws h M in thenE (registerE L) (\<lambda>S. Inr (updateAllocSize L (build L S))))"

text \<open>The section after these registrations, written out.\<close>

definition gotsE :: MipsGotSection where
  "gotsE = \<lparr> Gots = [\<lparr> File = Some 7, StartIndex = 0, PageIndexMap = [(10, 0)],
       Local16 = [((1, 0), 0), ((2, 0), 0)], Local32 = [], Global = [(3, 0)], Relocs = [],
       Tls = [], DynTlsSymbols = [] \<rparr>], GotSize = 0, MipsGotIndex = (\<lambda>_. None)(7 \<mapsto> 0) \<rparr>"

subsection \<open>Scenario: one object with a page reference into a 1 GiB section\<close>

definition linkBig :: Link where
  "linkBig = \<lparr> Config = cfgE 8 2 0xfff0, Syms = symE,
     OutSecs = (\<lambda>_. \<lparr> OsAddr = 0x10000, OsSize = 0x40000000 \<rparr>) \<rparr>"

definition registerBig :: "GotError + MipsGotSection" where
  "registerBig = addEntry linkBig 7 1 0 R_MIPS_GOT_LOCAL_PAGE newMipsGotSection"

definition gotsBig :: MipsGotSection where
  "gotsBig = \<lparr> Gots = [\<lparr> File = Some 7, StartIndex = 0, PageIndexMap = [(10, 0)],
       Local16 = [], Local32 = [], Global = [], Relocs = [],
       Tls = [], DynTlsSymbols = [] \<rparr>], GotSize = 0, MipsGotIndex = (\<lambda>_. None)(7 \<mapsto> 0) \<rparr>"

subsection \<open>Scenario: one object with one global and four reloc-only entries\<close>

text \<open>
  Every symbol is preemptible; symbol 3 is referenced through the GOT, symbols 4 to 7 only
  by \<^verbatim>\<open>R_ABS\<close> relocations. \<^verbatim>\<open>MipsGotSize\<close> is configured to 32 bytes.
\<close>

definition linkRel :: Link where
  "linkRel = \<lparr> Config = cfgE 8 2 32, Syms = (\<lambda>p. (symE p)\<lparr> IsPreemptible := True \<rparr>),
     OutSecs = (\<lambda>_. \<lparr> OsAddr = 0x10000, OsSize = 0x30000 \<rparr>) \<rparr>"

definition registerRel :: "GotError + MipsGotSection" where
  "registerRel =
      thenE (thenE (thenE (thenE
        (addEntry linkRel 7 3 0 R_MIPS_GOT_OFF newMipsGotSection)
        (addEntry linkRel 7 4 0 R_ABS))
        (addEntry linkRel 7 5 0 R_ABS))
        (addEntry linkRel 7 6 0 R_ABS))
        (addEntry linkRel 7 7 0 R_ABS)"

definition gotsRel :: MipsGotSection where
  "gotsRel = \<lparr> Gots = [\<lparr> File = Some 7, StartIndex = 0, PageIndexMap = [],
       Local16 = [], Local32 = [], Global = [(3, 0)],
       Relocs = [(4, 0), (5, 0), (6, 0), (7, 0)],
       Tls = [], DynTlsSymbols = [] \<rparr>], GotSize = 0, MipsGotIndex = (\<lambda>_. None)(7 \<mapsto> 0) \<rparr>"

subsection \<open>The bound that tryMergeGots checks\<close>

definition fitsGot :: "Link \<Rightarrow> bool \<Rightarrow> FileGot \<Rightarrow> bool" where
  "fitsGot L IsPrimary G =
     (((if IsPrimary then HeaderEntriesNum (Config L) else 0) + getIndexEntriesNum L G)
        * Wordsize (Config L) \<le> MipsGotSize (Config L))"

definition mergedInv :: "Link \<Rightarrow> FileGot list \<Rightarrow> bool" where
  "mergedInv L Ms = (Ms \<noteq> [] \<and> fitsGot L True (hd Ms) \<and> (\<forall>G \<in> set (tl Ms). fitsGot L False G))"

section \<open>std::stable\_partition and std::stable\_sort\<close>

text \<open>
  \<^verbatim>\<open>std::stable_partition\<close> moves the elements that satisfy the predicate to the front and
  keeps the relative order inside both groups; the returned iterator is the length of the
  first group. \<^verbatim>\<open>std::stable_sort\<close> with a comparator that is a strict weak ordering yields
  the one sorted permutation that keeps equivalent elements in their original order; it is
  computed here by insertion from the right, each element going in front of the first
  element that is not less than it.
\<close>

definition stable_partition :: "('a \<Rightarrow> bool) \<Rightarrow> 'a list \<Rightarrow> 'a list \<times> nat" where
  "stable_partition P xs = (filter P xs @ filter (\<lambda>x. \<not> P x) xs, length (filter P xs))"

fun insert_sorted :: "('a \<Rightarrow> 'a \<Rightarrow> bool) \<Rightarrow> 'a \<Rightarrow> 'a list \<Rightarrow> 'a list" where
  "insert_sorted Comp x [] = [x]"
| "insert_sorted Comp x (y # ys) =
     (if Comp y x then y # insert_sorted Comp x ys else x # y # ys)"

definition stable_sort :: "('a \<Rightarrow> 'a \<Rightarrow> bool) \<Rightarrow> 'a list \<Rightarrow> 'a list" where
  "stable_sort Comp xs = foldr (insert_sorted Comp) xs []"

section \<open>Symbol tables and the GNU hash table\<close>

record SymbolTableEntry =
  Symbol :: SymbolPtr
  StrTabOffset :: nat

record GnuEntry =
  GnuBody :: SymbolPtr
  GnuStrTabOffset :: nat
  Hash :: u32

record GnuHashTableSection =
  GnuSymbols :: "GnuEntry list"
  NBuckets :: nat
  MaskWords :: nat
  GnuSize :: nat

definition newGnuHashTableSection :: GnuHashTableSection where
  "newGnuHashTableSection = \<lparr> GnuSymbols = [], NBuckets = 0, MaskWords = 0, GnuSize = 0 \<rparr>"

text \<open>
  \<^verbatim>\<open>llvm::NextPowerOf2\<close> (llvm/Support/MathExtras.h, outside this repository): the smallest
  power of two strictly greater than its argument, zero on overflow, computed on 64 bits by
  smearing the highest set bit to the right and adding one.
\<close>

definition NextPowerOf2 :: "u64 \<Rightarrow> u64" where
  "NextPowerOf2 A0 =
     (let A1 = A0 OR drop_bit 1 A0;
          A2 = A1 OR drop_bit 2 A1;
          A3 = A2 OR drop_bit 4 A2;
          A4 = A3 OR drop_bit 8 A3;
          A5 = A4 OR drop_bit 16 A4;
          A6 = A5 OR drop_bit 32 A5
      in A6 + 1)"

definition hashGnu :: "string \<Rightarrow> u32" where
  "hashGnu Name = foldl (\<lambda>H C. push_bit 5 H + H + of_nat (of_char C)) 5381 Name"

definition bucketSizes :: "nat list" where
  "bucketSizes = [131071, 65521, 32749, 16381, 8191, 4093, 2039, 1021, 509,
                  251, 127, 61, 31, 13, 7, 3, 1]"

fun firstNotAbove :: "nat list \<Rightarrow> nat \<Rightarrow> nat" where
  "firstNotAbove [] NumSymbols = 0"
| "firstNotAbove (N # Ns) NumSymbols = (if N \<le> NumSymbols then N else firstNotAbove Ns NumSymbols)"

definition getBucketSize :: "nat \<Rightarrow> nat" where
  "getBucketSize NumSymbols = firstNotAbove bucketSizes NumSymbols"

text \<open>
  \<^verbatim>\<open>GnuHashTableSection::addSymbols(V)\<close>: the new contents of the vector \<^verbatim>\<open>V\<close> and of the hash
  table. The stable partition has moved the undefined symbols to the front also when the
  function returns early.
\<close>

definition gnuEntryOf :: "(SymbolPtr \<Rightarrow> SymbolBody) \<Rightarrow> SymbolTableEntry \<Rightarrow> GnuEntry" where
  "gnuEntryOf Sy Ent = \<lparr> GnuBody = Symbol Ent, GnuStrTabOffset = StrTabOffset Ent,
                         Hash = hashGnu (SymName (Sy (Symbol Ent))) \<rparr>"

definition symtabEntryOf :: "GnuEntry \<Rightarrow> SymbolTableEntry" where
  "symtabEntryOf Ent = \<lparr> Symbol = GnuBody Ent, StrTabOffset = GnuStrTabOffset Ent \<rparr>"

definition addSymbols ::
  "(SymbolPtr \<Rightarrow> SymbolBody) \<Rightarrow> SymbolTableEntry list \<Rightarrow> GnuHashTableSection
    \<Rightarrow> SymbolTableEntry list \<times> GnuHashTableSection"
where
  "addSymbols Sy V0 G =
     (let (V, Mid) = stable_partition (\<lambda>S. isUndefined (Sy (Symbol S))) V0
      in if Mid = length V then (V, G)
         else
           let Symbols1 = GnuSymbols G @ map (gnuEntryOf Sy) (drop Mid V);
               NB = getBucketSize (length Symbols1);
               Symbols2 = stable_sort (\<lambda>L R. unat (Hash L) mod NB < unat (Hash R) mod NB) Symbols1
           in (take Mid V @ map symtabEntryOf Symbols2,
               G\<lparr> GnuSymbols := Symbols2, NBuckets := NB \<rparr>))"

definition GnuHash_finalizeContents :: "Configuration \<Rightarrow> GnuHashTableSection \<Rightarrow> GnuHashTableSection" where
  "GnuHash_finalizeContents C G =
     (let MW = (if GnuSymbols G = [] then 1
                else unat (NextPowerOf2 (of_nat ((length (GnuSymbols G) - 1) div Wordsize C))))
      in G\<lparr> MaskWords := MW,
            GnuSize := 16 + Wordsize C * MW + NBuckets G * 4 + length (GnuSymbols G) * 4 \<rparr>)"

text \<open>
  The symbol table section: its entries, its type, the section index of the output section
  of its string table, and the \<^verbatim>\<open>Link\<close> and \<^verbatim>\<open>Info\<close> fields of its output section. \<^verbatim>\<open>getNumSymbols()\<close> is declared in the header: it counts the null entry that
  \<^verbatim>\<open>SymbolTableSection::writeTo\<close> skips, so that \<^verbatim>\<open>HashTableSection::writeTo\<close> can index its
  chain array by \<^verbatim>\<open>DynsymIndex\<close>.
\<close>

datatype SectionType = SHT_SYMTAB | SHT_DYNSYM

record SymbolTableBaseSection =
  Symbols :: "SymbolTableEntry list"
  SymTabType :: SectionType
  StrTabSectionIndex :: nat
  OutSecLink :: nat
  Info :: nat

definition getNumSymbols :: "SymbolTableBaseSection \<Rightarrow> nat" where
  "getNumSymbols T = length (Symbols T) + 1"

text \<open>The first three words of the header that \<^verbatim>\<open>GnuHashTableSection::writeTo\<close> writes.\<close>

record GnuHashHeader =
  nbuckets :: u32
  symoffset :: u32
  maskwords :: u32

definition GnuHash_header :: "SymbolTableBaseSection \<Rightarrow> GnuHashTableSection \<Rightarrow> GnuHashHeader" where
  "GnuHash_header DynSymTab G =
     \<lparr> nbuckets = of_nat (NBuckets G),
       symoffset = of_nat (getNumSymbols DynSymTab) - of_nat (length (GnuSymbols G)),
       maskwords = of_nat (MaskWords G) \<rparr>"

text \<open>
  What \<^verbatim>\<open>SymbolTableBaseSection::finalizeContents\<close> reads and writes: the section itself, the
  GNU hash table \<^verbatim>\<open>InX::GnuHashTab\<close> if there is one, and the symbols.
\<close>

record DynState =
  DynSymTab :: SymbolTableBaseSection
  GnuHashTab :: "GnuHashTableSection option"
  DynSyms :: "SymbolPtr \<Rightarrow> SymbolBody"

definition isInGot :: "SymbolBody \<Rightarrow> bool" where
  "isInGot B = (GotIndex B \<noteq> - 1)"

definition sortMipsSymbols :: "(SymbolPtr \<Rightarrow> SymbolBody) \<Rightarrow> SymbolTableEntry \<Rightarrow> SymbolTableEntry \<Rightarrow> bool" where
  "sortMipsSymbols Sy L R =
     (if \<not> isInGot (Sy (Symbol L)) \<or> \<not> isInGot (Sy (Symbol R)) then \<not> isInGot (Sy (Symbol L))
      else GotIndex (Sy (Symbol L)) < GotIndex (Sy (Symbol R)))"

fun assignDynsymIndex ::
  "nat \<Rightarrow> SymbolTableEntry list \<Rightarrow> (SymbolPtr \<Rightarrow> SymbolBody) \<Rightarrow> (SymbolPtr \<Rightarrow> SymbolBody)"
where
  "assignDynsymIndex I [] Sy = Sy"
| "assignDynsymIndex I (S # Ss) Sy =
     assignDynsymIndex (I + 1) Ss (Sy(Symbol S := (Sy (Symbol S))\<lparr> DynsymIndex := of_nat (I + 1) \<rparr>))"

definition SymbolTable_finalizeContents :: "Configuration \<Rightarrow> DynState \<Rightarrow> DynState" where
  "SymbolTable_finalizeContents C D =
     (let T0 = (DynSymTab D)\<lparr> OutSecLink := StrTabSectionIndex (DynSymTab D) \<rparr> in
      if SymTabType T0 = SHT_DYNSYM then
        let T = T0\<lparr> Info := 1 \<rparr>;
            (V, GH) =
              (case GnuHashTab D of
                 Some G \<Rightarrow> (let (V', G') = addSymbols (DynSyms D) (Symbols T) G in (V', Some G'))
               | None \<Rightarrow>
                   (if EMachine C = EM_MIPS
                    then stable_sort (sortMipsSymbols (DynSyms D)) (Symbols T)
                    else Symbols T, None))
        in \<lparr> DynSymTab = T\<lparr> Symbols := V \<rparr>, GnuHashTab = GH,
             DynSyms = assignDynsymIndex 0 V (DynSyms D) \<rparr>
      else D\<lparr> DynSymTab := T0 \<rparr>)"

text \<open>
  \<^verbatim>\<open>SymbolTableBaseSection::getSymbolIndex(Body)\<close>. The predicate of the search compares two
  section symbols by \<^verbatim>\<open>cast<DefinedRegular>(...)->Section->getOutputSection()\<close>: the cast fails
  on a symbol of another kind, and a null \<^verbatim>\<open>Section\<close> is dereferenced. Both are failures of the
  call; the left operand is evaluated first here, and nothing below depends on which of
  two failing operands is reported.
\<close>

datatype IndexError = CastFailed | NullSection

definition sectionOutSec :: "SymbolBody \<Rightarrow> IndexError + OutSecPtr option" where
  "sectionOutSec B =
     (if SymKind B \<noteq> DefinedRegularKind then Inl CastFailed
      else if \<not> SymHasSection B then Inl NullSection
      else Inr (SymOutSec B))"

definition symbolMatches ::
  "(SymbolPtr \<Rightarrow> SymbolBody) \<Rightarrow> SymbolPtr \<Rightarrow> SymbolTableEntry \<Rightarrow> IndexError + bool" where
  "symbolMatches Sy Body E =
     (if Symbol E = Body then Inr True
      else if SymType (Sy Body) = STT_SECTION \<and> SymType (Sy (Symbol E)) = STT_SECTION then
        (case sectionOutSec (Sy Body) of
           Inl Err \<Rightarrow> Inl Err
         | Inr L \<Rightarrow> (case sectionOutSec (Sy (Symbol E)) of
                       Inl Err \<Rightarrow> Inl Err
                     | Inr R \<Rightarrow> Inr (L = R)))
      else Inr False)"

text \<open>
  \<^verbatim>\<open>llvm::find_if\<close> with a predicate that can fail: the position of the first match, or the
  length when there is none; the search stops at the first failure.
\<close>

fun find_if :: "('a \<Rightarrow> 'e + bool) \<Rightarrow> 'a list \<Rightarrow> 'e + nat" where
  "find_if P [] = Inr 0"
| "find_if P (x # xs) =
     (case P x of
        Inl Err \<Rightarrow> Inl Err
      | Inr True \<Rightarrow> Inr 0
      | Inr False \<Rightarrow> (case find_if P xs of Inl Err \<Rightarrow> Inl Err | Inr I \<Rightarrow> Inr (I + 1)))"

definition getSymbolIndex ::
  "(SymbolPtr \<Rightarrow> SymbolBody) \<Rightarrow> SymbolTableBaseSection \<Rightarrow> SymbolPtr \<Rightarrow> IndexError + nat" where
  "getSymbolIndex Sy T Body =
     (case find_if (symbolMatches Sy Body) (Symbols T) of
        Inl Err \<Rightarrow> Inl Err
      | Inr I \<Rightarrow> Inr (if I = length (Symbols T) then 0 else I + 1))"

subsection \<open>Scenario: a GNU hash table over the defined globals a, b, c\<close>

definition symC :: "SymbolPtr \<Rightarrow> SymbolBody" where
  "symC p = \<lparr> SymName = (if p = 1 then ''a'' else if p = 2 then ''b'' else ''c''),
     SymKind = DefinedRegularKind, SymType = 1, IsPreemptible = True, GetVA = (\<lambda>a. a),
     SymOutSec = Some 10, SymFile = 7, SymSection = None, SymHasSection = True, SymValue = 0,
     SymSize = 0, GotIndex = - 1, DynsymIndex = 0 \<rparr>"

definition dynC :: DynState where
  "dynC = \<lparr> DynSymTab = \<lparr> Symbols = [\<lparr> Symbol = 1, StrTabOffset = 1 \<rparr>,
       \<lparr> Symbol = 2, StrTabOffset = 3 \<rparr>, \<lparr> Symbol = 3, StrTabOffset = 5 \<rparr>],
       SymTabType = SHT_DYNSYM, StrTabSectionIndex = 5, OutSecLink = 0, Info = 0 \<rparr>,
     GnuHashTab = Some newGnuHashTableSection, DynSyms = symC \<rparr>"

definition cfgC :: Configuration where
  "cfgC = (cfgE 8 2 0xfff0)\<lparr> EMachine := EM_X86_64 \<rparr>"

subsection \<open>Scenario: a symbol table of a relocatable link with two section symbols\<close>

text \<open>
  The table holds the section symbols 1 and 2, of the output sections 10 and 11. Symbol 3 is
  another section symbol of the output section 10, symbol 4 a section symbol of the
  output section 12, symbol 5 a section symbol that is undefined, symbol 6 a section
  symbol that is defined without a section, and symbol 7 is an object.
\<close>

definition symS :: "SymbolPtr \<Rightarrow> SymbolBody" where
  "symS p = (symC p)\<lparr>
     SymType := (if p = 7 then STT_OBJECT else STT_SECTION),
     SymKind := (if p = 5 then UndefinedKind else DefinedRegularKind),
     SymHasSection := (p \<noteq> 5 \<and> p \<noteq> 6),
     SymOutSec := (if p = 1 \<or> p = 3 then Some 10 else if p = 2 then Some 11
                   else if p = 4 then Some 12 else None) \<rparr>"

definition tabS :: SymbolTableBaseSection where
  "tabS = \<lparr> Symbols = [\<lparr> Symbol = 1, StrTabOffset = 0 \<rparr>, \<lparr> Symbol = 2, StrTabOffset = 0 \<rparr>],
       SymTabType = SHT_SYMTAB, StrTabSectionIndex = 5, OutSecLink = 0, Info = 0 \<rparr>"

section \<open>Dynamic relocations and RelocationSection\<close>

type_synonym InputSecPtr = nat

text \<open>
  \<^verbatim>\<open>DynamicReloc\<close>. The constructor for MIPS page relocations sets \<^verbatim>\<open>OutputSec\<close> and leaves the
  symbol null; the other constructor leaves \<^verbatim>\<open>OutputSec\<close> null.
\<close>

record DynamicReloc =
  RelType :: u32
  InputSec :: InputSecPtr
  OffsetInSec :: u64
  UseSymVA :: bool
  RelSym :: "SymbolPtr option"
  Addend :: u64
  OutputSec :: "OutSecPtr option"

definition symReloc ::
  "u32 \<Rightarrow> InputSecPtr \<Rightarrow> u64 \<Rightarrow> bool \<Rightarrow> SymbolPtr option \<Rightarrow> u64 \<Rightarrow> DynamicReloc" where
  "symReloc Ty IS Off UseVA Sym Add =
     \<lparr> RelType = Ty, InputSec = IS, OffsetInSec = Off, UseSymVA = UseVA, RelSym = Sym,
       Addend = Add, OutputSec = None \<rparr>"

definition pageReloc :: "u32 \<Rightarrow> InputSecPtr \<Rightarrow> u64 \<Rightarrow> OutSecPtr \<Rightarrow> u64 \<Rightarrow> DynamicReloc" where
  "pageReloc Ty IS Off OS Add =
     \<lparr> RelType = Ty, InputSec = IS, OffsetInSec = Off, UseSymVA = False, RelSym = None,
       Addend = Add, OutputSec = Some OS \<rparr>"

text \<open>
  The input sections are outside this file: \<^verbatim>\<open>SecAddr\<close> is the address of the output section
  of an input section and \<^verbatim>\<open>SecOffset\<close> is its \<^verbatim>\<open>getOffset\<close>.
\<close>

record RelocEnv =
  RLink :: Link
  SecAddr :: "InputSecPtr \<Rightarrow> u64"
  SecOffset :: "InputSecPtr \<Rightarrow> u64 \<Rightarrow> u64"

definition getOffset :: "RelocEnv \<Rightarrow> DynamicReloc \<Rightarrow> u64" where
  "getOffset E R = SecAddr E (InputSec R) + SecOffset E (InputSec R) (OffsetInSec R)"

definition getAddend :: "RelocEnv \<Rightarrow> DynamicReloc \<Rightarrow> u64" where
  "getAddend E R =
     (if UseSymVA R then
        (case RelSym R of Some Sym \<Rightarrow> GetVA (Syms (RLink E) Sym) (Addend R) | None \<Rightarrow> Addend R)
      else case OutputSec R of
             None \<Rightarrow> Addend R
           | Some OS \<Rightarrow> getMipsPageAddr (OsAddr (OutSecs (RLink E) OS)) + Addend R)"

definition getSymIndex :: "RelocEnv \<Rightarrow> DynamicReloc \<Rightarrow> u32" where
  "getSymIndex E R =
     (case RelSym R of
        Some Sym \<Rightarrow> if \<not> UseSymVA R then DynsymIndex (Syms (RLink E) Sym) else 0
      | None \<Rightarrow> 0)"

text \<open>
  One serialized \<^verbatim>\<open>Elf_Rel\<close> or \<^verbatim>\<open>Elf_Rela\<close>. \<^verbatim>\<open>setSymbolAndType\<close>, \<^verbatim>\<open>getSymbol\<close> and \<^verbatim>\<open>getType\<close>
  belong to LLVM's ELF types; the entry keeps the symbol index and the type that were set
  (they pack into \<^verbatim>\<open>r_info\<close> without loss for the indices and types a link produces). An
  \<^verbatim>\<open>Elf_Rel\<close> has no addend.
\<close>

record Elf_Rela =
  r_offset :: u64
  r_sym :: u32
  r_type :: u32
  r_addend :: "u64 option"

record RelocationSection =
  RelocsOf :: "DynamicReloc list"
  Sort :: bool
  NumRelativeRelocs :: nat

definition newRelocationSection :: "bool \<Rightarrow> RelocationSection" where
  "newRelocationSection S = \<lparr> RelocsOf = [], Sort = S, NumRelativeRelocs = 0 \<rparr>"

text \<open>
  \<^verbatim>\<open>addReloc\<close> (the copy kept in the input section for the FreeBSD REL hack is not part of
  the relocation section and is left out).
\<close>

definition addReloc :: "Configuration \<Rightarrow> DynamicReloc \<Rightarrow> RelocationSection \<Rightarrow> RelocationSection" where
  "addReloc C Reloc S =
     S\<lparr> NumRelativeRelocs := (if RelType Reloc = RelativeRel C then NumRelativeRelocs S + 1
                               else NumRelativeRelocs S),
        RelocsOf := RelocsOf S @ [Reloc] \<rparr>"

definition compRelocations :: "Configuration \<Rightarrow> Elf_Rela \<Rightarrow> Elf_Rela \<Rightarrow> bool" where
  "compRelocations C A B =
     (let AIsRel = (r_type A = RelativeRel C); BIsRel = (r_type B = RelativeRel C)
      in if AIsRel \<noteq> BIsRel then AIsRel else r_sym A < r_sym B)"

definition serializeReloc :: "RelocEnv \<Rightarrow> DynamicReloc \<Rightarrow> Elf_Rela" where
  "serializeReloc E Rel =
     \<lparr> r_offset = getOffset E Rel, r_sym = getSymIndex E Rel, r_type = RelType Rel,
       r_addend = (if IsRela (Config (RLink E)) then Some (getAddend E Rel) else None) \<rparr>"

text \<open>\<^verbatim>\<open>RelocationSection::writeTo\<close>: the entries of the buffer, in order.\<close>

definition Reloc_writeTo :: "RelocEnv \<Rightarrow> RelocationSection \<Rightarrow> Elf_Rela list" where
  "Reloc_writeTo E S =
     (let Buf = map (serializeReloc E) (RelocsOf S)
      in if Sort S then stable_sort (compRelocations (Config (RLink E))) Buf else Buf)"

subsection \<open>Scenario: two relocations against the dynamic symbols 2 and 1\<close>

text \<open>
  Symbol \<open>p\<close> has dynamic symbol index \<open>p\<close>; neither relocation is \<^verbatim>\<open>RELATIVE\<close> (type 3 in
  \<^verbatim>\<open>cfgE\<close>).
\<close>

definition envR :: RelocEnv where
  "envR = \<lparr> RLink = \<lparr> Config = cfgE 8 2 0xfff0,
                       Syms = (\<lambda>p. (symE p)\<lparr> DynsymIndex := of_nat p \<rparr>),
                       OutSecs = (\<lambda>_. \<lparr> OsAddr = 0x10000, OsSize = 0x30000 \<rparr>) \<rparr>,
            SecAddr = (\<lambda>_. 0x20000), SecOffset = (\<lambda>_ Off. Off) \<rparr>"

definition relocsR :: "bool \<Rightarrow> RelocationSection" where
  "relocsR S =
     addReloc (cfgE 8 2 0xfff0) (symReloc 51 1 8 False (Some 1) 0)
       (addReloc (cfgE 8 2 0xfff0) (symReloc 51 1 0 False (Some 2) 0) (newRelocationSection S))"

text \<open>The sort key that \<^verbatim>\<open>compRelocations\<close> compares: the group, then the symbol index.\<close>

definition relocKey :: "Configuration \<Rightarrow> Elf_Rela \<Rightarrow> nat" where
  "relocKey C A = (if r_type A = RelativeRel C then 0 else 2 ^ 32) + unat (r_sym A)"

section \<open>Diagnostics\<close>

text \<open>
  Modelled from the spec: the functions \<^verbatim>\<open>error\<close> and \<^verbatim>\<open>fatal\<close> of the diagnostics sink, which
  this file only calls. An error is recorded and processing continues (the callers go on
  with \<^verbatim>\<open>continue\<close>, \<^verbatim>\<open>return\<close> or \<^verbatim>\<open>break\<close> after it); a fatal error aborts the link and does
  not return (the callers have no code after it). Warnings and messages are recorded in the
  same sink. The variable parts of the texts (names of symbols and files) are left out.
  A failing \<^verbatim>\<open>assert\<close> or \<^verbatim>\<open>llvm_unreachable\<close> aborts as well (a build with assertions). A function that can abort returns a sum:
  \<open>Inl\<close> is the abort, \<open>Inr\<close> the normal return with the errors recorded so far.
\<close>

datatype Abort = FatalError string | Unreachable string | AssertFailed string

datatype Severity = SevError | SevWarning | SevMessage

type_synonym Diagnostics = "(Severity \<times> string) list"

definition error :: "string \<Rightarrow> Diagnostics \<Rightarrow> Diagnostics" where
  "error Msg Sink = Sink @ [(SevError, Msg)]"



definition fatal :: "string \<Rightarrow> Abort + 'a" where
  "fatal Msg = Inl (FatalError Msg)"

section \<open>BuildIdSection\<close>

type_synonym u8 = "8 word"

datatype BuildIdKind = BuildIdNone | Fast | Md5 | Sha1 | Hexstring | Uuid

text \<open>
  The configuration of the build id and the library functions it uses: the hash functions
  and the entropy source. \<^verbatim>\<open>getRandomBytes(Buffer, Size)\<close> is given the buffer and the size; it
  yields whether it failed (an error code other than success) and the buffer as the call
  leaves it, on success and on failure.
\<close>

record BuildIdEnv =
  BuildId :: BuildIdKind
  BuildIdVector :: "u8 list"
  xxHash64 :: "u8 list \<Rightarrow> u64"
  MD5_hash :: "u8 list \<Rightarrow> u8 list"
  SHA1_hash :: "u8 list \<Rightarrow> u8 list"
  getRandomBytes :: "u8 list \<Rightarrow> nat \<Rightarrow> bool \<times> u8 list"

record BuildIdSection =
  HashSize :: nat
  HashBuf :: "u8 list"

definition getHashSize :: "BuildIdEnv \<Rightarrow> Abort + nat" where
  "getHashSize E =
     (case BuildId E of
        Fast \<Rightarrow> Inr 8
      | Md5 \<Rightarrow> Inr 16
      | Uuid \<Rightarrow> Inr 16
      | Sha1 \<Rightarrow> Inr 20
      | Hexstring \<Rightarrow> Inr (length (BuildIdVector E))
      | BuildIdNone \<Rightarrow> Inl (Unreachable ''unknown BuildIdKind''))"

text \<open>
  \<^verbatim>\<open>split(Arr, ChunkSize)\<close>. With a chunk size of zero the loop of the source does not end on a
  non-empty array: the result is \<open>None\<close> then.
\<close>

function split :: "u8 list \<Rightarrow> nat \<Rightarrow> u8 list list option" where
  "split Arr ChunkSize =
     (if ChunkSize = 0 \<and> Arr \<noteq> [] then None
      else if length Arr > ChunkSize
        then map_option (\<lambda>Ret. take ChunkSize Arr # Ret) (split (drop ChunkSize Arr) ChunkSize)
      else Some (if Arr \<noteq> [] then [Arr] else []))"
  by pat_completeness auto
termination
  by (relation "measure (\<lambda>(Arr, ChunkSize). length Arr)") auto

definition write64le :: "u64 \<Rightarrow> u8 list" where
  "write64le V = map (\<lambda>i. ucast (drop_bit (8 * i) V)) [0..<8]"

text \<open>
  \<^verbatim>\<open>computeHash(Data, HashFn)\<close>: the hash of the concatenated hashes of the 1 MiB chunks; a
  hash function yields the bytes it writes to its destination.
\<close>

definition computeHash :: "u8 list \<Rightarrow> (u8 list \<Rightarrow> u8 list) \<Rightarrow> u8 list option" where
  "computeHash Data HashFn =
     map_option (\<lambda>Chunks. HashFn (concat (map HashFn Chunks))) (split Data (1024 * 1024))"

text \<open>
  \<^verbatim>\<open>writeBuildId(Buf)\<close>: the section and the diagnostics after the call. The hashing branches
  cannot fail (the chunk size is not zero).
\<close>

definition writeBuildId ::
  "BuildIdEnv \<Rightarrow> u8 list \<Rightarrow> BuildIdSection \<times> Diagnostics \<Rightarrow> Abort + BuildIdSection \<times> Diagnostics"
where
  "writeBuildId E Buf SD =
     (let (S, Sink) = SD;
          hashed = (\<lambda>HashFn. case computeHash Buf HashFn of
                       Some H \<Rightarrow> Inr (S\<lparr> HashBuf := H \<rparr>, Sink)
                     | None \<Rightarrow> Inl (Unreachable ''split''))
      in case BuildId E of
           Fast \<Rightarrow> hashed (\<lambda>Arr. write64le (xxHash64 E Arr))
         | Md5 \<Rightarrow> hashed (\<lambda>Arr. take 16 (MD5_hash E Arr))
         | Sha1 \<Rightarrow> hashed (\<lambda>Arr. take 20 (SHA1_hash E Arr))
         | Uuid \<Rightarrow>
             (let (Failed, Bytes) = getRandomBytes E (HashBuf S) (HashSize S)
              in Inr (S\<lparr> HashBuf := Bytes \<rparr>,
                      if Failed then error ''entropy source failure'' Sink else Sink))
         | Hexstring \<Rightarrow> Inr (S\<lparr> HashBuf := BuildIdVector E \<rparr>, Sink)
         | BuildIdNone \<Rightarrow> Inl (Unreachable ''unknown BuildIdKind''))"

subsection \<open>Scenario: a build id of kind uuid with a failing entropy source\<close>

text \<open>The entropy source of the scenario fails after it has written one byte.\<close>

definition envU :: BuildIdEnv where
  "envU = \<lparr> BuildId = Uuid, BuildIdVector = [], xxHash64 = (\<lambda>_. 0), MD5_hash = (\<lambda>_. replicate 16 0),
            SHA1_hash = (\<lambda>_. replicate 20 0), getRandomBytes = (\<lambda>Buffer Size. (True, Buffer[0 := 0xAA])) \<rparr>"

definition secU :: BuildIdSection where
  "secU = \<lparr> HashSize = 16, HashBuf = replicate 16 0 \<rparr>"

section \<open>MipsGotSection: dynamic relocations and writeTo\<close>

text \<open>
  The last part of \<^verbatim>\<open>build\<close>: the \<^verbatim>\<open>GotIndex\<close> of the symbols of the primary GOT, and the
  dynamic relocations handed to \<^verbatim>\<open>RelaDyn->addReloc\<close>, in the order of the calls. \<open>This\<close> is
  the GOT section as the input section of the relocations.
\<close>

definition setGotIndexes :: "FileGot \<Rightarrow> (SymbolPtr \<Rightarrow> SymbolBody) \<Rightarrow> (SymbolPtr \<Rightarrow> SymbolBody)" where
  "setGotIndexes PrimGot Sy =
     foldl (\<lambda>St P. St(fst P := (St (fst P))\<lparr> GotIndex := of_nat (snd P) \<rparr>)) Sy
       (Global PrimGot @ Relocs PrimGot)"

definition tlsRelocs :: "Link \<Rightarrow> InputSecPtr \<Rightarrow> FileGot \<Rightarrow> DynamicReloc list" where
  "tlsRelocs L This Got =
     concat (map (\<lambda>P. if IsPreemptible (Syms L (fst P))
                       then [symReloc (TlsGotRel (Config L)) This
                               (of_nat (snd P * Wordsize (Config L))) False (Some (fst P)) 0]
                       else []) (Tls Got))
     @ concat (map (\<lambda>P.
         let Offset = of_nat (snd P * Wordsize (Config L)) in
         case fst P of
           None \<Rightarrow> if \<not> Pic (Config L) then []
                    else [symReloc (TlsModuleIndexRel (Config L)) This Offset False None 0]
         | Some Sym \<Rightarrow>
             if \<not> IsPreemptible (Syms L Sym) then []
             else [symReloc (TlsModuleIndexRel (Config L)) This Offset False (Some Sym) 0,
                   symReloc (TlsOffsetRel (Config L)) This
                     (Offset + of_nat (Wordsize (Config L))) False (Some Sym) 0])
         (DynTlsSymbols Got))"

definition secondaryRelocs :: "Link \<Rightarrow> InputSecPtr \<Rightarrow> FileGot \<Rightarrow> DynamicReloc list" where
  "secondaryRelocs L This Got =
     map (\<lambda>P. symReloc (RelativeRel (Config L)) This (of_nat (snd P * Wordsize (Config L)))
                 False (Some (fst P)) 0) (Global Got)
     @ (if \<not> Pic (Config L) then []
        else
          concat (map (\<lambda>P. map (\<lambda>PI. pageReloc (RelativeRel (Config L)) This
                                         (of_nat ((snd P + PI) * Wordsize (Config L))) (fst P)
                                         (of_nat (PI * 0x10000)))
                               [0..<unat (getMipsPageCount (OsSize (OutSecs L (fst P))))])
                    (PageIndexMap Got))
          @ map (\<lambda>P. symReloc (RelativeRel (Config L)) This
                        (of_nat (snd P * Wordsize (Config L))) True (Some (fst (fst P)))
                        (snd (fst P))) (Local16 Got))"

definition buildRelocs :: "Link \<Rightarrow> InputSecPtr \<Rightarrow> FileGot list \<Rightarrow> DynamicReloc list" where
  "buildRelocs L This Gs =
     (case Gs of
        [] \<Rightarrow> []
      | Prim # Rest \<Rightarrow>
          tlsRelocs L This Prim
          @ concat (map (\<lambda>Got. tlsRelocs L This Got @ secondaryRelocs L This Got) Rest))"

text \<open>
  The output buffer, one value per GOT slot: \<^verbatim>\<open>writeTo\<close> addresses it only at multiples of the
  word size. \<^verbatim>\<open>writeUint\<close> writes 64 bits, or the low 32 bits on a 32-bit target.
\<close>

type_synonym GotBuf = "nat \<Rightarrow> u64"

definition writeUint :: "Configuration \<Rightarrow> nat \<Rightarrow> u64 \<Rightarrow> GotBuf \<Rightarrow> GotBuf" where
  "writeUint C Slot Val Buf = Buf(Slot := (if Is64 C then Val else Val AND 0xffffffff))"

definition writePages :: "Link \<Rightarrow> (OutSecPtr \<times> nat) list \<Rightarrow> GotBuf \<Rightarrow> GotBuf" where
  "writePages L PM Buf0 =
     foldl (\<lambda>Buf P.
              let PageCount = unat (getMipsPageCount (OsSize (OutSecs L (fst P))));
                  FirstPageAddr = getMipsPageAddr (OsAddr (OutSecs L (fst P)))
              in foldl (\<lambda>B PI. writeUint (Config L) (snd P + PI)
                                   (FirstPageAddr + of_nat PI * 0x10000) B)
                   Buf [0..<PageCount])
       Buf0 PM"

definition writeTlsEntries :: "Link \<Rightarrow> (SymbolPtr \<times> nat) list \<Rightarrow> GotBuf \<Rightarrow> GotBuf" where
  "writeTlsEntries L T Buf0 =
     foldl (\<lambda>Buf P.
              let VA = GetVA (Syms L (fst P)) 0
              in writeUint (Config L) (snd P)
                   (if IsPreemptible (Syms L (fst P)) then VA else VA - 0x7000) Buf)
       Buf0 T"

definition writeDynTlsEntries :: "Link \<Rightarrow> (SymbolPtr option \<times> nat) list \<Rightarrow> GotBuf \<Rightarrow> GotBuf" where
  "writeDynTlsEntries L T Buf0 =
     foldl (\<lambda>Buf P.
              case fst P of
                None \<Rightarrow> if \<not> Pic (Config L) then writeUint (Config L) (snd P) 1 Buf else Buf
              | Some Sym \<Rightarrow>
                  if \<not> IsPreemptible (Syms L Sym)
                  then writeUint (Config L) (snd P + 1) (GetVA (Syms L Sym) 0 - 0x8000)
                         (writeUint (Config L) (snd P) 1 Buf)
                  else Buf)
       Buf0 T"

definition writeGot :: "Link \<Rightarrow> bool \<Rightarrow> FileGot \<Rightarrow> GotBuf \<Rightarrow> GotBuf" where
  "writeGot L IsFront G Buf0 =
     (let B1 = writePages L (PageIndexMap G) Buf0;
          B2 = foldl (\<lambda>Buf P. writeUint (Config L) (snd P)
                                 (GetVA (Syms L (fst (fst P))) (snd (fst P))) Buf) B1 (Local16 G);
          B3 = (if IsFront
                then foldl (\<lambda>Buf P. writeUint (Config L) (snd P) (GetVA (Syms L (fst P)) 0) Buf)
                       B2 (Global G)
                else B2);
          B4 = foldl (\<lambda>Buf P. writeUint (Config L) (snd P) (GetVA (Syms L (fst P)) 0) Buf)
                 B3 (Relocs G);
          B5 = writeTlsEntries L (Tls G) B4
      in writeDynTlsEntries L (DynTlsSymbols G) B5)"

fun writeGots :: "Link \<Rightarrow> bool \<Rightarrow> FileGot list \<Rightarrow> GotBuf \<Rightarrow> GotBuf" where
  "writeGots L IsFront [] Buf = Buf"
| "writeGots L IsFront (G # Gs) Buf = writeGots L False Gs (writeGot L IsFront G Buf)"

definition MipsGot_writeTo :: "Link \<Rightarrow> MipsGotSection \<Rightarrow> GotBuf \<Rightarrow> GotBuf" where
  "MipsGot_writeTo L S Buf =
     writeGots L True (Gots S)
       (writeUint (Config L) 1 (push_bit (Wordsize (Config L) * 8 - 1) 1) Buf)"

subsection \<open>Scenario: a shared library with a preemptible TLS symbol in the GOT\<close>

text \<open>
  Symbol 5 is a thread-local variable defined in the library with default visibility, so
  it is preemptible; its value, the offset in the TLS segment, is 0x10. Symbol 6 is a
  non-preemptible thread-local variable at 0x7020. Both are accessed through the GOT
  (initial-exec) from the object file 7. The output buffer is zero before \<^verbatim>\<open>writeTo\<close>.
\<close>

definition symT :: "SymbolPtr \<Rightarrow> SymbolBody" where
  "symT p = \<lparr> SymName = ''t'', SymKind = DefinedRegularKind, SymType = STT_TLS,
     IsPreemptible = (p = 5), GetVA = (\<lambda>a. (if p = 5 then 0x10 else 0x7020) + a),
     SymOutSec = Some 11, SymFile = 7, SymSection = None, SymHasSection = True, SymValue = 0,
     SymSize = 0, GotIndex = - 1, DynsymIndex = 0 \<rparr>"

definition linkT :: Link where
  "linkT = \<lparr> Config = (cfgE 8 2 0xfff0)\<lparr> Pic := True \<rparr>, Syms = symT,
     OutSecs = (\<lambda>_. \<lparr> OsAddr = 0x10000, OsSize = 0x100 \<rparr>) \<rparr>"

definition registerT :: "GotError + MipsGotSection" where
  "registerT = thenE (addEntry linkT 7 5 0 R_MIPS_GOT_OFF newMipsGotSection)
                 (addEntry linkT 7 6 0 R_MIPS_GOT_OFF)"

definition gotsT :: MipsGotSection where
  "gotsT = \<lparr> Gots = [\<lparr> File = Some 7, StartIndex = 0, PageIndexMap = [],
       Local16 = [], Local32 = [], Global = [], Relocs = [],
       Tls = [(5, 0), (6, 0)], DynTlsSymbols = [] \<rparr>], GotSize = 0,
       MipsGotIndex = (\<lambda>_. None)(7 \<mapsto> 0) \<rparr>"

section \<open>CheriCapRelocsSection\<close>








record CapEnv =
  CLink :: Link
  VerboseCapRelocs :: bool
  FileSymbols :: "FilePtr \<Rightarrow> SymbolPtr list"
  SectionFile :: "InputSecPtr \<Rightarrow> FilePtr"
  IsLE :: bool
  This :: InputSecPtr













subsection \<open>Scenario: a capability to a copy-relocated variable of a shared library\<close>








section \<open>MergeSyntheticSection\<close>

text \<open>
  \<^verbatim>\<open>llvm::StringTableBuilder\<close> belongs to LLVM: the sections below use it through the
  operations \<^verbatim>\<open>add\<close> (which returns the offset of the string), \<^verbatim>\<open>finalize\<close>,
  \<^verbatim>\<open>finalizeInOrder\<close>, \<^verbatim>\<open>getOffset\<close> and \<^verbatim>\<open>getSize\<close>, on a builder state of any type.
\<close>

record 'b StringTableBuilder =
  sbAdd :: "u8 list \<Rightarrow> 'b \<Rightarrow> nat \<times> 'b"
  sbFinalize :: "'b \<Rightarrow> 'b"
  sbFinalizeInOrder :: "'b \<Rightarrow> 'b"
  sbGetOffset :: "'b \<Rightarrow> u8 list \<Rightarrow> nat"
  sbGetSize :: "'b \<Rightarrow> nat"

record SectionPiece =
  PieceData :: "u8 list"
  Live :: bool
  OutputOff :: nat

type_synonym MergeInputSection = "SectionPiece list"

definition SHF_STRINGS :: u64 where "SHF_STRINGS = 0x20"

record 'b MergeSyntheticSection =
  MergeSections :: "MergeInputSection list"
  Builder :: 'b
  MergeFinalized :: bool
  MergeFlags :: u64

record 'b MergeEnv =
  BuilderOps :: "'b StringTableBuilder"
  Optimize :: nat

definition shouldTailMerge :: "'b MergeEnv \<Rightarrow> 'b MergeSyntheticSection \<Rightarrow> bool" where
  "shouldTailMerge E S = (MergeFlags S AND SHF_STRINGS \<noteq> 0 \<and> Optimize E \<ge> 2)"

definition finalizeTailMerge :: "'b MergeEnv \<Rightarrow> 'b MergeSyntheticSection \<Rightarrow> 'b MergeSyntheticSection" where
  "finalizeTailMerge E S =
     (let B1 = foldl (\<lambda>B Sec. foldl (\<lambda>B' P. if Live P
                                           then snd (sbAdd (BuilderOps E) (PieceData P) B')
                                           else B') B Sec)
                 (Builder S) (MergeSections S);
          B2 = sbFinalize (BuilderOps E) B1
      in S\<lparr> Builder := B2,
            MergeSections :=
              map (map (\<lambda>P. if Live P
                             then P\<lparr> OutputOff := sbGetOffset (BuilderOps E) B2 (PieceData P) \<rparr>
                             else P)) (MergeSections S) \<rparr>)"

fun addPieces :: "'b StringTableBuilder \<Rightarrow> 'b \<Rightarrow> SectionPiece list \<Rightarrow> SectionPiece list \<times> 'b" where
  "addPieces Ops B [] = ([], B)"
| "addPieces Ops B (P # Ps) =
     (if Live P then
        (let (Off, B1) = sbAdd Ops (PieceData P) B; (Ps', B2) = addPieces Ops B1 Ps
         in (P\<lparr> OutputOff := Off \<rparr> # Ps', B2))
      else (let (Ps', B2) = addPieces Ops B Ps in (P # Ps', B2)))"

fun addAllPieces ::
  "'b StringTableBuilder \<Rightarrow> 'b \<Rightarrow> MergeInputSection list \<Rightarrow> MergeInputSection list \<times> 'b" where
  "addAllPieces Ops B [] = ([], B)"
| "addAllPieces Ops B (Sec # Secs) =
     (let (Sec', B1) = addPieces Ops B Sec; (Secs', B2) = addAllPieces Ops B1 Secs
      in (Sec' # Secs', B2))"

definition finalizeNoTailMerge :: "'b MergeEnv \<Rightarrow> 'b MergeSyntheticSection \<Rightarrow> 'b MergeSyntheticSection" where
  "finalizeNoTailMerge E S =
     (let (Secs, B) = addAllPieces (BuilderOps E) (Builder S) (MergeSections S)
      in S\<lparr> MergeSections := Secs, Builder := sbFinalizeInOrder (BuilderOps E) B \<rparr>)"

definition Merge_finalizeContents :: "'b MergeEnv \<Rightarrow> 'b MergeSyntheticSection \<Rightarrow> 'b MergeSyntheticSection" where
  "Merge_finalizeContents E S =
     (if MergeFinalized S then S
      else let S1 = S\<lparr> MergeFinalized := True \<rparr>
           in if shouldTailMerge E S1 then finalizeTailMerge E S1 else finalizeNoTailMerge E S1)"

text \<open>\<^verbatim>\<open>getSize()\<close> casts away the \<^verbatim>\<open>const\<close>: it returns the size and leaves the section finalized.\<close>

definition Merge_getSize :: "'b MergeEnv \<Rightarrow> 'b MergeSyntheticSection \<Rightarrow> nat \<times> 'b MergeSyntheticSection" where
  "Merge_getSize E S =
     (let S1 = Merge_finalizeContents E S in (sbGetSize (BuilderOps E) (Builder S1), S1))"

section \<open>GdbIndexSection\<close>

text \<open>
  What the DWARF library yields for one \<^verbatim>\<open>.debug_info\<close> input section: the list of
  \<^verbatim>\<open>readCuList\<close>, for each compile unit the address ranges that \<^verbatim>\<open>readAddressArea\<close> resolves
  to (section, low, high), and the names and descriptors of \<^verbatim>\<open>readPubNamesAndTypes\<close>.
  \<open>None\<close> as \<^verbatim>\<open>GDwarf\<close> is the failure of \<^verbatim>\<open>createObjectFile\<close>.
\<close>

record DwarfInfo =
  CuList :: "(u64 \<times> u64) list"
  CuRanges :: "(InputSecPtr \<times> u64 \<times> u64) list list"
  NamesAndTypes :: "(string \<times> u8) list"

record GdbInputSection =
  GIsInputSection :: bool
  GHasOutSec :: bool
  GName :: string
  GDwarf :: "DwarfInfo option"

type_synonym AddressEntry = "InputSecPtr \<times> u64 \<times> u64 \<times> nat"

text \<open>
  Modelled from the spec: the symbol table \<^verbatim>\<open>GdbHashTab\<close> of the index, defined outside this
  file. It deduplicates names: \<^verbatim>\<open>add(Hash, Offset)\<close> yields the symbol of the name at this
  offset of the string pool and whether it is new; the symbol carries its hash and the
  index of its CU vector, which \<^verbatim>\<open>readDwarf\<close> sets when the symbol is new.
\<close>

type_synonym GdbHashTab = "(nat \<times> u32 \<times> nat) list"

definition GdbHashTab_lookup :: "GdbHashTab \<Rightarrow> nat \<Rightarrow> nat option" where
  "GdbHashTab_lookup T Offset = map_option snd (map_of T Offset)"

record 'b GdbIndexSection =
  GdbFinalized :: bool
  CompilationUnits :: "(u64 \<times> u64) list"
  AddressArea :: "AddressEntry list"
  SymbolTable :: GdbHashTab
  SymTabCapacity :: nat
  CuVectors :: "u32 list list"
  CuVectorsOffset :: "nat list"
  CuVectorsSize :: nat
  CuTypesOffset :: nat
  SymTabOffset :: nat
  ConstantPoolOffset :: nat
  StringPoolOffset :: nat
  StringPool :: 'b
  GdbDiags :: Diagnostics

text \<open>
  The environment: the global list \<^verbatim>\<open>InputSections\<close>, the builder of the string pool, the
  constants of the header of the class, and the capacity that the symbol table chooses for
  a number of symbols when it is finalized.
\<close>

record 'b GdbEnv =
  InputSections :: "GdbInputSection list"
  PoolOps :: "'b StringTableBuilder"
  CuListOffset :: nat
  CompilationUnitSize :: nat
  AddressEntrySize :: nat
  SymTabEntrySize :: nat
  OffsetTypeSize :: nat
  capacityFor :: "nat \<Rightarrow> nat"

text \<open>
  The static function \<^verbatim>\<open>hash(Str)\<close> of the names of the index, on 32-bit unsigned integers;
  \<^verbatim>\<open>tolower\<close> is the one of the C locale.
\<close>

definition tolower :: "nat \<Rightarrow> nat" where
  "tolower C = (if 65 \<le> C \<and> C \<le> 90 then C + 32 else C)"

definition hash :: "string \<Rightarrow> u32" where
  "hash Str = foldl (\<lambda>R C. R * 67 + of_nat (tolower (of_char C)) - 113) 0 Str"

definition readAddressArea :: "DwarfInfo \<Rightarrow> nat \<Rightarrow> AddressEntry list" where
  "readAddressArea Dwarf CurrentCU =
     concat (map (\<lambda>(i, Ranges). map (\<lambda>(Sec, Lo, Hi). (Sec, Lo, Hi, CurrentCU + i)) Ranges)
               (zip [0..<length (CuRanges Dwarf)] (CuRanges Dwarf)))"

text \<open>A \<^verbatim>\<open>std::set<uint32_t>\<close> is a sorted list without duplicates.\<close>

definition set_insert :: "u32 \<Rightarrow> u32 list \<Rightarrow> u32 list" where
  "set_insert V Vs = (if V \<in> set Vs then Vs else insort V Vs)"

definition addName :: "'b GdbEnv \<Rightarrow> nat \<Rightarrow> 'b GdbIndexSection \<Rightarrow> string \<times> u8 \<Rightarrow> 'b GdbIndexSection" where
  "addName E CuId S NameAndType =
     (let Hash = hash (fst NameAndType);
          (Offset, Pool) = sbAdd (PoolOps E) (map of_char (fst NameAndType)) (StringPool S);
          Val = (push_bit 24 (ucast (snd NameAndType)) OR of_nat CuId :: u32)
      in case GdbHashTab_lookup (SymbolTable S) Offset of
           Some CuVectorIndex \<Rightarrow>
             S\<lparr> StringPool := Pool,
                CuVectors := (CuVectors S)[CuVectorIndex := set_insert Val (CuVectors S ! CuVectorIndex)] \<rparr>
         | None \<Rightarrow>
             S\<lparr> StringPool := Pool,
                SymbolTable := SymbolTable S @ [(Offset, Hash, length (CuVectors S))],
                CuVectors := CuVectors S @ [[Val]] \<rparr>)"

definition readDwarf :: "'b GdbEnv \<Rightarrow> GdbInputSection \<Rightarrow> 'b GdbIndexSection \<Rightarrow> 'b GdbIndexSection" where
  "readDwarf E Sec S =
     (case GDwarf Sec of
        None \<Rightarrow> S\<lparr> GdbDiags := error ''error creating DWARF context'' (GdbDiags S) \<rparr>
      | Some Dwarf \<Rightarrow>
          let CuId = length (CompilationUnits S);
              S1 = S\<lparr> CompilationUnits := CompilationUnits S @ CuList Dwarf,
                      AddressArea := AddressArea S @ readAddressArea Dwarf CuId \<rparr>
          in foldl (addName E CuId) S1 (NamesAndTypes Dwarf))"

fun cuVectorOffsets :: "nat \<Rightarrow> u32 list list \<Rightarrow> nat list \<Rightarrow> nat \<Rightarrow> nat list \<times> nat" where
  "cuVectorOffsets OffsetTypeSz [] Offs Sz = (Offs, Sz)"
| "cuVectorOffsets OffsetTypeSz (CuVec # Vs) Offs Sz =
     cuVectorOffsets OffsetTypeSz Vs (Offs @ [Sz]) (Sz + OffsetTypeSz * (length CuVec + 1))"

definition Gdb_finalizeContents :: "'b GdbEnv \<Rightarrow> 'b GdbIndexSection \<Rightarrow> 'b GdbIndexSection" where
  "Gdb_finalizeContents E S =
     (if GdbFinalized S then S
      else
        let S1 = foldl (\<lambda>St Sec. if GIsInputSection Sec \<and> GHasOutSec Sec \<and> GName Sec = ''.debug_info''
                                  then readDwarf E Sec St else St)
                   (S\<lparr> GdbFinalized := True \<rparr>) (InputSections E);
            Cap = capacityFor E (length (SymbolTable S1));
            CuTypes = CuListOffset E + length (CompilationUnits S1) * CompilationUnitSize E;
            SymTab = CuTypes + length (AddressArea S1) * AddressEntrySize E;
            ConstantPool = SymTab + Cap * SymTabEntrySize E;
            (Offs, Sz) = cuVectorOffsets (OffsetTypeSize E) (CuVectors S1)
                           (CuVectorsOffset S1) (CuVectorsSize S1)
        in S1\<lparr> SymTabCapacity := Cap, CuTypesOffset := CuTypes, SymTabOffset := SymTab,
               ConstantPoolOffset := ConstantPool, CuVectorsOffset := Offs, CuVectorsSize := Sz,
               StringPoolOffset := ConstantPool + Sz,
               StringPool := sbFinalizeInOrder (PoolOps E) (StringPool S1) \<rparr>)"

definition Gdb_getSize :: "'b GdbEnv \<Rightarrow> 'b GdbIndexSection \<Rightarrow> nat \<times> 'b GdbIndexSection" where
  "Gdb_getSize E S =
     (let S1 = Gdb_finalizeContents E S
      in (StringPoolOffset S1 + sbGetSize (PoolOps E) (StringPool S1), S1))"

subsection \<open>Scenario: string table builders without tail merging, two pieces, one compile unit\<close>

text \<open>
  A builder of alignment 1 that keeps the strings in the order of their first insertion:
  its state is the list of strings with their offsets and the size. The constructor of
  \<^verbatim>\<open>MergeSyntheticSection\<close> makes its builder of kind \<^verbatim>\<open>RAW\<close>: the table starts empty and holds
  the strings as they are. The constructor of \<^verbatim>\<open>GdbIndexSection\<close> makes its string pool of kind
  \<^verbatim>\<open>ELF\<close>: the table starts with a NUL byte, and a NUL byte follows every string.
\<close>

type_synonym plainBuilder = "(u8 list \<times> nat) list \<times> nat"

datatype BuilderKind = RAW | ELF

definition newBuilder :: "BuilderKind \<Rightarrow> plainBuilder" where
  "newBuilder K = ([], case K of RAW \<Rightarrow> 0 | ELF \<Rightarrow> 1)"

definition builderOps :: "BuilderKind \<Rightarrow> plainBuilder StringTableBuilder" where
  "builderOps K =
     \<lparr> sbAdd = (\<lambda>Str (M, Sz). case map_of M Str of
                    Some Off \<Rightarrow> (Off, (M, Sz))
                  | None \<Rightarrow> (Sz, (M @ [(Str, Sz)],
                                Sz + length Str + (case K of RAW \<Rightarrow> 0 | ELF \<Rightarrow> 1)))),
       sbFinalize = (\<lambda>B. B),
       sbFinalizeInOrder = (\<lambda>B. B),
       sbGetOffset = (\<lambda>(M, Sz) Str. case map_of M Str of Some Off \<Rightarrow> Off | None \<Rightarrow> 0),
       sbGetSize = snd \<rparr>"

definition mergeEnvM :: "plainBuilder MergeEnv" where
  "mergeEnvM = \<lparr> BuilderOps = builderOps RAW, Optimize = 1 \<rparr>"

definition mergeM :: "plainBuilder MergeSyntheticSection" where
  "mergeM = \<lparr> MergeSections = [[\<lparr> PieceData = [97, 98, 0], Live = True, OutputOff = 0 \<rparr>,
                                  \<lparr> PieceData = [99, 0], Live = True, OutputOff = 0 \<rparr>,
                                  \<lparr> PieceData = [100, 0], Live = False, OutputOff = 0 \<rparr>],
                                 [\<lparr> PieceData = [97, 98, 0], Live = True, OutputOff = 0 \<rparr>]],
              Builder = newBuilder RAW, MergeFinalized = False, MergeFlags = 0x30 \<rparr>"

definition gdbEnvG :: "plainBuilder GdbEnv" where
  "gdbEnvG = \<lparr> InputSections =
                [\<lparr> GIsInputSection = True, GHasOutSec = True, GName = ''.debug_info'',
                   GDwarf = Some \<lparr> CuList = [(0, 0x40)], CuRanges = [[(30, 0, 0x20)]],
                                   NamesAndTypes = [(''main'', 0x30)] \<rparr> \<rparr>],
               PoolOps = builderOps ELF, CuListOffset = 24, CompilationUnitSize = 16,
               AddressEntrySize = 20, SymTabEntrySize = 8, OffsetTypeSize = 4,
               capacityFor = (\<lambda>_. 1024) \<rparr>"

definition gdbG :: "plainBuilder GdbIndexSection" where
  "gdbG = \<lparr> GdbFinalized = False, CompilationUnits = [], AddressArea = [], SymbolTable = [],
            SymTabCapacity = 0, CuVectors = [], CuVectorsOffset = [], CuVectorsSize = 0,
            CuTypesOffset = 0, SymTabOffset = 0, ConstantPoolOffset = 0, StringPoolOffset = 0,
            StringPool = newBuilder ELF, GdbDiags = [] \<rparr>"

section \<open>GotSection and HashTableSection: finalizeContents\<close>

record GotSection =
  NumEntries :: nat
  GotSecSize :: nat

definition Got_finalizeContents :: "Configuration \<Rightarrow> GotSection \<Rightarrow> GotSection" where
  "Got_finalizeContents C S = S\<lparr> GotSecSize := NumEntries S * Wordsize C \<rparr>"

record HashTableSection =
  HashLink :: nat
  HashTabSize :: nat

text \<open>
  \<^verbatim>\<open>HashTableSection::finalizeContents\<close> reads the dynamic symbol table: its section index and
  its number of symbols. \<^verbatim>\<open>NumEntries\<close> is an \<^verbatim>\<open>unsigned\<close>, so the sums and the product wrap at
  \<open>2 ^ 32\<close>.
\<close>

definition Hash_finalizeContents :: "nat \<Rightarrow> SymbolTableBaseSection \<Rightarrow> HashTableSection \<Rightarrow> HashTableSection" where
  "Hash_finalizeContents DynSymIndex DynSym S =
     (let NumEntries0 = (2 + getNumSymbols DynSym) mod 2 ^ 32;
          NumEntries1 = (NumEntries0 + getNumSymbols DynSym) mod 2 ^ 32
      in S\<lparr> HashLink := DynSymIndex, HashTabSize := (NumEntries1 * 4) mod 2 ^ 32 \<rparr>)"

definition MipsGot_finalizeContents :: "Link \<Rightarrow> MipsGotSection \<Rightarrow> MipsGotSection" where
  "MipsGot_finalizeContents L S = updateAllocSize L S"

section \<open>Theorems\<close>

lemmas got_defs =
  thenE_def addEntry_def getGot_def newMipsGotSection_def cfgE_def
  symE_def emptyFileGot_def mv_insert_def mv_count_def isTls_def STT_TLS_def build_def
  prepareGots_def
  moveNonPreemptible_def foldLocal32_def set_union_def remove_if_def tryMergeGots_def
  getIndexEntriesNum_def getPageEntriesNum_def reducePrimary_def
  assignGot_def updateAllocSize_def getEntriesNum_def

lemma pages_of_0x30000: "unat (getMipsPageCount 0x30000) = 5"
  by (simp add: getMipsPageCount_def)

lemma registerE_result: "registerE (linkE ws h M) = Inr gotsE"
  by (simp add: registerE_def gotsE_def linkE_def got_defs Let_def)

lemma buildE_result:
  assumes "(h + 8) * ws \<le> M"
  shows "updateAllocSize (linkE ws h M) (build (linkE ws h M) gotsE) =
       \<lparr> Gots = [\<lparr> File = None, StartIndex = 0,
           PageIndexMap = [(10, h)], Local16 = [((1, 0), h + 5), ((2, 0), h + 6)], Local32 = [],
           Global = [(3, h + 7)], Relocs = [], Tls = [], DynTlsSymbols = [] \<rparr>],
         GotSize = (h + 8) * ws, MipsGotIndex = (\<lambda>_. None)(7 \<mapsto> 0) \<rparr>"
  using assms
  by (simp add: gotsE_def linkE_def got_defs pages_of_0x30000 Let_def add_mult_distrib)

lemma scenarioE_result:
  assumes "(h + 8) * ws \<le> M"
  shows "scenarioE ws h M = Inr \<lparr> Gots = [\<lparr> File = None, StartIndex = 0,
           PageIndexMap = [(10, h)], Local16 = [((1, 0), h + 5), ((2, 0), h + 6)], Local32 = [],
           Global = [(3, h + 7)], Relocs = [], Tls = [], DynTlsSymbols = [] \<rparr>],
         GotSize = (h + 8) * ws, MipsGotIndex = (\<lambda>_. None)(7 \<mapsto> 0) \<rparr>"
  using buildE_result [OF assms]
  by (simp add: scenarioE_def registerE_result thenE_def Let_def)

subsection \<open>C7: the size of the MIPS GOT in the one-object scenario\<close>

text \<open>
  C7, as stated, fails: for the object that references \<^verbatim>\<open>.data\<close> (size 0x30000) through two
  local symbols and has one preemptible global, with 8-byte words, two header entries and
  the default \<^verbatim>\<open>MipsGotSize\<close> 0xfff0, the partition does not reserve 4 page entries and the
  size of the GOT is not (header + 7) words: \<^verbatim>\<open>getMipsPageCount(0x30000)\<close> is
  (0x30000 + 0xfffe) / 0xffff + 1 = 5.
\<close>

theorem C7_counterexample:
  "\<not> (\<exists>S. scenarioE 8 2 0xfff0 = Inr S
        \<and> getPageEntriesNum (linkE 8 2 0xfff0) (hd (Gots S)) = 4
        \<and> GotSize S = (2 + 7) * 8)"
  by (simp add: scenarioE_result getPageEntriesNum_def linkE_def pages_of_0x30000)

text \<open>
  C7, amended: whenever the partition fits (header + 8 entries within \<^verbatim>\<open>MipsGotSize\<close>), the
  scenario yields a single (primary) partition that reserves 5 page entries, 2 local16
  entries and 1 global entry and no other entry, and the GOT's size is
  (header_entries + 8) * word_size.
\<close>

theorem C7_scenario_size:
  assumes "(h + 8) * ws \<le> M"
  shows "\<exists>S G. scenarioE ws h M = Inr S \<and> Gots S = [G]
           \<and> getPageEntriesNum (linkE ws h M) G = 5
           \<and> length (Local16 G) = 2 \<and> length (Global G) = 1
           \<and> Relocs G = [] \<and> Tls G = [] \<and> DynTlsSymbols G = []
           \<and> GotSize S = (h + 8) * ws"
  using assms
  by (simp add: scenarioE_result getPageEntriesNum_def linkE_def pages_of_0x30000)

theorem C7_scenario_size_witness:
  "\<exists>S G. scenarioE 8 2 0xfff0 = Inr S \<and> Gots S = [G]
           \<and> getPageEntriesNum (linkE 8 2 0xfff0) G = 5
           \<and> length (Local16 G) = 2 \<and> length (Global G) = 1
           \<and> Relocs G = [] \<and> Tls G = [] \<and> DynTlsSymbols G = []
           \<and> GotSize S = 80"
  using C7_scenario_size [of 2 8 "0xfff0"] by simp


subsection \<open>C1: the bound on the partitions of the MIPS GOT\<close>

lemma tryMergeGots_fits:
  "tryMergeGots L Dst Src b = Some T \<Longrightarrow> fitsGot L b T"
  by (auto simp: tryMergeGots_def fitsGot_def Let_def split: if_splits)

lemma mergedInv_step:
  assumes "mergedInv L Ms" "fitsGot L False Src"
  shows "mergedInv L (case tryMergeGots L (last Ms) Src (length Ms = 1) of
               Some Dst \<Rightarrow> butlast Ms @ [Dst] | None \<Rightarrow> Ms @ [Src])"
proof (cases "tryMergeGots L (last Ms) Src (length Ms = 1)")
  case None
  with assms show ?thesis by (auto simp: mergedInv_def)
next
  case (Some T)
  then have fit: "fitsGot L (length Ms = 1) T" by (rule tryMergeGots_fits)
  from assms(1) obtain M Rest where Ms: "Ms = M # Rest" by (cases Ms) (auto simp: mergedInv_def)
  show ?thesis
  proof (cases Rest)
    case Nil
    with Ms fit Some show ?thesis by (simp add: mergedInv_def)
  next
    case (Cons R Rs)
    with Ms fit have "fitsGot L False T" by simp
    moreover have "set (butlast Rest) \<subseteq> set Rest" by (auto dest: in_set_butlastD)
    ultimately show ?thesis using assms(1) Ms Cons Some
      by (auto simp: mergedInv_def dest: in_set_butlastD)
  qed
qed

lemma mergeGots_inv:
  "mergedInv L Ms \<Longrightarrow> \<forall>G \<in> set Gs. fitsGot L False G \<Longrightarrow> mergedInv L (fst (mergeGots L Ms Idx Gs))"
proof (induction Gs arbitrary: Ms Idx)
  case Nil
  then show ?case by simp
next
  case (Cons G Gs)
  have "mergedInv L (case tryMergeGots L (last Ms) G (length Ms = 1) of
               Some Dst \<Rightarrow> butlast Ms @ [Dst] | None \<Rightarrow> Ms @ [G])"
    using Cons.prems by (intro mergedInv_step) auto
  then show ?case using Cons.prems by (simp add: Cons.IH Let_def)
qed


lemma collectRelocs_fst:
  "Tls (fst (collectRelocs P Gs)) = Tls P \<and> DynTlsSymbols (fst (collectRelocs P Gs)) = DynTlsSymbols P
   \<and> PageIndexMap (fst (collectRelocs P Gs)) = PageIndexMap P
   \<and> Local16 (fst (collectRelocs P Gs)) = Local16 P \<and> Global (fst (collectRelocs P Gs)) = Global P"
  by (induction Gs arbitrary: P) (simp_all add: Let_def split_beta)

lemma prepareGots_primary:
  "getIndexEntriesNum L (fst (prepareGots L Gs)) = 0"
  by (simp add: prepareGots_def getIndexEntriesNum_def getPageEntriesNum_def Let_def
        collectRelocs_fst emptyFileGot_def)

lemma reducePrimary_inv:
  assumes inv: "mergedInv L Ms"
  shows "mergedInv L (reducePrimary Ms)"
proof -
  from inv obtain P Rest where Ms: "Ms = P # Rest" by (cases Ms) (auto simp: mergedInv_def)
  let ?P = "P\<lparr> Relocs := remove_if (\<lambda>Q. mv_count (Global P) (fst Q)) (Relocs P) \<rparr>"
  have "length (Relocs ?P) \<le> length (Relocs P)" by (simp add: remove_if_def)
  then have "getIndexEntriesNum L ?P \<le> getIndexEntriesNum L P"
    by (simp add: getIndexEntriesNum_def getPageEntriesNum_def Let_def)
  then have "(HeaderEntriesNum (Config L) + getIndexEntriesNum L ?P) * Wordsize (Config L)
      \<le> (HeaderEntriesNum (Config L) + getIndexEntriesNum L P) * Wordsize (Config L)"
    by (intro mult_le_mono1 add_left_mono)
  also have "\<dots> \<le> MipsGotSize (Config L)"
    using inv Ms by (simp add: mergedInv_def fitsGot_def)
  finally have "fitsGot L True ?P" by (simp add: fitsGot_def)
  with inv Ms show ?thesis by (simp add: mergedInv_def reducePrimary_def)
qed

lemma assignPages_keys: "map fst (fst (assignPages L i Ps)) = map fst Ps"
  by (induction Ps arbitrary: i) (simp_all add: Let_def split_beta)

lemma assignStep_length: "length (fst (assignStep d i Ps)) = length Ps"
  by (induction Ps arbitrary: i) (simp_all add: Let_def split_beta)

lemma assignStep_Nil: "(fst (assignStep d i Ps) = []) = (Ps = [])"
  by (cases Ps) (simp_all add: Let_def split_beta)

lemma pageEntries_keys:
  "foldl (\<lambda>Num P. Num + f (fst P)) n Ps = n + sum_list (map f (map fst Ps))"
  by (induction Ps arbitrary: n) (simp_all add: add.assoc)

lemma getPageEntriesNum_keys:
  "getPageEntriesNum L G =
     sum_list (map (\<lambda>k. unat (getMipsPageCount (OsSize (OutSecs L k)))) (map fst (PageIndexMap G)))"
  unfolding getPageEntriesNum_def
  using pageEntries_keys [of "\<lambda>k. unat (getMipsPageCount (OsSize (OutSecs L k)))" 0 "PageIndexMap G"]
  by simp

lemma assignGot_pages:
  "getPageEntriesNum L (fst (assignGot L b i G)) = getPageEntriesNum L G"
  unfolding getPageEntriesNum_keys
  by (simp add: assignGot_def Let_def split_beta assignPages_keys)

lemma assignGot_count:
  "getIndexEntriesNum L (fst (assignGot L b i G)) = getIndexEntriesNum L G"
proof -
  have "Local16 (fst (assignGot L b i G)) = fst (assignStep 1 (snd (assignPages L i (PageIndexMap G))) (Local16 G))"
    by (simp add: assignGot_def Let_def split_beta)
  show ?thesis
    unfolding getIndexEntriesNum_def assignGot_pages
    by (simp add: assignGot_def Let_def split_beta assignStep_length assignStep_Nil)
qed

lemma assignGots_counts:
  "map (getIndexEntriesNum L) (assignGots L b i Gs) = map (getIndexEntriesNum L) Gs"
  by (induction Gs arbitrary: b i) (simp_all add: Let_def split_beta assignGot_count)

lemma mergedInv_nth:
  "mergedInv L Ms \<Longrightarrow> i < length Ms \<Longrightarrow> fitsGot L (i = 0) (Ms ! i)"
  by (cases Ms; cases i) (auto simp: mergedInv_def)

lemma fitsGot_assignGot: "fitsGot L c (fst (assignGot L b i G)) = fitsGot L c G"
  by (simp add: fitsGot_def assignGot_count)

lemma assignGots_all:
  "\<forall>G \<in> set Gs. fitsGot L c G \<Longrightarrow> \<forall>G \<in> set (assignGots L b i Gs). fitsGot L c G"
  by (induction Gs arbitrary: b i) (simp_all add: Let_def split_beta fitsGot_assignGot)

lemma assignGots_inv:
  assumes "mergedInv L Ms"
  shows "mergedInv L (assignGots L b i Ms)"
proof -
  from assms obtain P Rest where Ms: "Ms = P # Rest" by (cases Ms) (auto simp: mergedInv_def)
  with assms have "\<forall>G \<in> set Rest. fitsGot L False G" by (simp add: mergedInv_def)
  then have "\<forall>G \<in> set (assignGots L False (snd (assignGot L b i P)) Rest). fitsGot L False G"
    by (rule assignGots_all)
  with assms Ms show ?thesis
    by (simp add: mergedInv_def Let_def split_beta fitsGot_assignGot)
qed

lemma build_fits:
  assumes hdr: "HeaderEntriesNum (Config L) * Wordsize (Config L) \<le> MipsGotSize (Config L)"
    and files: "\<forall>G \<in> set (snd (prepareGots L (Gots S))). fitsGot L False G"
    and i: "i < length (Gots (build L S))"
  shows "fitsGot L (i = 0) (Gots (build L S) ! i)"
proof (cases "Gots S = []")
  case True
  with i show ?thesis by (simp add: build_def)
next
  case False
  obtain Prim Gs where prep: "prepareGots L (Gots S) = (Prim, Gs)" by (cases "prepareGots L (Gots S)")
  have "getIndexEntriesNum L Prim = 0" using prepareGots_primary [of L "Gots S"] prep by simp
  with hdr have "mergedInv L [Prim]" by (simp add: mergedInv_def fitsGot_def)
  moreover have "\<forall>G \<in> set Gs. fitsGot L False G" using files prep by simp
  ultimately have "mergedInv L (fst (mergeGots L [Prim] (MipsGotIndex S) Gs))"
    by (rule mergeGots_inv)
  then have "mergedInv L (assignGots L True (HeaderEntriesNum (Config L))
                (reducePrimary (fst (mergeGots L [Prim] (MipsGotIndex S) Gs))))"
    by (intro assignGots_inv reducePrimary_inv)
  moreover have "Gots (build L S) = assignGots L True (HeaderEntriesNum (Config L))
                (reducePrimary (fst (mergeGots L [Prim] (MipsGotIndex S) Gs)))"
    using False prep by (simp add: build_def Let_def split_beta)
  ultimately show ?thesis using i by (simp add: mergedInv_nth)
qed


lemma pages_of_1GiB: "unat (getMipsPageCount 0x40000000) = 16386"
  by (simp add: getMipsPageCount_def)

lemma registerBig_result: "registerBig = Inr gotsBig"
  by (simp add: registerBig_def gotsBig_def linkBig_def got_defs Let_def)

lemma buildBig_result:
  "Gots (build linkBig gotsBig) =
     [emptyFileGot,
      \<lparr> File = Some 7, StartIndex = 2, PageIndexMap = [(10, 2)], Local16 = [], Local32 = [],
        Global = [], Relocs = [], Tls = [], DynTlsSymbols = [] \<rparr>]"
  by (simp add: gotsBig_def linkBig_def got_defs pages_of_1GiB Let_def)

lemma registerRel_result: "registerRel = Inr gotsRel"
  by (simp add: registerRel_def gotsRel_def linkRel_def got_defs Let_def)

lemma buildRel_result:
  "Gots (build linkRel gotsRel) =
     [\<lparr> File = None, StartIndex = 0, PageIndexMap = [], Local16 = [], Local32 = [],
        Global = [(3, 2)], Relocs = [(4, 3), (5, 4), (6, 5), (7, 6)], Tls = [],
        DynTlsSymbols = [] \<rparr>]"
  by (simp add: gotsRel_def linkRel_def got_defs Let_def)

text \<open>
  C1, as stated, fails in two ways. With the default \<^verbatim>\<open>MipsGotSize\<close> 0xfff0 and 8-byte words,
  an object with one page reference into a 1 GiB output section needs 16386 page entries;
  the merge into the primary GOT is refused and the object's GOT becomes a partition of its
  own, unchecked: 16386 * 8 > 0xfff0. With \<^verbatim>\<open>MipsGotSize\<close> 32, an object with one global and
  four reloc-only entries is merged into the primary GOT, because reloc-only entries are
  counted only in a partition that has TLS entries: the partition has 5 entries, 40 bytes.
\<close>

theorem C1_counterexample:
  "registerBig = Inr gotsBig
   \<and> \<not> (\<forall>G \<in> set (Gots (build linkBig gotsBig)).
          getEntriesNum linkBig G * Wordsize (Config linkBig) \<le> MipsGotSize (Config linkBig))
   \<and> registerRel = Inr gotsRel
   \<and> \<not> (\<forall>G \<in> set (Gots (build linkRel gotsRel)).
          getEntriesNum linkRel G * Wordsize (Config linkRel) \<le> MipsGotSize (Config linkRel))"
  unfolding buildBig_result buildRel_result
  by (simp add: registerBig_result registerRel_result
        getEntriesNum_def getPageEntriesNum_def linkBig_def linkRel_def cfgE_def
        emptyFileGot_def pages_of_1GiB)

text \<open>
  C1, amended: if the GOT header alone fits \<^verbatim>\<open>MipsGotSize\<close> and the GOT of every input file,
  as it enters the merge loop of \<^verbatim>\<open>build\<close>, fits \<^verbatim>\<open>MipsGotSize\<close> on its own, then every
  partition that exists after \<^verbatim>\<open>build\<close> satisfies the bound that \<^verbatim>\<open>tryMergeGots\<close> checks: the
  number of 16-bit indexed entries (page, local16 and global entries, plus reloc-only, TLS
  and dynamic TLS entries when the partition has a TLS entry), plus the header entries for
  the primary partition, times the word size is at most \<^verbatim>\<open>MipsGotSize\<close>.
\<close>

theorem C1_partitions_fit:
  assumes "HeaderEntriesNum (Config L) * Wordsize (Config L) \<le> MipsGotSize (Config L)"
    and "\<forall>G \<in> set (snd (prepareGots L (Gots S))).
           getIndexEntriesNum L G * Wordsize (Config L) \<le> MipsGotSize (Config L)"
    and "i < length (Gots (build L S))"
  shows "((if i = 0 then HeaderEntriesNum (Config L) else 0)
            + getIndexEntriesNum L (Gots (build L S) ! i)) * Wordsize (Config L)
         \<le> MipsGotSize (Config L)"
  using build_fits [of L S i] assms by (simp add: fitsGot_def)

theorem C1_partitions_fit_witness:
  "HeaderEntriesNum (Config (linkE 8 2 0xfff0)) * Wordsize (Config (linkE 8 2 0xfff0))
      \<le> MipsGotSize (Config (linkE 8 2 0xfff0))
   \<and> list_all (\<lambda>G. getIndexEntriesNum (linkE 8 2 0xfff0) G * Wordsize (Config (linkE 8 2 0xfff0))
           \<le> MipsGotSize (Config (linkE 8 2 0xfff0)))
        (snd (prepareGots (linkE 8 2 0xfff0) (Gots gotsE)))
   \<and> 0 < length (Gots (build (linkE 8 2 0xfff0) gotsE))
   \<and> (HeaderEntriesNum (Config (linkE 8 2 0xfff0))
        + getIndexEntriesNum (linkE 8 2 0xfff0) (Gots (build (linkE 8 2 0xfff0) gotsE) ! 0))
         * Wordsize (Config (linkE 8 2 0xfff0)) \<le> MipsGotSize (Config (linkE 8 2 0xfff0))"
proof -
  have h: "HeaderEntriesNum (Config (linkE 8 2 0xfff0)) * Wordsize (Config (linkE 8 2 0xfff0))
      \<le> MipsGotSize (Config (linkE 8 2 0xfff0))"
    by (simp add: linkE_def cfgE_def)
  have f: "\<forall>G \<in> set (snd (prepareGots (linkE 8 2 0xfff0) (Gots gotsE))).
         getIndexEntriesNum (linkE 8 2 0xfff0) G * Wordsize (Config (linkE 8 2 0xfff0))
           \<le> MipsGotSize (Config (linkE 8 2 0xfff0))"
    by (simp add: gotsE_def linkE_def got_defs pages_of_0x30000 Let_def)
  have l: "0 < length (Gots (build (linkE 8 2 0xfff0) gotsE))"
    by (simp add: gotsE_def linkE_def got_defs pages_of_0x30000 Let_def)
  show ?thesis using h f l C1_partitions_fit [OF h f l] by (simp add: list_all_iff)
qed


subsection \<open>C4: the header of the GNU hash table\<close>



lemma smear_step:
  fixes A X :: "'a::len word"
  assumes "\<And>n. bit X n \<longleftrightarrow> (\<exists>j<m. bit A (n + j))"
  shows "bit (X OR drop_bit m X) n \<longleftrightarrow> (\<exists>j<2*m. bit A (n + j))"
proof
  assume "bit (X OR drop_bit m X) n"
  then consider "bit X n" | "bit X (m + n)" by (auto simp: bit_or_iff bit_drop_bit_eq)
  then show "\<exists>j<2*m. bit A (n + j)"
  proof cases
    case 1
    then obtain j where "j < m" "bit A (n + j)" using assms by blast
    then show ?thesis by (intro exI [of _ j]) simp
  next
    case 2
    then obtain j where "j < m" "bit A (m + n + j)" using assms by blast
    then show ?thesis by (intro exI [of _ "m + j"]) (simp add: ac_simps)
  qed
next
  assume "\<exists>j<2*m. bit A (n + j)"
  then obtain j where j: "j < 2 * m" "bit A (n + j)" by blast
  show "bit (X OR drop_bit m X) n"
  proof (cases "j < m")
    case True
    with j have "bit X n" using assms by blast
    then show ?thesis by (simp add: bit_or_iff)
  next
    case False
    with j have "j - m < m" "bit A (m + n + (j - m))" by (simp_all add: ac_simps)
    then have "bit X (m + n)" using assms by blast
    then show ?thesis by (simp add: bit_or_iff bit_drop_bit_eq)
  qed
qed


lemma smear_bits:
  fixes A :: u64
  shows "bit (NextPowerOf2 A - 1) n \<longleftrightarrow> (\<exists>j<64. bit A (n + j))"
proof -
  define A1 where "A1 = A OR drop_bit 1 A"
  define A2 where "A2 = A1 OR drop_bit 2 A1"
  define A3 where "A3 = A2 OR drop_bit 4 A2"
  define A4 where "A4 = A3 OR drop_bit 8 A3"
  define A5 where "A5 = A4 OR drop_bit 16 A4"
  define A6 where "A6 = A5 OR drop_bit 32 A5"
  have b0: "bit A n \<longleftrightarrow> (\<exists>j<1. bit A (n + j))" for n by simp
  have b1: "bit A1 n \<longleftrightarrow> (\<exists>j<2. bit A (n + j))" for n
    unfolding A1_def using smear_step [of A 1 A n, OF b0] by simp
  have b2: "bit A2 n \<longleftrightarrow> (\<exists>j<4. bit A (n + j))" for n
    unfolding A2_def using smear_step [of A1 2 A n, OF b1] by simp
  have b3: "bit A3 n \<longleftrightarrow> (\<exists>j<8. bit A (n + j))" for n
    unfolding A3_def using smear_step [of A2 4 A n, OF b2] by simp
  have b4: "bit A4 n \<longleftrightarrow> (\<exists>j<16. bit A (n + j))" for n
    unfolding A4_def using smear_step [of A3 8 A n, OF b3] by simp
  have b5: "bit A5 n \<longleftrightarrow> (\<exists>j<32. bit A (n + j))" for n
    unfolding A5_def using smear_step [of A4 16 A n, OF b4] by simp
  have b6: "bit A6 n \<longleftrightarrow> (\<exists>j<64. bit A (n + j))" for n
    unfolding A6_def using smear_step [of A5 32 A n, OF b5] by simp
  have "NextPowerOf2 A = A6 + 1"
    by (simp add: NextPowerOf2_def Let_def A1_def A2_def A3_def A4_def A5_def A6_def)
  then show ?thesis using b6 by simp
qed

lemma bits_below_imp_less:
  fixes w :: "'a::len word"
  assumes "\<And>i. bit w i \<Longrightarrow> i < k" and "k < LENGTH('a)"
  shows "w < 2 ^ k"
proof -
  have "w AND mask k = w"
    by (rule bit_word_eqI) (auto simp: bit_and_iff bit_mask_iff dest: assms(1))
  moreover have "w AND mask k < 2 ^ k"
    using assms(2) by (intro and_mask_less_size) (simp add: word_size)
  ultimately show ?thesis by simp
qed

lemma bit_imp_ge:
  fixes w :: "'a::len word"
  assumes "bit w m"
  shows "2 ^ m \<le> w"
proof (rule ccontr)
  assume "\<not> 2 ^ m \<le> w"
  then have "w < 2 ^ m" by simp
  then have "w AND mask m = w" by (rule less_mask_eq)
  with assms have "bit (w AND mask m) m" by simp
  then show False by (simp add: bit_and_iff bit_mask_iff)
qed

lemma NextPowerOf2_spec:
  fixes A :: u64
  assumes "A < 2 ^ 63"
  shows "\<exists>k \<le> 63. NextPowerOf2 A = 2 ^ k \<and> A < 2 ^ k \<and> (0 < k \<longrightarrow> 2 ^ (k - 1) \<le> A)"
proof -
  define ub where "ub k \<longleftrightarrow> (\<forall>i. bit A i \<longrightarrow> i < k)" for k
  have less63: "A AND mask 63 = A" using assms by (rule less_mask_eq)
  have ub63: "ub 63"
    unfolding ub_def
  proof (intro allI impI)
    fix i assume "bit A i"
    then have "bit (A AND mask 63) i" using less63 by simp
    then show "i < 63" by (simp add: bit_and_iff bit_mask_iff)
  qed
  define k where "k = (LEAST k. ub k)"
  have ubk: "ub k" unfolding k_def using ub63 by (rule LeastI)
  have k63: "k \<le> 63" unfolding k_def using ub63 by (rule Least_le)
  have below: "\<not> ub n" if "n < k" for n using that not_less_Least k_def by metis
  have mono: "ub n" if "k \<le> n" for n using ubk that unfolding ub_def by fastforce
  have smear: "NextPowerOf2 A - 1 = mask k"
  proof (rule bit_word_eqI)
    fix n assume "n < LENGTH(64)"
    show "bit (NextPowerOf2 A - 1) n \<longleftrightarrow> bit (mask k :: u64) n"
    proof
      assume "bit (NextPowerOf2 A - 1) n"
      then obtain j where "bit A (n + j)" unfolding smear_bits by blast
      then have "\<not> ub n" unfolding ub_def by (metis le_add1 not_less)
      then have "n < k" using mono by (metis not_le)
      with \<open>n < LENGTH(64)\<close> show "bit (mask k :: u64) n" by (simp add: bit_mask_iff)
    next
      assume "bit (mask k :: u64) n"
      then have "n < k" by (simp add: bit_mask_iff)
      then have "\<not> ub n" by (rule below)
      then obtain i where i: "bit A i" "n \<le> i" unfolding ub_def by (metis not_less)
      then have "i < 64" using bit_imp_le_length [of A i] by simp
      with i have "i - n < 64" "bit A (n + (i - n))" by simp_all
      then show "bit (NextPowerOf2 A - 1) n" unfolding smear_bits by blast
    qed
  qed
  then have "NextPowerOf2 A = mask k + 1" by (metis diff_add_cancel)
  then have p: "NextPowerOf2 A = 2 ^ k" by (simp add: inc_mask_eq_exp)
  have lt: "A < 2 ^ k"
    using ubk k63 unfolding ub_def by (intro bits_below_imp_less) auto
  have ge: "2 ^ (k - 1) \<le> A" if "0 < k"
  proof -
    from that have "\<not> ub (k - 1)" by (intro below) simp
    then obtain i where i: "bit A i" "k - 1 \<le> i" unfolding ub_def by (metis not_less)
    moreover have "i < k" using ubk i(1) unfolding ub_def by blast
    ultimately have "i = k - 1" by simp
    with i(1) show ?thesis using bit_imp_ge by blast
  qed
  show ?thesis using k63 p lt ge by blast
qed



lemma firstNotAbove_mem:
  "firstNotAbove Ns n \<noteq> 0 \<Longrightarrow> firstNotAbove Ns n \<in> set Ns \<and> firstNotAbove Ns n \<le> n"
  by (induction Ns) (auto split: if_splits)

lemma firstNotAbove_largest:
  "sorted (rev Ns) \<Longrightarrow> N \<in> set Ns \<Longrightarrow> N \<le> n \<Longrightarrow> N \<le> firstNotAbove Ns n"
  by (induction Ns) (auto simp: sorted_append)

lemma getBucketSize_props:
  assumes "1 \<le> n"
  shows "getBucketSize n \<in> set bucketSizes" "getBucketSize n \<le> n" "1 \<le> getBucketSize n"
    "\<forall>N \<in> set bucketSizes. N \<le> n \<longrightarrow> N \<le> getBucketSize n"
proof -
  have s: "sorted (rev bucketSizes)" by (simp add: bucketSizes_def)
  have one: "1 \<in> set bucketSizes" by (simp add: bucketSizes_def)
  from firstNotAbove_largest [OF s one assms] show ge: "1 \<le> getBucketSize n"
    by (simp add: getBucketSize_def)
  then have "firstNotAbove bucketSizes n \<noteq> 0" by (simp add: getBucketSize_def)
  from firstNotAbove_mem [OF this]
  show "getBucketSize n \<in> set bucketSizes" "getBucketSize n \<le> n"
    by (simp_all add: getBucketSize_def)
  show "\<forall>N \<in> set bucketSizes. N \<le> n \<longrightarrow> N \<le> getBucketSize n"
    using firstNotAbove_largest [OF s] by (simp add: getBucketSize_def)
qed

lemma mset_insert_sorted: "mset (insert_sorted c x ys) = add_mset x (mset ys)"
  by (induction ys) simp_all

lemma mset_stable_sort: "mset (stable_sort c xs) = mset xs"
  by (induction xs) (simp_all add: stable_sort_def mset_insert_sorted)

lemma length_stable_sort: "length (stable_sort c xs) = length xs"
  using mset_stable_sort [of c xs] by (metis size_mset)

lemma set_stable_sort: "set (stable_sort c xs) = set xs"
  using mset_stable_sort [of c xs] by (metis set_mset_mset)

lemma assignDynsymIndex_other:
  "p \<notin> Symbol ` set V \<Longrightarrow> assignDynsymIndex I V Sy p = Sy p"
  by (induction V arbitrary: I Sy) simp_all

lemma assignDynsymIndex_nth:
  "distinct (map Symbol V) \<Longrightarrow> i < length V
   \<Longrightarrow> DynsymIndex (assignDynsymIndex I V Sy (Symbol (V ! i))) = of_nat (I + i + 1)"
proof (induction V arbitrary: I Sy i)
  case Nil
  then show ?case by simp
next
  case (Cons S Ss)
  show ?case
  proof (cases i)
    case 0
    with Cons.prems show ?thesis by (simp add: assignDynsymIndex_other)
  next
    case (Suc j)
    with Cons.prems show ?thesis using Cons.IH [of j "I + 1"] by simp
  qed
qed

lemma assignDynsymIndex_kind:
  "SymKind (assignDynsymIndex I V Sy p) = SymKind (Sy p) \<and>
   SymName (assignDynsymIndex I V Sy p) = SymName (Sy p)"
  by (induction V arbitrary: I Sy) simp_all

lemma symtabEntryOf_simps [simp]:
  "Symbol (symtabEntryOf E) = GnuBody E" "StrTabOffset (symtabEntryOf E) = GnuStrTabOffset E"
  by (simp_all add: symtabEntryOf_def)

lemma gnuEntryOf_simps [simp]:
  "GnuBody (gnuEntryOf Sy S) = Symbol S" "GnuStrTabOffset (gnuEntryOf Sy S) = StrTabOffset S"
  by (simp_all add: gnuEntryOf_def)

lemma addSymbols_fresh:
  assumes "GnuSymbols G = []"
    and "filter (\<lambda>S. \<not> isUndefined (Sy (Symbol S))) V0 \<noteq> []"
  shows "addSymbols Sy V0 G =
    (let U = filter (\<lambda>S. isUndefined (Sy (Symbol S))) V0;
         Dn = filter (\<lambda>S. \<not> isUndefined (Sy (Symbol S))) V0;
         NB = getBucketSize (length Dn);
         Symbols2 = stable_sort (\<lambda>L R. unat (Hash L) mod NB < unat (Hash R) mod NB)
                      (map (gnuEntryOf Sy) Dn)
     in (U @ map symtabEntryOf Symbols2,
         G\<lparr> GnuSymbols := Symbols2, NBuckets := NB \<rparr>))"
  using assms
  by (simp add: addSymbols_def stable_partition_def Let_def gnuEntryOf_def cong: map_cong)



lemma NextPowerOf2_nat:
  assumes "m < 2 ^ 62"
  shows "\<exists>k. unat (NextPowerOf2 (of_nat m)) = 2 ^ k \<and> m < 2 ^ k \<and> (0 < k \<longrightarrow> 2 ^ (k - 1) \<le> m)"
proof -
  let ?A = "of_nat m :: u64"
  have "m < 2 ^ 64" using assms by simp
  then have um: "unat ?A = m" by (simp add: unat_of_nat)
  have "unat ?A < unat (2 ^ 63 :: u64)" using um assms by simp
  then have "?A < 2 ^ 63" by (simp only: word_less_nat_alt)
  from NextPowerOf2_spec [OF this] obtain k where k: "k \<le> 63" "NextPowerOf2 ?A = 2 ^ k"
    "?A < 2 ^ k" "0 < k \<longrightarrow> 2 ^ (k - 1) \<le> ?A" by blast
  have p: "unat (2 ^ j :: u64) = 2 ^ j" if "j \<le> 63" for j
  proof -
    have "(2::nat) ^ j < 2 ^ 64" using that by (intro power_strict_increasing) simp_all
    moreover have "unat (2 ^ j :: u64) = unat (of_nat (2 ^ j) :: u64)" by simp
    ultimately show ?thesis by (simp only: unat_of_nat) simp
  qed
  have "unat (NextPowerOf2 ?A) = 2 ^ k" using k(1,2) p by simp
  moreover have "m < 2 ^ k" using k(1,3) p [of k] um by (simp add: word_less_nat_alt)
  moreover have "2 ^ (k - 1) \<le> m" if "0 < k"
    using that k(1,4) p [of "k - 1"] um by (simp add: word_le_nat_alt)
  ultimately show ?thesis by blast
qed

lemma dynsym_gnu_finalize:
  assumes dyn: "SymTabType (DynSymTab D) = SHT_DYNSYM"
    and gh: "GnuHashTab D = Some G0" "GnuSymbols G0 = []"
    and ne: "filter (\<lambda>S. \<not> isUndefined (DynSyms D (Symbol S))) (Symbols (DynSymTab D)) \<noteq> []"
  shows "SymbolTable_finalizeContents C D =
    (let U = filter (\<lambda>S. isUndefined (DynSyms D (Symbol S))) (Symbols (DynSymTab D));
         Dn = filter (\<lambda>S. \<not> isUndefined (DynSyms D (Symbol S))) (Symbols (DynSymTab D));
         NB = getBucketSize (length Dn);
         Symbols2 = stable_sort (\<lambda>L R. unat (Hash L) mod NB < unat (Hash R) mod NB)
                      (map (gnuEntryOf (DynSyms D)) Dn);
         V = U @ map symtabEntryOf Symbols2
     in \<lparr> DynSymTab = (DynSymTab D)\<lparr> OutSecLink := StrTabSectionIndex (DynSymTab D), Info := 1, Symbols := V \<rparr>,
          GnuHashTab = Some (G0\<lparr> GnuSymbols := Symbols2, NBuckets := NB \<rparr>),
          DynSyms = assignDynsymIndex 0 V (DynSyms D) \<rparr>)"
proof -
  have "addSymbols (DynSyms D) (Symbols ((DynSymTab D)\<lparr> OutSecLink := StrTabSectionIndex (DynSymTab D), Info := 1 \<rparr>)) G0 = 
    (let U = filter (\<lambda>S. isUndefined (DynSyms D (Symbol S))) (Symbols (DynSymTab D));
         Dn = filter (\<lambda>S. \<not> isUndefined (DynSyms D (Symbol S))) (Symbols (DynSymTab D));
         NB = getBucketSize (length Dn);
         Symbols2 = stable_sort (\<lambda>L R. unat (Hash L) mod NB < unat (Hash R) mod NB)
                      (map (gnuEntryOf (DynSyms D)) Dn)
     in (U @ map symtabEntryOf Symbols2,
         G0\<lparr> GnuSymbols := Symbols2, NBuckets := NB \<rparr>))"
    using addSymbols_fresh [OF gh(2), of "DynSyms D" "Symbols (DynSymTab D)"] ne by simp
  then show ?thesis
    using dyn gh(1) by (simp add: SymbolTable_finalizeContents_def Let_def)
qed


text \<open>
  C4: let the dynamic symbol table be finalized with a fresh GNU hash table, \<open>n \<ge> 1\<close> of its
  symbols being not undefined, and the hash table be finalized after it. Then the table
  hashes exactly these \<open>n\<close> symbols; \<^verbatim>\<open>MaskWords\<close> is \<^verbatim>\<open>NextPowerOf2((n - 1) / Wordsize)\<close>, which is
  at least 1 and is the power of two just above \<open>(n - 1) / Wordsize\<close>; \<^verbatim>\<open>NBuckets\<close> is the
  largest element of the descending list 131071, ..., 7, 3, 1 that is at most \<open>n\<close>; and the
  header's \<^verbatim>\<open>symoffset\<close> is \<^verbatim>\<open>getNumSymbols() - n\<close>, the dynsym index of the first hashed
  symbol: the entries before it are the undefined symbols, the entries from it on are the
  hashed symbols in the order of the hash table, and (symbols being registered once) the
  \<^verbatim>\<open>DynsymIndex\<close> of the first hashed symbol is \<^verbatim>\<open>symoffset\<close>.
\<close>

theorem C4_gnu_hash_header:
  assumes dyn: "SymTabType (DynSymTab D) = SHT_DYNSYM"
    and gh: "GnuHashTab D = Some G0" "GnuSymbols G0 = []"
    and n: "n = length (filter (\<lambda>S. \<not> isUndefined (DynSyms D (Symbol S))) (Symbols (DynSymTab D)))"
    and n1: "1 \<le> n"
    and sz: "length (Symbols (DynSymTab D)) < 2 ^ 64"
    and ws: "Wordsize C = 4 \<or> Wordsize C = 8"
    and D': "D' = SymbolTable_finalizeContents C D"
  shows "\<exists>G1. GnuHashTab D' = Some G1 \<and>
     (let G' = GnuHash_finalizeContents C G1;
          H = GnuHash_header (DynSymTab D') G';
          m = (n - 1) div Wordsize C;
          first = getNumSymbols (DynSymTab D') - n
      in length (GnuSymbols G') = n
       \<and> MaskWords G' = unat (NextPowerOf2 (of_nat m)) \<and> 1 \<le> MaskWords G'
       \<and> (\<exists>k. MaskWords G' = 2 ^ k \<and> m < 2 ^ k \<and> (0 < k \<longrightarrow> 2 ^ (k - 1) \<le> m))
       \<and> NBuckets G' = getBucketSize n \<and> NBuckets G' \<in> set bucketSizes \<and> NBuckets G' \<le> n
       \<and> (\<forall>N \<in> set bucketSizes. N \<le> n \<longrightarrow> N \<le> NBuckets G')
       \<and> nbuckets H = of_nat (NBuckets G') \<and> maskwords H = of_nat (MaskWords G')
       \<and> symoffset H = of_nat first
       \<and> 1 \<le> first \<and> first - 1 + n = length (Symbols (DynSymTab D'))
       \<and> length (Symbols (DynSymTab D')) = length (Symbols (DynSymTab D))
       \<and> (\<forall>i < first - 1. isUndefined (DynSyms D' (Symbol (Symbols (DynSymTab D') ! i))))
       \<and> map Symbol (drop (first - 1) (Symbols (DynSymTab D'))) = map GnuBody (GnuSymbols G')
       \<and> (\<forall>E \<in> set (GnuSymbols G'). \<not> isUndefined (DynSyms D' (GnuBody E)))
       \<and> (distinct (map Symbol (Symbols (DynSymTab D)))
            \<longrightarrow> DynsymIndex (DynSyms D' (GnuBody (hd (GnuSymbols G')))) = symoffset H))"
proof -
  let ?V0 = "Symbols (DynSymTab D)"
  define U where "U = filter (\<lambda>S. isUndefined (DynSyms D (Symbol S))) ?V0"
  define Dn where "Dn = filter (\<lambda>S. \<not> isUndefined (DynSyms D (Symbol S))) ?V0"
  define NB where "NB = getBucketSize (length Dn)"
  define S2 where "S2 = stable_sort (\<lambda>L R. unat (Hash L) mod NB < unat (Hash R) mod NB)
                      (map (gnuEntryOf (DynSyms D)) Dn)"
  define V where "V = U @ map symtabEntryOf S2"
  define G1 where "G1 = G0\<lparr> GnuSymbols := S2, NBuckets := NB \<rparr>"
  have lenDn: "length Dn = n" using n by (simp add: Dn_def)
  then have ne: "Dn \<noteq> []" using n1 by auto
  have D'eq: "D' = \<lparr> DynSymTab = (DynSymTab D)\<lparr> OutSecLink := StrTabSectionIndex (DynSymTab D), Info := 1, Symbols := V \<rparr>,
          GnuHashTab = Some G1, DynSyms = assignDynsymIndex 0 V (DynSyms D) \<rparr>"
    unfolding D' using dynsym_gnu_finalize [OF dyn gh, of C] ne
    by (simp add: Let_def U_def Dn_def NB_def S2_def V_def G1_def)
  have lenS2: "length S2 = n" by (simp add: S2_def length_stable_sort lenDn)
  have S2ne: "S2 \<noteq> []" using lenS2 n1 by auto
  have split: "length U + length Dn = length ?V0"
    unfolding U_def Dn_def by (rule sum_length_filter_compl)
  have lenV: "length V = length U + n" by (simp add: V_def lenS2)
  have first: "getNumSymbols (DynSymTab D') - n = length U + 1"
    by (simp add: D'eq getNumSymbols_def lenV)
  \<comment> \<open>mask words\<close>
  let ?G' = "GnuHash_finalizeContents C G1"
  let ?m = "(n - 1) div Wordsize C"
  have nlt: "n < 2 ^ 64" using sz split lenDn by simp
  have "?m \<le> (n - 1) div 4" using ws by (auto intro: div_le_mono2)
  also have "\<dots> < 2 ^ 62" using nlt by simp
  finally have mlt: "?m < 2 ^ 62" .
  have mw: "MaskWords ?G' = unat (NextPowerOf2 (of_nat ?m))"
    using S2ne lenS2 by (simp add: GnuHash_finalizeContents_def G1_def Let_def)
  from NextPowerOf2_nat [OF mlt] obtain k where
    k: "unat (NextPowerOf2 (of_nat ?m)) = 2 ^ k" "?m < 2 ^ k" "0 < k \<longrightarrow> 2 ^ (k - 1) \<le> ?m"
    by blast
  have mw1: "1 \<le> MaskWords ?G'" using mw k(1) by simp
  have mwk: "\<exists>k. MaskWords ?G' = 2 ^ k \<and> ?m < 2 ^ k \<and> (0 < k \<longrightarrow> 2 ^ (k - 1) \<le> ?m)"
    using mw k by metis
  \<comment> \<open>buckets\<close>
  have nb: "NBuckets ?G' = getBucketSize n"
    by (simp add: GnuHash_finalizeContents_def G1_def Let_def NB_def lenDn)
  note bp = getBucketSize_props [OF n1]
  \<comment> \<open>the symbols\<close>
  have gs: "GnuSymbols ?G' = S2" by (simp add: GnuHash_finalizeContents_def G1_def Let_def)
  have kind: "isUndefined (assignDynsymIndex I W Sy p) = isUndefined (Sy p)" for I W Sy p
    by (simp add: isUndefined_def assignDynsymIndex_kind)
  have undef: "isUndefined (DynSyms D' (Symbol (Symbols (DynSymTab D') ! i)))" if "i < length U" for i
  proof -
    have "U ! i \<in> set U" using that by simp
    then have "isUndefined (DynSyms D (Symbol (U ! i)))" by (simp add: U_def)
    then show ?thesis using that by (simp add: D'eq kind V_def nth_append)
  qed
  have dropV: "map Symbol (drop (length U) (Symbols (DynSymTab D'))) = map GnuBody S2"
    by (simp add: D'eq V_def comp_def)
  have bodies: "GnuBody ` set S2 = Symbol ` set Dn"
    by (simp add: S2_def set_stable_sort image_image gnuEntryOf_def)
  have hashed: "\<not> isUndefined (DynSyms D' (GnuBody E))" if "E \<in> set S2" for E
  proof -
    from that have "GnuBody E \<in> Symbol ` set Dn" using bodies by blast
    then obtain S where "S \<in> set Dn" "GnuBody E = Symbol S" by blast
    then show ?thesis by (simp add: D'eq kind Dn_def)
  qed
  have idx: "DynsymIndex (DynSyms D' (GnuBody (hd S2))) = of_nat (length U + 1)"
    if dist: "distinct (map Symbol ?V0)"
  proof -
    have "mset S2 = mset (map (gnuEntryOf (DynSyms D)) Dn)"
      by (simp only: S2_def mset_stable_sort)
    then have "image_mset GnuBody (mset S2) = image_mset GnuBody (mset (map (gnuEntryOf (DynSyms D)) Dn))"
      by simp
    also have "\<dots> = mset (map (\<lambda>S. GnuBody (gnuEntryOf (DynSyms D) S)) Dn)"
      by (simp add: multiset.map_comp comp_def)
    also have "\<dots> = mset (map Symbol Dn)" by (simp add: gnuEntryOf_def)
    finally have b: "mset (map GnuBody S2) = mset (map Symbol Dn)" by simp
    have "mset ?V0 = mset U + mset Dn"
      unfolding U_def Dn_def by (simp add: multiset_partition [symmetric])
    then have "image_mset Symbol (mset ?V0) = image_mset Symbol (mset U) + image_mset Symbol (mset Dn)"
      by simp
    then have "mset (map Symbol ?V0) = mset (map Symbol U) + mset (map Symbol Dn)" by simp
    moreover have "mset (map Symbol V) = mset (map Symbol U) + mset (map GnuBody S2)"
      by (simp add: V_def comp_def)
    ultimately have "mset (map Symbol V) = mset (map Symbol ?V0)" using b by simp
    then have "distinct (map Symbol V)" using dist mset_eq_imp_distinct_iff by blast
    moreover have "length U < length V" using lenV n1 by simp
    ultimately have "DynsymIndex (assignDynsymIndex 0 V (DynSyms D) (Symbol (V ! length U)))
        = of_nat (0 + length U + 1)" by (rule assignDynsymIndex_nth)
    moreover have "Symbol (V ! length U) = GnuBody (hd S2)"
      using S2ne by (simp add: V_def nth_append hd_conv_nth)
    ultimately show ?thesis by (simp add: D'eq)
  qed
  have so: "symoffset (GnuHash_header (DynSymTab D') ?G') = of_nat (length U + 1)"
    using first by (simp add: GnuHash_header_def gs lenS2 flip: of_nat_diff)
  have "GnuHashTab D' = Some G1" by (simp add: D'eq)
  moreover have "length (GnuSymbols ?G') = n" by (simp add: gs lenS2)
  ultimately show ?thesis
    using mw mw1 mwk nb bp so first undef dropV hashed idx lenV split lenDn
    apply (intro exI [of _ G1])
    apply (simp only: Let_def gs)
    apply (simp add: GnuHash_header_def D'eq V_def lenS2)
    done
qed



text \<open>
  The instance of the scenario: three defined globals a, b, c and 8-byte words give
  \<^verbatim>\<open>maskwords\<close> 1, \<^verbatim>\<open>nbuckets\<close> 3 and \<^verbatim>\<open>symoffset\<close> 1, the \<^verbatim>\<open>DynsymIndex\<close> of the first hashed symbol.
\<close>

theorem C4_gnu_hash_header_witness:
  "SymTabType (DynSymTab dynC) = SHT_DYNSYM
   \<and> GnuHashTab dynC = Some newGnuHashTableSection
   \<and> GnuSymbols newGnuHashTableSection = []
   \<and> (3::nat) = length (filter (\<lambda>S. \<not> isUndefined (DynSyms dynC (Symbol S))) (Symbols (DynSymTab dynC)))
   \<and> Wordsize cfgC = 8
   \<and> (\<exists>G1. GnuHashTab (SymbolTable_finalizeContents cfgC dynC) = Some G1
        \<and> length (GnuSymbols (GnuHash_finalizeContents cfgC G1)) = 3
        \<and> MaskWords (GnuHash_finalizeContents cfgC G1) = 1
        \<and> NBuckets (GnuHash_finalizeContents cfgC G1) = 3
        \<and> GnuHash_header (DynSymTab (SymbolTable_finalizeContents cfgC dynC))
              (GnuHash_finalizeContents cfgC G1) = \<lparr> nbuckets = 3, symoffset = 1, maskwords = 1 \<rparr>
        \<and> DynsymIndex (DynSyms (SymbolTable_finalizeContents cfgC dynC)
              (GnuBody (hd (GnuSymbols (GnuHash_finalizeContents cfgC G1))))) = 1)"
proof -
  let ?D' = "SymbolTable_finalizeContents cfgC dynC"
  have h1: "SymTabType (DynSymTab dynC) = SHT_DYNSYM" by (simp add: dynC_def)
  have h2: "GnuHashTab dynC = Some newGnuHashTableSection" by (simp add: dynC_def)
  have h3: "GnuSymbols newGnuHashTableSection = []" by (simp add: newGnuHashTableSection_def)
  have h4: "(3::nat) = length (filter (\<lambda>S. \<not> isUndefined (DynSyms dynC (Symbol S)))
              (Symbols (DynSymTab dynC)))"
    by (simp add: dynC_def symC_def isUndefined_def)
  have h5: "(1::nat) \<le> 3" by simp
  have h6: "length (Symbols (DynSymTab dynC)) < 2 ^ 64" by (simp add: dynC_def)
  have ws: "Wordsize cfgC = 8" by (simp add: cfgC_def cfgE_def)
  then have h7: "Wordsize cfgC = 4 \<or> Wordsize cfgC = 8" by simp
  have d: "distinct (map Symbol (Symbols (DynSymTab dynC)))" by (simp add: dynC_def)
  have len: "length (Symbols (DynSymTab dynC)) = 3" by (simp add: dynC_def)
  have np: "unat (NextPowerOf2 0) = 1" by (simp add: NextPowerOf2_def)
  have gb: "getBucketSize 3 = 3" by (simp add: getBucketSize_def bucketSizes_def)
  from C4_gnu_hash_header [OF h1 h2 h3 h4 h5 h6 h7 refl]
  obtain G1 where G1: "GnuHashTab ?D' = Some G1"
    and r: "let G' = GnuHash_finalizeContents cfgC G1;
          H = GnuHash_header (DynSymTab ?D') G';
          m = (3 - 1) div Wordsize cfgC;
          first = getNumSymbols (DynSymTab ?D') - 3
      in length (GnuSymbols G') = 3
       \<and> MaskWords G' = unat (NextPowerOf2 (of_nat m)) \<and> 1 \<le> MaskWords G'
       \<and> (\<exists>k. MaskWords G' = 2 ^ k \<and> m < 2 ^ k \<and> (0 < k \<longrightarrow> 2 ^ (k - 1) \<le> m))
       \<and> NBuckets G' = getBucketSize 3 \<and> NBuckets G' \<in> set bucketSizes \<and> NBuckets G' \<le> 3
       \<and> (\<forall>N \<in> set bucketSizes. N \<le> 3 \<longrightarrow> N \<le> NBuckets G')
       \<and> nbuckets H = of_nat (NBuckets G') \<and> maskwords H = of_nat (MaskWords G')
       \<and> symoffset H = of_nat first
       \<and> 1 \<le> first \<and> first - 1 + 3 = length (Symbols (DynSymTab ?D'))
       \<and> length (Symbols (DynSymTab ?D')) = length (Symbols (DynSymTab dynC))
       \<and> (\<forall>i < first - 1. isUndefined (DynSyms ?D' (Symbol (Symbols (DynSymTab ?D') ! i))))
       \<and> map Symbol (drop (first - 1) (Symbols (DynSymTab ?D'))) = map GnuBody (GnuSymbols G')
       \<and> (\<forall>E \<in> set (GnuSymbols G'). \<not> isUndefined (DynSyms ?D' (GnuBody E)))
       \<and> (distinct (map Symbol (Symbols (DynSymTab dynC)))
            \<longrightarrow> DynsymIndex (DynSyms ?D' (GnuBody (hd (GnuSymbols G')))) = symoffset H)"
    by blast
  let ?G' = "GnuHash_finalizeContents cfgC G1"
  let ?H = "GnuHash_header (DynSymTab ?D') ?G'"
  from r have a: "length (GnuSymbols ?G') = 3" by (simp add: Let_def)
  from r have b: "MaskWords ?G' = 1" by (simp add: Let_def ws np)
  from r have c: "NBuckets ?G' = 3" by (simp add: Let_def gb)
  from r have f1: "1 \<le> getNumSymbols (DynSymTab ?D') - 3"
    and f2: "getNumSymbols (DynSymTab ?D') - 3 - 1 + 3 = length (Symbols (DynSymTab ?D'))"
    and f3: "length (Symbols (DynSymTab ?D')) = length (Symbols (DynSymTab dynC))"
    unfolding Let_def by blast+
  from f1 f2 f3 len have "getNumSymbols (DynSymTab ?D') - 3 = 1" by arith
  with r have so: "symoffset ?H = 1" by (simp add: Let_def)
  from r have "nbuckets ?H = of_nat (NBuckets ?G')" "maskwords ?H = of_nat (MaskWords ?G')"
    by (simp_all add: Let_def)
  with b c so have hd: "?H = \<lparr> nbuckets = 3, symoffset = 1, maskwords = 1 \<rparr>" by simp
  from r d so have i: "DynsymIndex (DynSyms ?D' (GnuBody (hd (GnuSymbols ?G')))) = 1"
    by (simp add: Let_def)
  show ?thesis using h1 h2 h3 h4 ws G1 a b c hd i by blast
qed


subsection \<open>C9: getSymbolIndex of a symbol that is not in the table\<close>

lemma symbolMatches_cases:
  "(symbolMatches Sy B E = Inr True) =
     (Symbol E = B \<or>
      (SymType (Sy B) = STT_SECTION \<and> SymType (Sy (Symbol E)) = STT_SECTION
       \<and> SymKind (Sy B) = DefinedRegularKind \<and> SymHasSection (Sy B)
       \<and> SymKind (Sy (Symbol E)) = DefinedRegularKind \<and> SymHasSection (Sy (Symbol E))
       \<and> SymOutSec (Sy (Symbol E)) = SymOutSec (Sy B)))"
  "(symbolMatches Sy B E = Inr False) =
     (Symbol E \<noteq> B \<and>
      (SymType (Sy B) = STT_SECTION \<and> SymType (Sy (Symbol E)) = STT_SECTION \<longrightarrow>
         SymKind (Sy B) = DefinedRegularKind \<and> SymHasSection (Sy B)
         \<and> SymKind (Sy (Symbol E)) = DefinedRegularKind \<and> SymHasSection (Sy (Symbol E))
         \<and> SymOutSec (Sy (Symbol E)) \<noteq> SymOutSec (Sy B)))"
  "isl (symbolMatches Sy B E) =
     (Symbol E \<noteq> B \<and> SymType (Sy B) = STT_SECTION \<and> SymType (Sy (Symbol E)) = STT_SECTION
      \<and> \<not> (SymKind (Sy B) = DefinedRegularKind \<and> SymHasSection (Sy B)
            \<and> SymKind (Sy (Symbol E)) = DefinedRegularKind \<and> SymHasSection (Sy (Symbol E))))"
  by (auto simp: symbolMatches_def sectionOutSec_def split: sum.splits)

lemma find_if_none:
  "(\<forall>x \<in> set xs. P x = Inr False) \<Longrightarrow> find_if P xs = Inr (length xs)"
  by (induction xs) simp_all

lemma find_if_first:
  "i < length xs \<Longrightarrow> (\<forall>j < i. P (xs ! j) = Inr False) \<Longrightarrow>
     find_if P xs = (case P (xs ! i) of Inl Err \<Rightarrow> Inl Err | Inr True \<Rightarrow> Inr i
                     | Inr False \<Rightarrow> (case find_if P (drop (Suc i) xs) of
                          Inl Err \<Rightarrow> Inl Err | Inr I \<Rightarrow> Inr (Suc i + I)))"
proof (induction xs arbitrary: i)
  case Nil
  then show ?case by simp
next
  case (Cons x xs)
  show ?case
  proof (cases i)
    case 0
    then show ?thesis by (simp split: sum.splits bool.splits)
  next
    case (Suc k)
    with Cons.prems have x: "P x = Inr False" by auto
    have "find_if P xs = (case P (xs ! k) of Inl Err \<Rightarrow> Inl Err | Inr True \<Rightarrow> Inr k
                     | Inr False \<Rightarrow> (case find_if P (drop (Suc k) xs) of
                          Inl Err \<Rightarrow> Inl Err | Inr I \<Rightarrow> Inr (Suc k + I)))"
      using Cons.prems Suc by (intro Cons.IH) auto
    then show ?thesis using Suc x by (simp split: sum.splits bool.splits)
  qed
qed

lemma find_if_hit:
  "P x = Inr True \<Longrightarrow> x \<in> set xs \<Longrightarrow> find_if P xs \<noteq> Inr (length xs)"
proof (induction xs)
  case Nil
  then show ?case by simp
next
  case (Cons y ys)
  have le: "find_if P zs = Inr n \<Longrightarrow> n \<le> length zs" for zs n
    by (induction zs arbitrary: n) (auto split: sum.splits bool.splits)
  show ?case
  proof (cases "x = y")
    case True
    with Cons.prems show ?thesis by simp
  next
    case False
    with Cons have "find_if P ys \<noteq> Inr (length ys)" by simp
    then show ?thesis by (auto split: sum.splits bool.splits)
  qed
qed

lemmas symS_defs = symbolMatches_def sectionOutSec_def symS_def tabS_def
  STT_SECTION_def STT_OBJECT_def

text \<open>
  C9, as stated, fails for a section symbol that is not a defined regular symbol with a
  section. The table holds the section symbols 1 and 2 of the output sections 10 and 11.
  The undefined section symbol 5 and the section symbol 6, defined without a section,
  have no entry and no output section, so no entry maps to the same output section; the
  claim promises 0, but the cast fails for 5 and the null section is dereferenced for 6.
\<close>

theorem C9_counterexample:
  "map Symbol (Symbols tabS) = [1, 2]
   \<and> map (\<lambda>E. SymOutSec (symS (Symbol E))) (Symbols tabS) = [Some 10, Some 11]
   \<and> SymOutSec (symS 5) = None \<and> SymOutSec (symS 6) = None
   \<and> getSymbolIndex symS tabS 5 = Inl CastFailed
   \<and> getSymbolIndex symS tabS 6 = Inl NullSection"
  by (simp add: getSymbolIndex_def symS_defs)

text \<open>
  C9, amended. Comparing the symbol \<open>B\<close> with an entry has three outcomes. The entry matches
  if it holds \<open>B\<close>, or if both are section symbols, both are defined regular symbols with a
  section, and the output sections are the same. The comparison fails if the entry does
  not hold \<open>B\<close>, both are section symbols, and one of them is not a defined regular symbol
  with a section. Otherwise the entry differs. If every entry differs from \<open>B\<close>,
  \<^verbatim>\<open>getSymbolIndex(B)\<close> returns 0, the index of the null entry. If entry \<open>i\<close> (counted from 0)
  is the first one that does not differ, the result is \<open>i + 1\<close> when it matches, so that
  the indices of the symbols present start at 1 in entry order, and the call fails when
  the comparison fails.
\<close>

theorem C9_getSymbolIndex:
  "((\<forall>E \<in> set (Symbols T). Symbol E \<noteq> B \<and>
       (SymType (Sy B) = STT_SECTION \<and> SymType (Sy (Symbol E)) = STT_SECTION \<longrightarrow>
          SymKind (Sy B) = DefinedRegularKind \<and> SymHasSection (Sy B)
          \<and> SymKind (Sy (Symbol E)) = DefinedRegularKind \<and> SymHasSection (Sy (Symbol E))
          \<and> SymOutSec (Sy (Symbol E)) \<noteq> SymOutSec (Sy B)))
     \<longrightarrow> getSymbolIndex Sy T B = Inr 0)
   \<and> (\<forall>i < length (Symbols T).
         (\<forall>j < i. symbolMatches Sy B (Symbols T ! j) = Inr False) \<longrightarrow>
         (symbolMatches Sy B (Symbols T ! i) = Inr True \<longrightarrow> getSymbolIndex Sy T B = Inr (i + 1))
         \<and> (\<forall>Err. symbolMatches Sy B (Symbols T ! i) = Inl Err \<longrightarrow> getSymbolIndex Sy T B = Inl Err))
   \<and> ((\<exists>E \<in> set (Symbols T). Symbol E = B) \<longrightarrow> getSymbolIndex Sy T B \<noteq> Inr 0)
   \<and> (\<forall>E. (symbolMatches Sy B E = Inr True) =
         (Symbol E = B \<or>
          (SymType (Sy B) = STT_SECTION \<and> SymType (Sy (Symbol E)) = STT_SECTION
           \<and> SymKind (Sy B) = DefinedRegularKind \<and> SymHasSection (Sy B)
           \<and> SymKind (Sy (Symbol E)) = DefinedRegularKind \<and> SymHasSection (Sy (Symbol E))
           \<and> SymOutSec (Sy (Symbol E)) = SymOutSec (Sy B))))
   \<and> (\<forall>E. (symbolMatches Sy B E = Inr False) =
         (Symbol E \<noteq> B \<and>
          (SymType (Sy B) = STT_SECTION \<and> SymType (Sy (Symbol E)) = STT_SECTION \<longrightarrow>
             SymKind (Sy B) = DefinedRegularKind \<and> SymHasSection (Sy B)
             \<and> SymKind (Sy (Symbol E)) = DefinedRegularKind \<and> SymHasSection (Sy (Symbol E))
             \<and> SymOutSec (Sy (Symbol E)) \<noteq> SymOutSec (Sy B))))
   \<and> (\<forall>E. isl (symbolMatches Sy B E) =
         (Symbol E \<noteq> B \<and> SymType (Sy B) = STT_SECTION \<and> SymType (Sy (Symbol E)) = STT_SECTION
          \<and> \<not> (SymKind (Sy B) = DefinedRegularKind \<and> SymHasSection (Sy B)
                \<and> SymKind (Sy (Symbol E)) = DefinedRegularKind
                \<and> SymHasSection (Sy (Symbol E)))))"
proof (intro conjI impI allI)
  assume "\<forall>E \<in> set (Symbols T). Symbol E \<noteq> B \<and>
       (SymType (Sy B) = STT_SECTION \<and> SymType (Sy (Symbol E)) = STT_SECTION \<longrightarrow>
          SymKind (Sy B) = DefinedRegularKind \<and> SymHasSection (Sy B)
          \<and> SymKind (Sy (Symbol E)) = DefinedRegularKind \<and> SymHasSection (Sy (Symbol E))
          \<and> SymOutSec (Sy (Symbol E)) \<noteq> SymOutSec (Sy B))"
  then have "\<forall>E \<in> set (Symbols T). symbolMatches Sy B E = Inr False"
    by (simp add: symbolMatches_cases(2))
  then have "find_if (symbolMatches Sy B) (Symbols T) = Inr (length (Symbols T))"
    by (rule find_if_none)
  then show "getSymbolIndex Sy T B = Inr 0" by (simp add: getSymbolIndex_def)
next
  fix i
  assume i: "i < length (Symbols T)"
    and b: "\<forall>j < i. symbolMatches Sy B (Symbols T ! j) = Inr False"
    and m: "symbolMatches Sy B (Symbols T ! i) = Inr True"
  from find_if_first [OF i, of "symbolMatches Sy B"] b m
  have "find_if (symbolMatches Sy B) (Symbols T) = Inr i" by simp
  with i show "getSymbolIndex Sy T B = Inr (i + 1)" by (simp add: getSymbolIndex_def)
next
  fix i Err
  assume i: "i < length (Symbols T)"
    and b: "\<forall>j < i. symbolMatches Sy B (Symbols T ! j) = Inr False"
    and m: "symbolMatches Sy B (Symbols T ! i) = Inl Err"
  from find_if_first [OF i, of "symbolMatches Sy B"] b m
  have "find_if (symbolMatches Sy B) (Symbols T) = Inl Err" by simp
  then show "getSymbolIndex Sy T B = Inl Err" by (simp add: getSymbolIndex_def)
next
  assume "\<exists>E \<in> set (Symbols T). Symbol E = B"
  then obtain E where E: "E \<in> set (Symbols T)" "symbolMatches Sy B E = Inr True"
    by (auto simp: symbolMatches_def)
  then have "find_if (symbolMatches Sy B) (Symbols T) \<noteq> Inr (length (Symbols T))"
    by (intro find_if_hit [of _ E]) auto
  then show "getSymbolIndex Sy T B \<noteq> Inr 0"
    by (auto simp: getSymbolIndex_def split: sum.splits)
qed (rule symbolMatches_cases)+

theorem C9_getSymbolIndex_witness:
  "getSymbolIndex symS tabS 4 = Inr 0
   \<and> getSymbolIndex symS tabS 7 = Inr 0
   \<and> getSymbolIndex symS tabS 2 = Inr 2
   \<and> getSymbolIndex symS tabS 3 = Inr 1
   \<and> getSymbolIndex symC (DynSymTab dynC) 4 = Inr 0
   \<and> getSymbolIndex symC (DynSymTab dynC) 3 = Inr 3"
proof -
  note T = C9_getSymbolIndex [of tabS _ symS]
  note U = C9_getSymbolIndex [of "DynSymTab dynC" _ symC]
  have "getSymbolIndex symS tabS 4 = Inr 0"
    using T [of 4] by (simp add: symS_def tabS_def STT_SECTION_def)
  moreover have "getSymbolIndex symS tabS 7 = Inr 0"
    using T [of 7] by (simp add: symS_def tabS_def STT_SECTION_def STT_OBJECT_def)
  moreover have "getSymbolIndex symS tabS 2 = Inr 2"
    using T [of 2, THEN conjunct2, THEN conjunct1, THEN spec, of 1]
    by (simp add: symS_defs)
  moreover have "getSymbolIndex symS tabS 3 = Inr 1"
    using T [of 3, THEN conjunct2, THEN conjunct1, THEN spec, of 0]
    by (simp add: symS_defs)
  moreover have "getSymbolIndex symC (DynSymTab dynC) 4 = Inr 0"
    using U [of 4] by (simp add: dynC_def symC_def STT_SECTION_def)
  moreover have "getSymbolIndex symC (DynSymTab dynC) 3 = Inr 3"
    using U [of 3, THEN conjunct2, THEN conjunct1, THEN spec, of 2]
    by (simp add: dynC_def symbolMatches_def symC_def STT_SECTION_def less_Suc_eq numeral_2_eq_2)
  ultimately show ?thesis by simp
qed


subsection \<open>C2: the order of the serialized relocations\<close>


lemma insert_sorted_key:
  assumes "\<And>a b. Comp a b \<longleftrightarrow> k a < (k b :: nat)"
  shows "insert_sorted Comp x ys = insort_key k x ys"
  by (induction ys) (auto simp: assms)

lemma stable_sort_key:
  assumes "\<And>a b. Comp a b \<longleftrightarrow> k a < (k b :: nat)"
  shows "stable_sort Comp xs = sort_key k xs"
  by (induction xs) (simp_all add: stable_sort_def sort_key_def insert_sorted_key [OF assms])

lemma compRelocations_key:
  "compRelocations C A B \<longleftrightarrow> relocKey C A < relocKey C B"
proof -
  have "unat (r_sym A) < 2 ^ 32" "unat (r_sym B) < 2 ^ 32"
    using unsigned_less [of "r_sym A", where ?'a = nat] unsigned_less [of "r_sym B", where ?'a = nat]
    by simp_all
  then show ?thesis
    by (auto simp: compRelocations_def relocKey_def Let_def word_less_nat_alt)
qed

lemma Reloc_writeTo_sorted:
  "Sort S \<Longrightarrow> Reloc_writeTo E S = sort_key (relocKey (Config (RLink E))) (map (serializeReloc E) (RelocsOf S))"
  by (simp add: Reloc_writeTo_def Let_def stable_sort_key [OF compRelocations_key])

lemma sorted_key_split:
  "sorted (map k xs) \<Longrightarrow> filter (\<lambda>x. k x < (c::nat)) xs @ filter (\<lambda>x. \<not> k x < c) xs = xs"
proof (induction xs)
  case Nil
  then show ?case by simp
next
  case (Cons x xs)
  show ?case
  proof (cases "k x < c")
    case True
    with Cons show ?thesis by simp
  next
    case False
    with Cons.prems have "\<forall>y \<in> set xs. \<not> k y < c" by auto
    then have "filter (\<lambda>x. k x < c) xs = []" "filter (\<lambda>x. \<not> k x < c) xs = xs" by simp_all
    with False show ?thesis by simp
  qed
qed

lemma sorted_shift:
  "sorted (map k xs) \<Longrightarrow> \<forall>x \<in> set xs. k x = (c::nat) + g x \<Longrightarrow> sorted (map g xs)"
  by (induction xs) auto


lemma relocKey_eq:
  "relocKey C A = (if b then 0 else 2 ^ 32) + unat s
     \<longleftrightarrow> (r_type A = RelativeRel C) = b \<and> r_sym A = s"
proof -
  have "unat (r_sym A) < 2 ^ 32" "unat s < 2 ^ 32"
    using unsigned_less [of "r_sym A", where ?'a = nat] unsigned_less [of s, where ?'a = nat]
    by simp_all
  then show ?thesis by (auto simp: relocKey_def dest: unsigned_word_eqI)
qed

lemma relocKey_group: "(relocKey C A < 2 ^ 32) = (r_type A = RelativeRel C)"
  using unsigned_less [of "r_sym A", where ?'a = nat] by (simp add: relocKey_def)


lemmas relocsR_defs =
  Reloc_writeTo_def relocsR_def addReloc_def newRelocationSection_def
  symReloc_def serializeReloc_def getSymIndex_def getOffset_def envR_def cfgE_def symE_def
  stable_sort_def compRelocations_def Let_def

lemma relocsR_sorted:
  "Reloc_writeTo envR (relocsR True) =
     [\<lparr> r_offset = 0x20008, r_sym = 1, r_type = 51, r_addend = None \<rparr>,
      \<lparr> r_offset = 0x20000, r_sym = 2, r_type = 51, r_addend = None \<rparr>]"
  by (simp add: relocsR_defs)

lemma relocsR_unsorted:
  "Reloc_writeTo envR (relocsR False) =
     [\<lparr> r_offset = 0x20000, r_sym = 2, r_type = 51, r_addend = None \<rparr>,
      \<lparr> r_offset = 0x20008, r_sym = 1, r_type = 51, r_addend = None \<rparr>]"
  "map (serializeReloc envR) (RelocsOf (relocsR b)) =
     [\<lparr> r_offset = 0x20000, r_sym = 2, r_type = 51, r_addend = None \<rparr>,
      \<lparr> r_offset = 0x20008, r_sym = 1, r_type = 51, r_addend = None \<rparr>]"
  by (simp_all add: relocsR_defs)

text \<open>
  C2, as stated, fails on both counts. Two non-\<^verbatim>\<open>RELATIVE\<close> relocations are added, against the
  dynamic symbols 2 and 1 in this order. With \<^verbatim>\<open>sort=true\<close> the non-\<^verbatim>\<open>RELATIVE\<close> group does not
  keep its insertion order: \<^verbatim>\<open>compRelocations\<close> orders it by symbol index. With \<^verbatim>\<open>sort=false\<close>
  the entries are not sorted by symbol index: \<^verbatim>\<open>writeTo\<close> does not sort at all.
\<close>

theorem C2_counterexample:
  "filter (\<lambda>A. r_type A \<noteq> RelativeRel (Config (RLink envR))) (Reloc_writeTo envR (relocsR True))
     \<noteq> filter (\<lambda>A. r_type A \<noteq> RelativeRel (Config (RLink envR)))
          (map (serializeReloc envR) (RelocsOf (relocsR True)))
   \<and> \<not> sorted (map (\<lambda>A. unat (r_sym A)) (Reloc_writeTo envR (relocsR False)))"
  unfolding relocsR_sorted relocsR_unsorted
  by (simp add: envR_def cfgE_def)

text \<open>
  C2, amended: for a relocation table constructed with \<^verbatim>\<open>sort=true\<close>, the entries after
  \<^verbatim>\<open>writeTo\<close> are a permutation of the serialized relocations in which every \<^verbatim>\<open>RELATIVE\<close>
  relocation precedes every non-\<^verbatim>\<open>RELATIVE\<close> one, each of the two groups is in ascending order
  of symbol index, and relocations of the same group and symbol index keep their insertion
  order (the sort is stable). For a table constructed with \<^verbatim>\<open>sort=false\<close>, the entries stay
  in insertion order.
\<close>

theorem C2_reloc_order:
  "(Sort S \<longrightarrow>
      (let In = map (serializeReloc E) (RelocsOf S);
           Out = Reloc_writeTo E S;
           isRel = (\<lambda>A. r_type A = RelativeRel (Config (RLink E)))
       in mset Out = mset In
        \<and> filter isRel Out @ filter (\<lambda>A. \<not> isRel A) Out = Out
        \<and> sorted (map (\<lambda>A. unat (r_sym A)) (filter isRel Out))
        \<and> sorted (map (\<lambda>A. unat (r_sym A)) (filter (\<lambda>A. \<not> isRel A) Out))
        \<and> (\<forall>b s. filter (\<lambda>A. isRel A = b \<and> r_sym A = s) Out
                  = filter (\<lambda>A. isRel A = b \<and> r_sym A = s) In)))
   \<and> (\<not> Sort S \<longrightarrow> Reloc_writeTo E S = map (serializeReloc E) (RelocsOf S))"
proof (intro conjI impI)
  assume "\<not> Sort S"
  then show "Reloc_writeTo E S = map (serializeReloc E) (RelocsOf S)"
    by (simp add: Reloc_writeTo_def)
next
  assume srt: "Sort S"
  define C where "C = Config (RLink E)"
  define In where "In = map (serializeReloc E) (RelocsOf S)"
  define Out where "Out = Reloc_writeTo E S"
  have out: "Out = sort_key (relocKey C) In"
    unfolding Out_def In_def C_def using srt by (rule Reloc_writeTo_sorted)
  have m: "mset Out = mset In" by (simp add: out)
  have so: "sorted (map (relocKey C) Out)" by (simp add: out)
  have "filter (\<lambda>A. relocKey C A < 2 ^ 32) Out @ filter (\<lambda>A. \<not> relocKey C A < 2 ^ 32) Out = Out"
    using so by (rule sorted_key_split)
  then have sp: "filter (\<lambda>A. r_type A = RelativeRel C) Out
       @ filter (\<lambda>A. \<not> r_type A = RelativeRel C) Out = Out"
    by (simp only: relocKey_group)
  have "sorted (map (relocKey C) (filter (\<lambda>A. r_type A = RelativeRel C) Out))"
    using so by (rule sorted_filter)
  then have s1: "sorted (map (\<lambda>A. unat (r_sym A)) (filter (\<lambda>A. r_type A = RelativeRel C) Out))"
    by (rule sorted_shift [where c = 0]) (simp add: relocKey_def)
  have "sorted (map (relocKey C) (filter (\<lambda>A. \<not> r_type A = RelativeRel C) Out))"
    using so by (rule sorted_filter)
  then have s2: "sorted (map (\<lambda>A. unat (r_sym A)) (filter (\<lambda>A. \<not> r_type A = RelativeRel C) Out))"
    by (rule sorted_shift [where c = "2 ^ 32"]) (simp add: relocKey_def)
  have st: "filter (\<lambda>A. (r_type A = RelativeRel C) = b \<and> r_sym A = s) Out
          = filter (\<lambda>A. (r_type A = RelativeRel C) = b \<and> r_sym A = s) In" for b s
    using sort_key_stable [of "relocKey C" "(if b then 0 else 2 ^ 32) + unat s" In]
    by (simp only: relocKey_eq out)
  show "let In = map (serializeReloc E) (RelocsOf S);
           Out = Reloc_writeTo E S;
           isRel = (\<lambda>A. r_type A = RelativeRel (Config (RLink E)))
       in mset Out = mset In
        \<and> filter isRel Out @ filter (\<lambda>A. \<not> isRel A) Out = Out
        \<and> sorted (map (\<lambda>A. unat (r_sym A)) (filter isRel Out))
        \<and> sorted (map (\<lambda>A. unat (r_sym A)) (filter (\<lambda>A. \<not> isRel A) Out))
        \<and> (\<forall>b s. filter (\<lambda>A. isRel A = b \<and> r_sym A = s) Out
                  = filter (\<lambda>A. isRel A = b \<and> r_sym A = s) In)"
    unfolding Let_def using m sp s1 s2 st
    by (simp only: In_def [symmetric] Out_def [symmetric] C_def [symmetric]) blast
qed


theorem C2_reloc_order_witness:
  "Sort (relocsR True)
   \<and> sorted (map (\<lambda>A. unat (r_sym A))
        (filter (\<lambda>A. \<not> r_type A = RelativeRel (Config (RLink envR)))
           (Reloc_writeTo envR (relocsR True))))
   \<and> map r_sym (Reloc_writeTo envR (relocsR True)) = [1, 2]
   \<and> \<not> Sort (relocsR False)
   \<and> Reloc_writeTo envR (relocsR False) = map (serializeReloc envR) (RelocsOf (relocsR False))"
proof -
  have t: "Sort (relocsR True)" and f: "\<not> Sort (relocsR False)"
    by (simp_all add: relocsR_def addReloc_def newRelocationSection_def)
  from C2_reloc_order [of "relocsR True" envR] t
  have "sorted (map (\<lambda>A. unat (r_sym A))
        (filter (\<lambda>A. \<not> r_type A = RelativeRel (Config (RLink envR)))
           (Reloc_writeTo envR (relocsR True))))"
    by (simp add: Let_def)
  moreover from C2_reloc_order [of "relocsR False" envR] f
  have "Reloc_writeTo envR (relocsR False) = map (serializeReloc envR) (RelocsOf (relocsR False))"
    by simp
  moreover have "map r_sym (Reloc_writeTo envR (relocsR True)) = [1, 2]"
    by (simp add: relocsR_sorted)
  ultimately show ?thesis using t f by simp
qed


subsection \<open>C8: a failing entropy source\<close>

text \<open>
  C8, as stated, fails: with a build id of kind uuid and an entropy source that fails,
  \<^verbatim>\<open>writeBuildId\<close> does not abort; it returns, with the error ``entropy source failure''
  recorded in the diagnostics.
\<close>

theorem C8_counterexample:
  "writeBuildId envU [] (secU, [])
     = Inr (secU\<lparr> HashBuf := 0xAA # replicate 15 0 \<rparr>, [(SevError, ''entropy source failure'')])"
  by (simp add: writeBuildId_def envU_def secU_def error_def numeral_eq_Suc)

text \<open>
  C8, amended: if reading random bytes from the entropy source fails while a build id of
  kind uuid is produced, the failure is reported with \<^verbatim>\<open>error\<close>: it is recorded as the
  diagnostic ``entropy source failure'' after the diagnostics recorded before, and
  \<^verbatim>\<open>writeBuildId\<close> returns, so that processing continues. The buffer of the build id holds
  what the failed call has left there; nothing else of the section changes.
\<close>

theorem C8_entropy_failure_recorded:
  assumes "BuildId E = Uuid" and "fst (getRandomBytes E (HashBuf S) (HashSize S))"
  shows "writeBuildId E Buf (S, Sink)
         = Inr (S\<lparr> HashBuf := snd (getRandomBytes E (HashBuf S) (HashSize S)) \<rparr>,
                Sink @ [(SevError, ''entropy source failure'')])"
  using assms by (simp add: writeBuildId_def error_def split_beta)

theorem C8_entropy_failure_recorded_witness:
  "BuildId envU = Uuid \<and> fst (getRandomBytes envU (HashBuf secU) (HashSize secU))
   \<and> writeBuildId envU [1, 2, 3] (secU, [(SevError, ''earlier error'')])
       = Inr (secU\<lparr> HashBuf := snd (getRandomBytes envU (HashBuf secU) (HashSize secU)) \<rparr>,
              [(SevError, ''earlier error''), (SevError, ''entropy source failure'')])"
proof -
  have a: "BuildId envU = Uuid" and b: "fst (getRandomBytes envU (HashBuf secU) (HashSize secU))"
    by (simp_all add: envU_def)
  from C8_entropy_failure_recorded [OF a b, of "[1, 2, 3]" "[(SevError, ''earlier error'')]"] a b
  show ?thesis by simp
qed


subsection \<open>C5: the TLS slots of the MIPS GOT\<close>

lemma registerT_result: "registerT = Inr gotsT"
  by (simp add: registerT_def gotsT_def linkT_def symT_def got_defs Let_def)

lemma buildT_result:
  "Gots (build linkT gotsT) =
     [\<lparr> File = None, StartIndex = 0, PageIndexMap = [], Local16 = [], Local32 = [],
        Global = [], Relocs = [], Tls = [(5, 2), (6, 3)], DynTlsSymbols = [] \<rparr>]"
  by (simp add: gotsT_def linkT_def symT_def got_defs Let_def)

text \<open>
  C5 on the code: in the scenario the slot of the preemptible TLS symbol 5 is slot 2;
  \<^verbatim>\<open>build\<close> creates the dynamic relocation \<^verbatim>\<open>TlsGotRel\<close> against the symbol for it, and \<^verbatim>\<open>writeTo\<close>
  stores the symbol's value 0x10 in the slot, not zero. The slot of the non-preemptible
  symbol 6 holds its value minus 0x7000.
\<close>

theorem C5_preemptible_tls_slot:
  "registerT = Inr gotsT
   \<and> buildRelocs linkT 0 (Gots (build linkT gotsT))
       = [symReloc (TlsGotRel (Config linkT)) 0 16 False (Some 5) 0]
   \<and> MipsGot_writeTo linkT (build linkT gotsT) (\<lambda>_. 0) 2 = 0x10
   \<and> MipsGot_writeTo linkT (build linkT gotsT) (\<lambda>_. 0) 3 = 0x20"
  unfolding MipsGot_writeTo_def buildT_result
  by (simp add: registerT_result buildRelocs_def tlsRelocs_def writeGot_def writePages_def
        writeTlsEntries_def writeDynTlsEntries_def writeUint_def linkT_def symT_def cfgE_def
        Let_def)


subsection \<open>C6: the dynamic relocations of a capability relocation\<close>














subsection \<open>C10: the size of a section that finalizes on demand\<close>

lemma Merge_finalized: "MergeFinalized (Merge_finalizeContents E S)"
  by (simp add: Merge_finalizeContents_def finalizeTailMerge_def finalizeNoTailMerge_def
        Let_def split_beta)

lemma Merge_finalize_once: "MergeFinalized S \<Longrightarrow> Merge_finalizeContents E S = S"
  by (simp add: Merge_finalizeContents_def)

lemma addPieces_append:
  "addPieces Ops B (Ps @ Qs) =
     (fst (addPieces Ops B Ps) @ fst (addPieces Ops (snd (addPieces Ops B Ps)) Qs),
      snd (addPieces Ops (snd (addPieces Ops B Ps)) Qs))"
  by (induction Ps arbitrary: B) (simp_all add: split_beta Let_def)

lemma addAllPieces_concat:
  "concat (fst (addAllPieces Ops B Secs)) = fst (addPieces Ops B (concat Secs))"
  "snd (addAllPieces Ops B Secs) = snd (addPieces Ops B (concat Secs))"
  "map length (fst (addAllPieces Ops B Secs)) = map length Secs"
proof -
  have len: "length (fst (addPieces Ops B' Ps)) = length Ps" for B' Ps
    by (induction Ps arbitrary: B') (simp_all add: split_beta Let_def)
  show "concat (fst (addAllPieces Ops B Secs)) = fst (addPieces Ops B (concat Secs))"
    and "snd (addAllPieces Ops B Secs) = snd (addPieces Ops B (concat Secs))"
    by (induction Secs arbitrary: B) (simp_all add: split_beta Let_def addPieces_append)
  show "map length (fst (addAllPieces Ops B Secs)) = map length Secs"
    by (induction Secs arbitrary: B) (simp_all add: split_beta Let_def len)
qed

lemma addPieces_builder:
  "snd (addPieces Ops B Ps)
     = foldl (\<lambda>B D. snd (sbAdd Ops D B)) B (map PieceData (filter Live Ps))"
  by (induction Ps arbitrary: B) (simp_all add: split_beta Let_def)

lemma addPieces_kept:
  "map PieceData (fst (addPieces Ops B Ps)) = map PieceData Ps"
  "map Live (fst (addPieces Ops B Ps)) = map Live Ps"
  "filter (\<lambda>P. \<not> Live P) (fst (addPieces Ops B Ps)) = filter (\<lambda>P. \<not> Live P) Ps"
  by (induction Ps arbitrary: B) (simp_all add: split_beta Let_def)

lemma addPieces_offsets:
  "i < length (filter Live Ps) \<Longrightarrow>
   OutputOff (filter Live (fst (addPieces Ops B Ps)) ! i)
     = fst (sbAdd Ops (PieceData (filter Live Ps ! i))
          (foldl (\<lambda>B D. snd (sbAdd Ops D B)) B (take i (map PieceData (filter Live Ps)))))"
proof (induction Ps arbitrary: B i)
  case Nil
  then show ?case by simp
next
  case (Cons P Ps)
  show ?case
  proof (cases "Live P")
    case False
    with Cons show ?thesis by (simp add: split_beta Let_def)
  next
    case True
    show ?thesis
    proof (cases i)
      case 0
      with True show ?thesis by (simp add: split_beta Let_def)
    next
      case (Suc k)
      with Cons.prems True have "k < length (filter Live Ps)" by simp
      from Cons.IH [OF this, of "snd (sbAdd Ops (PieceData P) B)"] True Suc
      show ?thesis by (simp add: split_beta Let_def)
    qed
  qed
qed

lemma foldl_pieces:
  "foldl (\<lambda>B Sec. foldl (\<lambda>B' P. if Live P then snd (sbAdd Ops (PieceData P) B') else B') B Sec)
     B0 Secs
   = foldl (\<lambda>B D. snd (sbAdd Ops D B)) B0 (map PieceData (filter Live (concat Secs)))"
proof -
  have one: "foldl (\<lambda>B' P. if Live P then snd (sbAdd Ops (PieceData P) B') else B') B Sec
      = foldl (\<lambda>B D. snd (sbAdd Ops D B)) B (map PieceData (filter Live Sec))" for B Sec
    by (induction Sec arbitrary: B) simp_all
  show ?thesis
    by (induction Secs arbitrary: B0) (simp_all add: one)
qed

lemma Merge_contents:
  fixes E :: "'b MergeEnv" and S :: "'b MergeSyntheticSection"
  assumes "\<not> MergeFinalized S"
  shows "Builder (Merge_finalizeContents E S)
         = (if shouldTailMerge E S
            then sbFinalize (BuilderOps E)
              (foldl (\<lambda>B D. snd (sbAdd (BuilderOps E) D B)) (Builder S)
                 (map PieceData (filter Live (concat (MergeSections S)))))
            else sbFinalizeInOrder (BuilderOps E)
              (foldl (\<lambda>B D. snd (sbAdd (BuilderOps E) D B)) (Builder S)
                 (map PieceData (filter Live (concat (MergeSections S))))))"
    and "map length (MergeSections (Merge_finalizeContents E S)) = map length (MergeSections S)"
    and "map PieceData (concat (MergeSections (Merge_finalizeContents E S)))
           = map PieceData (concat (MergeSections S))"
    and "map Live (concat (MergeSections (Merge_finalizeContents E S)))
           = map Live (concat (MergeSections S))"
    and "filter (\<lambda>P. \<not> Live P) (concat (MergeSections (Merge_finalizeContents E S)))
           = filter (\<lambda>P. \<not> Live P) (concat (MergeSections S))"
    and "shouldTailMerge E S \<Longrightarrow> P \<in> set (concat (MergeSections (Merge_finalizeContents E S)))
         \<Longrightarrow> Live P
         \<Longrightarrow> OutputOff P = sbGetOffset (BuilderOps E) (Builder (Merge_finalizeContents E S))
                                (PieceData P)"
    and "\<not> shouldTailMerge E S
         \<Longrightarrow> i < length (filter Live (concat (MergeSections S)))
         \<Longrightarrow> OutputOff (filter Live (concat (MergeSections (Merge_finalizeContents E S))) ! i)
             = fst (sbAdd (BuilderOps E) (PieceData (filter Live (concat (MergeSections S)) ! i))
                 (foldl (\<lambda>B D. snd (sbAdd (BuilderOps E) D B)) (Builder S)
                    (take i (map PieceData (filter Live (concat (MergeSections S)))))))"
proof -
  let ?S1 = "S\<lparr> MergeFinalized := True \<rparr>"
  let ?F = "Merge_finalizeContents E S"
  let ?B1 = "foldl (\<lambda>B D. snd (sbAdd (BuilderOps E) D B)) (Builder S)
               (map PieceData (filter Live (concat (MergeSections S))))"
  have t: "shouldTailMerge E ?S1 = shouldTailMerge E S" by (simp add: shouldTailMerge_def)
  have F: "?F = (if shouldTailMerge E S then finalizeTailMerge E ?S1 else finalizeNoTailMerge E ?S1)"
    using assms(1) by (simp add: Merge_finalizeContents_def Let_def t)
  let ?g = "\<lambda>P. if Live P
     then P\<lparr> OutputOff := sbGetOffset (BuilderOps E) (sbFinalize (BuilderOps E) ?B1) (PieceData P) \<rparr>
     else P"
  have tm0: "MergeSections (finalizeTailMerge E ?S1) = map (map ?g) (MergeSections S)"
    by (simp add: finalizeTailMerge_def Let_def foldl_pieces)
  have tm: "concat (MergeSections (finalizeTailMerge E ?S1)) = map ?g (concat (MergeSections S))"
    "Builder (finalizeTailMerge E ?S1) = sbFinalize (BuilderOps E) ?B1"
    "map length (MergeSections (finalizeTailMerge E ?S1)) = map length (MergeSections S)"
    unfolding tm0 by (simp_all add: finalizeTailMerge_def Let_def foldl_pieces map_concat comp_def)
  have nt: "concat (MergeSections (finalizeNoTailMerge E ?S1))
              = fst (addPieces (BuilderOps E) (Builder S) (concat (MergeSections S)))"
    "Builder (finalizeNoTailMerge E ?S1) = sbFinalizeInOrder (BuilderOps E) ?B1"
    "map length (MergeSections (finalizeNoTailMerge E ?S1)) = map length (MergeSections S)"
    by (simp_all add: finalizeNoTailMerge_def Let_def split_beta addAllPieces_concat
          addPieces_builder)
  show "Builder ?F = (if shouldTailMerge E S then sbFinalize (BuilderOps E) ?B1
                      else sbFinalizeInOrder (BuilderOps E) ?B1)"
    by (simp add: F tm nt)
  show "map length (MergeSections ?F) = map length (MergeSections S)"
    by (simp add: F tm nt)
  show "map PieceData (concat (MergeSections ?F)) = map PieceData (concat (MergeSections S))"
    by (simp add: F tm nt addPieces_kept comp_def)
  show "map Live (concat (MergeSections ?F)) = map Live (concat (MergeSections S))"
    by (simp add: F tm nt addPieces_kept comp_def)
  show "filter (\<lambda>P. \<not> Live P) (concat (MergeSections ?F))
           = filter (\<lambda>P. \<not> Live P) (concat (MergeSections S))"
  proof -
    have nl: "filter (\<lambda>P. \<not> Live P) (map ?g xs) = filter (\<lambda>P. \<not> Live P) xs" for xs
      by (induction xs) simp_all
    show ?thesis by (simp add: F tm nt addPieces_kept nl)
  qed
  show "OutputOff P = sbGetOffset (BuilderOps E) (Builder ?F) (PieceData P)"
    if "shouldTailMerge E S" "P \<in> set (concat (MergeSections ?F))" "Live P"
    using that unfolding F by (auto simp: tm split: if_splits)
  show "OutputOff (filter Live (concat (MergeSections ?F)) ! i)
             = fst (sbAdd (BuilderOps E) (PieceData (filter Live (concat (MergeSections S)) ! i))
                 (foldl (\<lambda>B D. snd (sbAdd (BuilderOps E) D B)) (Builder S)
                    (take i (map PieceData (filter Live (concat (MergeSections S)))))))"
    if "\<not> shouldTailMerge E S" "i < length (filter Live (concat (MergeSections S)))"
    using that addPieces_offsets [of i "concat (MergeSections S)" "BuilderOps E" "Builder S"]
    by (simp add: F nt)
qed

lemma addName_fields:
  "GdbFinalized (addName E CuId St NT) = GdbFinalized St"
  "CompilationUnits (addName E CuId St NT) = CompilationUnits St"
  "AddressArea (addName E CuId St NT) = AddressArea St"
  "CuVectorsSize (addName E CuId St NT) = CuVectorsSize St"
  "CuVectorsOffset (addName E CuId St NT) = CuVectorsOffset St"
  "GdbDiags (addName E CuId St NT) = GdbDiags St"
  "StringPool (addName E CuId St NT) = snd (sbAdd (PoolOps E) (map of_char (fst NT)) (StringPool St))"
  by (simp_all add: addName_def Let_def split_beta split: option.splits)

lemma addNames_fields:
  "GdbFinalized (foldl (addName E CuId) St Ps) = GdbFinalized St"
  "CompilationUnits (foldl (addName E CuId) St Ps) = CompilationUnits St"
  "AddressArea (foldl (addName E CuId) St Ps) = AddressArea St"
  "CuVectorsSize (foldl (addName E CuId) St Ps) = CuVectorsSize St"
  "CuVectorsOffset (foldl (addName E CuId) St Ps) = CuVectorsOffset St"
  "GdbDiags (foldl (addName E CuId) St Ps) = GdbDiags St"
  "StringPool (foldl (addName E CuId) St Ps)
     = foldl (\<lambda>B N. snd (sbAdd (PoolOps E) (map of_char N) B)) (StringPool St) (map fst Ps)"
  by (induction Ps arbitrary: St) (simp_all add: addName_fields)

lemma length_readAddressArea:
  "length (readAddressArea Dwarf CurrentCU) = sum_list (map length (CuRanges Dwarf))"
proof -
  have "map (\<lambda>x. length (case x of (i, Ranges) \<Rightarrow>
              map (\<lambda>(Sec, Lo, Hi). (Sec, Lo, Hi, CurrentCU + i)) Ranges)) (zip [0..<length xs] xs)
        = map length xs" for xs :: "(InputSecPtr \<times> u64 \<times> u64) list list"
  proof -
    have "map (\<lambda>x. length (case x of (i, Ranges) \<Rightarrow>
              map (\<lambda>(Sec, Lo, Hi). (Sec, Lo, Hi, CurrentCU + i)) Ranges)) (zip [0..<length xs] xs)
          = map (length \<circ> snd) (zip [0..<length xs] xs)"
      by (simp add: split_beta comp_def)
    also have "\<dots> = map length (map snd (zip [0..<length xs] xs))" by (simp only: map_map)
    also have "\<dots> = map length xs" by (simp only: map_snd_zip length_upt diff_zero)
    finally show ?thesis .
  qed
  then show ?thesis by (simp add: readAddressArea_def length_concat comp_def)
qed

lemma readDwarf_fields:
  "GdbFinalized (readDwarf E Sec St) = GdbFinalized St"
  "CuVectorsSize (readDwarf E Sec St) = CuVectorsSize St"
  "CuVectorsOffset (readDwarf E Sec St) = CuVectorsOffset St"
  "CompilationUnits (readDwarf E Sec St)
     = CompilationUnits St @ (case GDwarf Sec of None \<Rightarrow> [] | Some D \<Rightarrow> CuList D)"
  "length (AddressArea (readDwarf E Sec St))
     = length (AddressArea St)
       + (case GDwarf Sec of None \<Rightarrow> 0 | Some D \<Rightarrow> sum_list (map length (CuRanges D)))"
  "StringPool (readDwarf E Sec St)
     = foldl (\<lambda>B N. snd (sbAdd (PoolOps E) (map of_char N) B)) (StringPool St)
         (case GDwarf Sec of None \<Rightarrow> [] | Some D \<Rightarrow> map fst (NamesAndTypes D))"
  "GdbDiags (readDwarf E Sec St)
     = GdbDiags St @ (case GDwarf Sec of None \<Rightarrow> [(SevError, ''error creating DWARF context'')]
                      | Some D \<Rightarrow> [])"
  by (simp_all add: readDwarf_def Let_def addNames_fields length_readAddressArea error_def
        split: option.splits)

lemma readAll_fields:
  fixes E :: "'b GdbEnv"
  defines "step \<equiv> (\<lambda>St Sec. if GIsInputSection Sec \<and> GHasOutSec Sec \<and> GName Sec = ''.debug_info''
                              then readDwarf E Sec St else St)"
  defines "dbg \<equiv> (\<lambda>Secs. filter (\<lambda>Sec. GIsInputSection Sec \<and> GHasOutSec Sec
                                       \<and> GName Sec = ''.debug_info'') Secs)"
  shows "GdbFinalized (foldl step St Secs) = GdbFinalized St"
    and "CuVectorsSize (foldl step St Secs) = CuVectorsSize St"
    and "CuVectorsOffset (foldl step St Secs) = CuVectorsOffset St"
    and "CompilationUnits (foldl step St Secs)
         = CompilationUnits St
           @ concat (map (\<lambda>Sec. case GDwarf Sec of None \<Rightarrow> [] | Some D \<Rightarrow> CuList D) (dbg Secs))"
    and "length (AddressArea (foldl step St Secs))
         = length (AddressArea St)
           + sum_list (map (\<lambda>Sec. case GDwarf Sec of None \<Rightarrow> 0
                                   | Some D \<Rightarrow> sum_list (map length (CuRanges D))) (dbg Secs))"
    and "StringPool (foldl step St Secs)
         = foldl (\<lambda>B N. snd (sbAdd (PoolOps E) (map of_char N) B)) (StringPool St)
             (concat (map (\<lambda>Sec. case GDwarf Sec of None \<Rightarrow> []
                                  | Some D \<Rightarrow> map fst (NamesAndTypes D)) (dbg Secs)))"
    and "GdbDiags (foldl step St Secs)
         = GdbDiags St
           @ concat (map (\<lambda>Sec. case GDwarf Sec of
                              None \<Rightarrow> [(SevError, ''error creating DWARF context'')]
                            | Some D \<Rightarrow> []) (dbg Secs))"
  unfolding step_def dbg_def
  by (induction Secs arbitrary: St) (simp_all add: readDwarf_fields)

lemma cuVectorOffsets_size:
  "snd (cuVectorOffsets n Vs Offs Sz) = Sz + n * sum_list (map (\<lambda>V. length V + 1) Vs)"
  by (induction Vs arbitrary: Offs Sz) (simp_all add: add_mult_distrib2)

lemma Gdb_finalized: "GdbFinalized (Gdb_finalizeContents E S)"
  by (simp add: Gdb_finalizeContents_def Let_def split_beta readAll_fields)

lemma Gdb_finalize_once: "GdbFinalized S \<Longrightarrow> Gdb_finalizeContents E S = S"
  by (simp add: Gdb_finalizeContents_def)

lemma addName_vectors:
  "length (CuVectors (addName E CuId St NT)) + length (SymbolTable St)
     = length (CuVectors St) + length (SymbolTable (addName E CuId St NT))"
  by (simp add: addName_def Let_def split_beta split: option.splits)

lemma addNames_vectors:
  "length (CuVectors (foldl (addName E CuId) St Ps)) + length (SymbolTable St)
     = length (CuVectors St) + length (SymbolTable (foldl (addName E CuId) St Ps))"
proof (induction Ps arbitrary: St)
  case Nil
  show ?case by simp
next
  case (Cons P Ps)
  from Cons [of "addName E CuId St P"] addName_vectors [of E CuId St P]
  show ?case by simp
qed

lemma readDwarf_vectors:
  "length (CuVectors (readDwarf E Sec St)) + length (SymbolTable St)
     = length (CuVectors St) + length (SymbolTable (readDwarf E Sec St))"
proof (cases "GDwarf Sec")
  case None
  then show ?thesis by (simp add: readDwarf_def)
next
  case (Some D)
  from addNames_vectors [of E "length (CompilationUnits St)"
      "St\<lparr> CompilationUnits := CompilationUnits St @ CuList D,
           AddressArea := AddressArea St @ readAddressArea D (length (CompilationUnits St)) \<rparr>"
      "NamesAndTypes D"] Some
  show ?thesis by (simp add: readDwarf_def Let_def)
qed

lemma readAll_vectors:
  "length (CuVectors (foldl (\<lambda>St Sec. if P Sec then readDwarf E Sec St else St) St Secs))
     + length (SymbolTable St)
   = length (CuVectors St)
     + length (SymbolTable (foldl (\<lambda>St Sec. if P Sec then readDwarf E Sec St else St) St Secs))"
proof (induction Secs arbitrary: St)
  case Nil
  show ?case by simp
next
  case (Cons Sec Secs)
  from Cons [of "if P Sec then readDwarf E Sec St else St"] readDwarf_vectors [of E Sec St]
  show ?case by (cases "P Sec") simp_all
qed

lemma Gdb_vectors:
  "length (CuVectors (Gdb_finalizeContents G T)) + length (SymbolTable T)
     = length (CuVectors T) + length (SymbolTable (Gdb_finalizeContents G T))"
proof (cases "GdbFinalized T")
  case True
  then show ?thesis by (simp add: Gdb_finalizeContents_def)
next
  case False
  from readAll_vectors [of "\<lambda>Sec. GIsInputSection Sec \<and> GHasOutSec Sec \<and> GName Sec = ''.debug_info''"
      G "T\<lparr> GdbFinalized := True \<rparr>" "InputSections G"] False
  show ?thesis by (simp add: Gdb_finalizeContents_def Let_def split_beta)
qed

lemma Gdb_contents:
  fixes G :: "'b GdbEnv" and T :: "'b GdbIndexSection"
  assumes "\<not> GdbFinalized T"
  shows "CompilationUnits (Gdb_finalizeContents G T)
         = CompilationUnits T
           @ concat (map (\<lambda>Sec. case GDwarf Sec of None \<Rightarrow> [] | Some D \<Rightarrow> CuList D)
               (filter (\<lambda>Sec. GIsInputSection Sec \<and> GHasOutSec Sec \<and> GName Sec = ''.debug_info'')
                  (InputSections G)))"
    and "length (AddressArea (Gdb_finalizeContents G T))
         = length (AddressArea T)
           + sum_list (map (\<lambda>Sec. case GDwarf Sec of None \<Rightarrow> 0
                                   | Some D \<Rightarrow> sum_list (map length (CuRanges D)))
               (filter (\<lambda>Sec. GIsInputSection Sec \<and> GHasOutSec Sec \<and> GName Sec = ''.debug_info'')
                  (InputSections G)))"
    and "StringPool (Gdb_finalizeContents G T)
         = sbFinalizeInOrder (PoolOps G)
             (foldl (\<lambda>B N. snd (sbAdd (PoolOps G) (map of_char N) B)) (StringPool T)
                (concat (map (\<lambda>Sec. case GDwarf Sec of None \<Rightarrow> []
                                     | Some D \<Rightarrow> map fst (NamesAndTypes D))
                   (filter (\<lambda>Sec. GIsInputSection Sec \<and> GHasOutSec Sec
                                  \<and> GName Sec = ''.debug_info'') (InputSections G)))))"
    and "StringPoolOffset (Gdb_finalizeContents G T)
         = CuListOffset G
           + length (CompilationUnits (Gdb_finalizeContents G T)) * CompilationUnitSize G
           + length (AddressArea (Gdb_finalizeContents G T)) * AddressEntrySize G
           + capacityFor G (length (SymbolTable (Gdb_finalizeContents G T))) * SymTabEntrySize G
           + (CuVectorsSize T
              + OffsetTypeSize G
                * sum_list (map (\<lambda>V. length V + 1) (CuVectors (Gdb_finalizeContents G T))))"
  using assms
  by (simp_all add: Gdb_finalizeContents_def Let_def split_beta readAll_fields
        cuVectorOffsets_size)

text \<open>
  C10: for a mergeable string section and for the \<^verbatim>\<open>.gdb_index\<close> section, \<^verbatim>\<open>getSize()\<close> runs
  \<^verbatim>\<open>finalizeContents()\<close> and reports the size of the finalized contents. \<^verbatim>\<open>finalizeContents()\<close>
  sets the \<^verbatim>\<open>Finalized\<close> flag and does nothing on a section whose flag is set, so it runs at
  most once, and the size reported is the same before and after the section has been
  finalized, by the finalize pass or by an earlier call of \<^verbatim>\<open>getSize()\<close>.
  On a mergeable section that is not finalized, the size reported is the size of the
  builder after the data of every live piece has been added to it, in the order of the
  sections and of their pieces, and the builder has been finalized, with tail merging or
  in order. The pieces keep their data, their liveness and their number in each section,
  and a piece that is not live keeps its offset; with tail merging a live piece gets the
  offset that the finalized builder gives for its data, and without it the offset that
  the builder returned when the piece was added.
  On a \<^verbatim>\<open>.gdb_index\<close> section that is not finalized, the size reported is the sum of the
  header, the list of compile units, the address area, the symbol table at its capacity,
  the CU vectors and the string pool, all of them of the finalized section. Its compile
  units are those it had, followed by the lists of the \<^verbatim>\<open>.debug_info\<close> input sections that have
  an output section, in their order; its address area has grown by their address ranges,
  and its string pool is the pool with their names added in order, finalized in order;
  it has as many new CU vectors as new symbols.
\<close>

theorem C10_size_finalizes_on_demand:
  fixes E :: "'a MergeEnv" and S :: "'a MergeSyntheticSection"
    and G :: "'b GdbEnv" and T :: "'b GdbIndexSection"
  shows
  "Merge_getSize E S
     = (sbGetSize (BuilderOps E) (Builder (Merge_finalizeContents E S)), Merge_finalizeContents E S)
   \<and> MergeFinalized (Merge_finalizeContents E S)
   \<and> (MergeFinalized S \<longrightarrow> Merge_finalizeContents E S = S)
   \<and> (\<not> MergeFinalized S \<longrightarrow>
        Builder (Merge_finalizeContents E S)
          = (if shouldTailMerge E S then sbFinalize (BuilderOps E)
             else sbFinalizeInOrder (BuilderOps E))
              (foldl (\<lambda>B D. snd (sbAdd (BuilderOps E) D B)) (Builder S)
                 (map PieceData (filter Live (concat (MergeSections S)))))
        \<and> fst (Merge_getSize E S)
          = sbGetSize (BuilderOps E)
              ((if shouldTailMerge E S then sbFinalize (BuilderOps E)
                else sbFinalizeInOrder (BuilderOps E))
                 (foldl (\<lambda>B D. snd (sbAdd (BuilderOps E) D B)) (Builder S)
                    (map PieceData (filter Live (concat (MergeSections S))))))
        \<and> map length (MergeSections (Merge_finalizeContents E S)) = map length (MergeSections S)
        \<and> map PieceData (concat (MergeSections (Merge_finalizeContents E S)))
            = map PieceData (concat (MergeSections S))
        \<and> map Live (concat (MergeSections (Merge_finalizeContents E S)))
            = map Live (concat (MergeSections S))
        \<and> filter (\<lambda>P. \<not> Live P) (concat (MergeSections (Merge_finalizeContents E S)))
            = filter (\<lambda>P. \<not> Live P) (concat (MergeSections S))
        \<and> (shouldTailMerge E S \<longrightarrow>
             (\<forall>P \<in> set (concat (MergeSections (Merge_finalizeContents E S))). Live P \<longrightarrow>
                OutputOff P = sbGetOffset (BuilderOps E) (Builder (Merge_finalizeContents E S))
                                (PieceData P)))
        \<and> (\<not> shouldTailMerge E S \<longrightarrow>
             (\<forall>i < length (filter Live (concat (MergeSections S))).
                OutputOff (filter Live (concat (MergeSections (Merge_finalizeContents E S))) ! i)
                  = fst (sbAdd (BuilderOps E)
                      (PieceData (filter Live (concat (MergeSections S)) ! i))
                      (foldl (\<lambda>B D. snd (sbAdd (BuilderOps E) D B)) (Builder S)
                         (take i (map PieceData (filter Live (concat (MergeSections S))))))))))
   \<and> Merge_finalizeContents E (Merge_finalizeContents E S) = Merge_finalizeContents E S
   \<and> Merge_getSize E (Merge_finalizeContents E S) = Merge_getSize E S
   \<and> Merge_getSize E (snd (Merge_getSize E S)) = Merge_getSize E S
   \<and> Gdb_getSize G T
     = (StringPoolOffset (Gdb_finalizeContents G T)
          + sbGetSize (PoolOps G) (StringPool (Gdb_finalizeContents G T)), Gdb_finalizeContents G T)
   \<and> GdbFinalized (Gdb_finalizeContents G T)
   \<and> (GdbFinalized T \<longrightarrow> Gdb_finalizeContents G T = T)
   \<and> (\<not> GdbFinalized T \<longrightarrow>
        fst (Gdb_getSize G T)
          = CuListOffset G
            + length (CompilationUnits (Gdb_finalizeContents G T)) * CompilationUnitSize G
            + length (AddressArea (Gdb_finalizeContents G T)) * AddressEntrySize G
            + capacityFor G (length (SymbolTable (Gdb_finalizeContents G T))) * SymTabEntrySize G
            + (CuVectorsSize T
               + OffsetTypeSize G
                 * sum_list (map (\<lambda>V. length V + 1) (CuVectors (Gdb_finalizeContents G T))))
            + sbGetSize (PoolOps G) (StringPool (Gdb_finalizeContents G T))
        \<and> CompilationUnits (Gdb_finalizeContents G T)
            = CompilationUnits T
              @ concat (map (\<lambda>Sec. case GDwarf Sec of None \<Rightarrow> [] | Some D \<Rightarrow> CuList D)
                  (filter (\<lambda>Sec. GIsInputSection Sec \<and> GHasOutSec Sec
                                 \<and> GName Sec = ''.debug_info'') (InputSections G)))
        \<and> length (AddressArea (Gdb_finalizeContents G T))
            = length (AddressArea T)
              + sum_list (map (\<lambda>Sec. case GDwarf Sec of None \<Rightarrow> 0
                                      | Some D \<Rightarrow> sum_list (map length (CuRanges D)))
                  (filter (\<lambda>Sec. GIsInputSection Sec \<and> GHasOutSec Sec
                                 \<and> GName Sec = ''.debug_info'') (InputSections G)))
        \<and> StringPool (Gdb_finalizeContents G T)
            = sbFinalizeInOrder (PoolOps G)
                (foldl (\<lambda>B N. snd (sbAdd (PoolOps G) (map of_char N) B)) (StringPool T)
                   (concat (map (\<lambda>Sec. case GDwarf Sec of None \<Rightarrow> []
                                        | Some D \<Rightarrow> map fst (NamesAndTypes D))
                      (filter (\<lambda>Sec. GIsInputSection Sec \<and> GHasOutSec Sec
                                     \<and> GName Sec = ''.debug_info'') (InputSections G))))))
   \<and> length (CuVectors (Gdb_finalizeContents G T)) + length (SymbolTable T)
       = length (CuVectors T) + length (SymbolTable (Gdb_finalizeContents G T))
   \<and> Gdb_finalizeContents G (Gdb_finalizeContents G T) = Gdb_finalizeContents G T
   \<and> Gdb_getSize G (Gdb_finalizeContents G T) = Gdb_getSize G T
   \<and> Gdb_getSize G (snd (Gdb_getSize G T)) = Gdb_getSize G T"
proof -
  have m: "Merge_finalizeContents E (Merge_finalizeContents E S) = Merge_finalizeContents E S"
    by (rule Merge_finalize_once) (rule Merge_finalized)
  have g: "Gdb_finalizeContents G (Gdb_finalizeContents G T) = Gdb_finalizeContents G T"
    by (rule Gdb_finalize_once) (rule Gdb_finalized)
  have m1: "Merge_getSize E S
     = (sbGetSize (BuilderOps E) (Builder (Merge_finalizeContents E S)), Merge_finalizeContents E S)"
    by (simp add: Merge_getSize_def Let_def)
  have g1: "Gdb_getSize G T
     = (StringPoolOffset (Gdb_finalizeContents G T)
          + sbGetSize (PoolOps G) (StringPool (Gdb_finalizeContents G T)), Gdb_finalizeContents G T)"
    by (simp add: Gdb_getSize_def Let_def)
  have m2: "Merge_getSize E (snd (Merge_getSize E S)) = Merge_getSize E S"
    by (simp add: Merge_getSize_def Let_def m)
  have g2: "Gdb_getSize G (snd (Gdb_getSize G T)) = Gdb_getSize G T"
    by (simp add: Gdb_getSize_def Let_def g)
  have m3: "Merge_getSize E (Merge_finalizeContents E S) = Merge_getSize E S"
    by (simp add: Merge_getSize_def Let_def m)
  have g3: "Gdb_getSize G (Gdb_finalizeContents G T) = Gdb_getSize G T"
    by (simp add: Gdb_getSize_def Let_def g)
  have mb: "Builder (Merge_finalizeContents E S)
          = (if shouldTailMerge E S then sbFinalize (BuilderOps E)
             else sbFinalizeInOrder (BuilderOps E))
              (foldl (\<lambda>B D. snd (sbAdd (BuilderOps E) D B)) (Builder S)
                 (map PieceData (filter Live (concat (MergeSections S)))))"
    if "\<not> MergeFinalized S"
    by (simp add: Merge_contents(1) [OF that])
  have mc: "fst (Merge_getSize E S)
          = sbGetSize (BuilderOps E)
              ((if shouldTailMerge E S then sbFinalize (BuilderOps E)
                else sbFinalizeInOrder (BuilderOps E))
                 (foldl (\<lambda>B D. snd (sbAdd (BuilderOps E) D B)) (Builder S)
                    (map PieceData (filter Live (concat (MergeSections S))))))"
    if "\<not> MergeFinalized S"
    by (simp add: m1 Merge_contents(1) [OF that])
  have gc: "fst (Gdb_getSize G T)
          = CuListOffset G
            + length (CompilationUnits (Gdb_finalizeContents G T)) * CompilationUnitSize G
            + length (AddressArea (Gdb_finalizeContents G T)) * AddressEntrySize G
            + capacityFor G (length (SymbolTable (Gdb_finalizeContents G T))) * SymTabEntrySize G
            + (CuVectorsSize T
               + OffsetTypeSize G
                 * sum_list (map (\<lambda>V. length V + 1) (CuVectors (Gdb_finalizeContents G T))))
            + sbGetSize (PoolOps G) (StringPool (Gdb_finalizeContents G T))"
    if "\<not> GdbFinalized T"
    by (simp only: g1 fst_conv Gdb_contents(4) [OF that])
  show ?thesis
    apply (intro conjI impI ballI allI)
    apply (rule m1)
    apply (rule Merge_finalized)
    apply (erule Merge_finalize_once)
    apply (erule mb)
    apply (erule mc)
    apply (erule Merge_contents(2))
    apply (erule Merge_contents(3))
    apply (erule Merge_contents(4))
    apply (erule Merge_contents(5))
    apply (rule Merge_contents(6); assumption)
    apply (rule Merge_contents(7); assumption)
    apply (rule m)
    apply (rule m3)
    apply (rule m2)
    apply (rule g1)
    apply (rule Gdb_finalized)
    apply (erule Gdb_finalize_once)
    apply (erule gc)
    apply (erule Gdb_contents(1))
    apply (erule Gdb_contents(2))
    apply (erule Gdb_contents(3))
    apply (rule Gdb_vectors)
    apply (rule g)
    apply (rule g3)
    apply (rule g2)
    done
qed


text \<open>
  The scenario: two mergeable sections with three live pieces, two of them equal, and one
  piece that is not live; one \<^verbatim>\<open>.debug_info\<close> section with one compile unit, one address range
  and the name main.
\<close>

lemma mergeM_final:
  "Merge_finalizeContents mergeEnvM mergeM =
     \<lparr> MergeSections = [[\<lparr> PieceData = [97, 98, 0], Live = True, OutputOff = 0 \<rparr>,
                         \<lparr> PieceData = [99, 0], Live = True, OutputOff = 3 \<rparr>,
                         \<lparr> PieceData = [100, 0], Live = False, OutputOff = 0 \<rparr>],
                        [\<lparr> PieceData = [97, 98, 0], Live = True, OutputOff = 0 \<rparr>]],
       Builder = ([([97, 98, 0], 0), ([99, 0], 3)], 5), MergeFinalized = True,
       MergeFlags = 0x30 \<rparr>"
  by (simp add: Merge_finalizeContents_def finalizeNoTailMerge_def shouldTailMerge_def
        mergeEnvM_def mergeM_def builderOps_def newBuilder_def Let_def)

lemma hash_main: "hash ''main'' = 4293691881"
  by (simp add: hash_def tolower_def)

lemma gdbG_final:
  "Gdb_finalizeContents gdbEnvG gdbG =
     \<lparr> GdbFinalized = True, CompilationUnits = [(0, 0x40)], AddressArea = [(30, 0, 0x20, 0)],
       SymbolTable = [(1, 4293691881, 0)], SymTabCapacity = 1024, CuVectors = [[0x30000000]],
       CuVectorsOffset = [0], CuVectorsSize = 8, CuTypesOffset = 40, SymTabOffset = 60,
       ConstantPoolOffset = 8252, StringPoolOffset = 8260,
       StringPool = ([(map of_char ''main'', 1)], 6), GdbDiags = [] \<rparr>"
  by (simp add: Gdb_finalizeContents_def readDwarf_def readAddressArea_def addName_def
        GdbHashTab_lookup_def gdbEnvG_def gdbG_def builderOps_def newBuilder_def hash_main Let_def)

theorem C10_size_finalizes_on_demand_witness:
  "\<not> MergeFinalized mergeM \<and> \<not> GdbFinalized gdbG
   \<and> fst (Merge_getSize mergeEnvM mergeM) = 5
   \<and> MergeFinalized (snd (Merge_getSize mergeEnvM mergeM))
   \<and> map OutputOff (concat (MergeSections (snd (Merge_getSize mergeEnvM mergeM)))) = [0, 3, 0, 0]
   \<and> Merge_finalizeContents mergeEnvM (snd (Merge_getSize mergeEnvM mergeM))
       = snd (Merge_getSize mergeEnvM mergeM)
   \<and> fst (Merge_getSize mergeEnvM (Merge_finalizeContents mergeEnvM mergeM)) = 5
   \<and> fst (Gdb_getSize gdbEnvG gdbG) = 8266
   \<and> GdbFinalized (snd (Gdb_getSize gdbEnvG gdbG))
   \<and> CompilationUnits (snd (Gdb_getSize gdbEnvG gdbG)) = [(0, 0x40)]
   \<and> Gdb_finalizeContents gdbEnvG (snd (Gdb_getSize gdbEnvG gdbG)) = snd (Gdb_getSize gdbEnvG gdbG)
   \<and> fst (Gdb_getSize gdbEnvG (Gdb_finalizeContents gdbEnvG gdbG)) = 8266"
proof -
  note T = C10_size_finalizes_on_demand [of mergeEnvM mergeM gdbEnvG gdbG]
  have n: "\<not> MergeFinalized mergeM" "\<not> GdbFinalized gdbG"
    by (simp_all add: mergeM_def gdbG_def)
  have nt: "\<not> shouldTailMerge mergeEnvM mergeM"
    by (simp add: shouldTailMerge_def mergeEnvM_def)
  from T n(1) have "fst (Merge_getSize mergeEnvM mergeM)
      = sbGetSize (BuilderOps mergeEnvM)
          ((if shouldTailMerge mergeEnvM mergeM then sbFinalize (BuilderOps mergeEnvM)
            else sbFinalizeInOrder (BuilderOps mergeEnvM))
             (foldl (\<lambda>B D. snd (sbAdd (BuilderOps mergeEnvM) D B)) (Builder mergeM)
                (map PieceData (filter Live (concat (MergeSections mergeM))))))"
    by blast
  also have "\<dots> = 5"
    by (simp add: nt) (simp add: mergeEnvM_def mergeM_def builderOps_def newBuilder_def)
  finally have m: "fst (Merge_getSize mergeEnvM mergeM) = 5" .
  from T n(2) have "fst (Gdb_getSize gdbEnvG gdbG)
      = CuListOffset gdbEnvG
        + length (CompilationUnits (Gdb_finalizeContents gdbEnvG gdbG)) * CompilationUnitSize gdbEnvG
        + length (AddressArea (Gdb_finalizeContents gdbEnvG gdbG)) * AddressEntrySize gdbEnvG
        + capacityFor gdbEnvG (length (SymbolTable (Gdb_finalizeContents gdbEnvG gdbG)))
          * SymTabEntrySize gdbEnvG
        + (CuVectorsSize gdbG
           + OffsetTypeSize gdbEnvG
             * sum_list (map (\<lambda>V. length V + 1) (CuVectors (Gdb_finalizeContents gdbEnvG gdbG))))
        + sbGetSize (PoolOps gdbEnvG) (StringPool (Gdb_finalizeContents gdbEnvG gdbG))"
    by blast
  also have "\<dots> = 8266"
    unfolding gdbG_final by (simp add: gdbEnvG_def gdbG_def builderOps_def)
  finally have g: "fst (Gdb_getSize gdbEnvG gdbG) = 8266" .
  from T have f: "snd (Merge_getSize mergeEnvM mergeM) = Merge_finalizeContents mergeEnvM mergeM"
    "snd (Gdb_getSize gdbEnvG gdbG) = Gdb_finalizeContents gdbEnvG gdbG"
    by simp_all
  have o: "map OutputOff (concat (MergeSections (Merge_finalizeContents mergeEnvM mergeM)))
        = [0, 3, 0, 0]"
    unfolding mergeM_final by simp
  have c: "CompilationUnits (Gdb_finalizeContents gdbEnvG gdbG) = [(0, 0x40)]"
    unfolding gdbG_final by simp
  from T m g n o c show ?thesis unfolding f by simp
qed


subsection \<open>C3: finalizing a section twice\<close>

lemma assignDynsymIndex_undef:
  "isUndefined (assignDynsymIndex I V Sy p) = isUndefined (Sy p)"
proof -
  have "SymKind (assignDynsymIndex I V Sy p) = SymKind (Sy p)"
    by (induction V arbitrary: I Sy) simp_all
  then show ?thesis by (simp add: isUndefined_def)
qed

text \<open>
  Where a second \<^verbatim>\<open>finalizeContents\<close> changes nothing: the symbol table when it is
  \<^verbatim>\<open>.symtab\<close>, or when there is no GNU hash table and the target is not MIPS, or when every
  symbol is undefined; the MIPS GOT, the GNU hash table, the GOT and the hash table, which
  compute their size from state that they do not change; and the mergeable string section
  and \<^verbatim>\<open>.gdb_index\<close>, which return at once when their flag \<^verbatim>\<open>Finalized\<close> is set.
\<close>

lemma assignDynsymIndex_shape:
  "\<exists>f. (\<forall>Sy p. assignDynsymIndex I V Sy p = f p (Sy p))
       \<and> (\<forall>p. f p = (\<lambda>b. b) \<or> (\<exists>c. f p = (\<lambda>b. b\<lparr> DynsymIndex := c \<rparr>)))"
proof (induction V arbitrary: I)
  case Nil
  show ?case by (rule exI [of _ "\<lambda>p b. b"]) simp
next
  case (Cons S Ss)
  from Cons [of "Suc I"] obtain f where
    f: "\<And>Sy p. assignDynsymIndex (Suc I) Ss Sy p = f p (Sy p)"
    and sh: "\<And>p. f p = (\<lambda>b. b) \<or> (\<exists>c. f p = (\<lambda>b. b\<lparr> DynsymIndex := c \<rparr>))"
    by blast
  let ?g = "\<lambda>p b. f p (if p = Symbol S then b\<lparr> DynsymIndex := of_nat (I + 1) \<rparr> else b)"
  have "assignDynsymIndex I (S # Ss) Sy p = ?g p (Sy p)" for Sy p
    by (simp add: f)
  moreover have "?g p = (\<lambda>b. b) \<or> (\<exists>c. ?g p = (\<lambda>b. b\<lparr> DynsymIndex := c \<rparr>))" for p
    using sh [of p] by (cases "p = Symbol S") auto
  ultimately show ?case by (intro exI [of _ ?g]) blast
qed

lemma assignDynsymIndex_idem:
  "assignDynsymIndex I V (assignDynsymIndex I V Sy) = assignDynsymIndex I V Sy"
proof -
  from assignDynsymIndex_shape [of I V] obtain f where
    f: "\<And>Sy p. assignDynsymIndex I V Sy p = f p (Sy p)"
    and sh: "\<And>p. f p = (\<lambda>b. b) \<or> (\<exists>c. f p = (\<lambda>b. b\<lparr> DynsymIndex := c \<rparr>))"
    by blast
  have "f p (f p b) = f p b" for p b
    using sh [of p] by (elim disjE exE) simp_all
  then show ?thesis by (intro ext) (simp add: f)
qed

lemma addSymbols_all_undefined:
  assumes "\<forall>S \<in> set V. isUndefined (Sy (Symbol S))"
  shows "addSymbols Sy V G = (V, G)"
  using assms by (simp add: addSymbols_def stable_partition_def Let_def)

lemma dynsym_finalize_twice:
  assumes "SymTabType (DynSymTab D) \<noteq> SHT_DYNSYM
         \<or> (GnuHashTab D = None \<and> EMachine C \<noteq> EM_MIPS)
         \<or> (GnuHashTab D \<noteq> None \<and> (\<forall>S \<in> set (Symbols (DynSymTab D)). isUndefined (DynSyms D (Symbol S))))"
  shows "SymbolTable_finalizeContents C (SymbolTable_finalizeContents C D)
         = SymbolTable_finalizeContents C D"
proof -
  consider (symtab) "SymTabType (DynSymTab D) \<noteq> SHT_DYNSYM"
    | (plain) "SymTabType (DynSymTab D) = SHT_DYNSYM" "GnuHashTab D = None" "EMachine C \<noteq> EM_MIPS"
    | (undef) G where "SymTabType (DynSymTab D) = SHT_DYNSYM" "GnuHashTab D = Some G"
        "\<forall>S \<in> set (Symbols (DynSymTab D)). isUndefined (DynSyms D (Symbol S))"
    using assms by (cases "SymTabType (DynSymTab D)") auto
  then show ?thesis
  proof cases
    case symtab
    then show ?thesis by (simp add: SymbolTable_finalizeContents_def Let_def)
  next
    case plain
    then show ?thesis
      by (simp add: SymbolTable_finalizeContents_def Let_def assignDynsymIndex_idem)
  next
    case undef
    let ?V = "Symbols (DynSymTab D)"
    have a1: "addSymbols (DynSyms D) ?V G = (?V, G)"
      using undef(3) by (rule addSymbols_all_undefined)
    have "\<forall>S \<in> set ?V. isUndefined (assignDynsymIndex 0 ?V (DynSyms D) (Symbol S))"
      using undef(3) by (simp add: assignDynsymIndex_undef)
    then have a2: "addSymbols (assignDynsymIndex 0 ?V (DynSyms D)) ?V G = (?V, G)"
      by (rule addSymbols_all_undefined)
    show ?thesis
      using undef(1,2)
      by (simp add: SymbolTable_finalizeContents_def Let_def a1 a2 assignDynsymIndex_idem)
  qed
qed

lemma other_finalize_twice:
  "MipsGot_finalizeContents L (MipsGot_finalizeContents L M) = MipsGot_finalizeContents L M"
  "GnuHash_finalizeContents C (GnuHash_finalizeContents C G) = GnuHash_finalizeContents C G"
  "Got_finalizeContents C (Got_finalizeContents C S) = Got_finalizeContents C S"
  "Hash_finalizeContents i T (Hash_finalizeContents i T H) = Hash_finalizeContents i T H"
  by (simp_all add: MipsGot_finalizeContents_def updateAllocSize_def GnuHash_finalizeContents_def
        Got_finalizeContents_def Hash_finalizeContents_def Let_def)

lemma guarded_finalize_twice:
  "Merge_finalizeContents E1 (Merge_finalizeContents E1 S1) = Merge_finalizeContents E1 S1"
  "Gdb_finalizeContents E2 (Gdb_finalizeContents E2 S2) = Gdb_finalizeContents E2 S2"
  by (rule Merge_finalize_once, rule Merge_finalized) (rule Gdb_finalize_once, rule Gdb_finalized)

lemma addSymbols_defined:
  assumes "\<exists>S \<in> set V. \<not> isUndefined (Sy (Symbol S))"
  shows "length (fst (addSymbols Sy V G)) = length V + length (GnuSymbols G)"
    and "length (GnuSymbols (snd (addSymbols Sy V G)))
           = length (GnuSymbols G) + length (filter (\<lambda>S. \<not> isUndefined (Sy (Symbol S))) V)"
    and "\<exists>S \<in> set (fst (addSymbols Sy V G)). \<not> isUndefined (Sy (Symbol S))"
proof -
  let ?P = "\<lambda>S. isUndefined (Sy (Symbol S))"
  let ?U = "filter ?P V" and ?Dn = "filter (\<lambda>S. \<not> ?P S) V"
  let ?S1 = "GnuSymbols G @ map (gnuEntryOf Sy) ?Dn"
  let ?NB = "getBucketSize (length ?S1)"
  let ?S2 = "stable_sort (\<lambda>L R. unat (Hash L) mod ?NB < unat (Hash R) mod ?NB) ?S1"
  have ne: "?Dn \<noteq> []" using assms by (simp add: filter_empty_conv)
  have a: "addSymbols Sy V G
         = (?U @ map symtabEntryOf ?S2, G\<lparr> GnuSymbols := ?S2, NBuckets := ?NB \<rparr>)"
    using ne by (simp add: addSymbols_def stable_partition_def Let_def)
  have l: "length ?U + length ?Dn = length V" by (rule sum_length_filter_compl)
  show "length (fst (addSymbols Sy V G)) = length V + length (GnuSymbols G)"
    using l by (simp add: a length_stable_sort)
  show "length (GnuSymbols (snd (addSymbols Sy V G))) = length (GnuSymbols G) + length ?Dn"
    by (simp add: a length_stable_sort)
  from assms obtain S where S: "S \<in> set V" "\<not> ?P S" by blast
  then have "gnuEntryOf Sy S \<in> set ?S2" by (simp add: set_stable_sort)
  then have "symtabEntryOf (gnuEntryOf Sy S) \<in> set (fst (addSymbols Sy V G))"
    by (simp add: a)
  moreover have "Symbol (symtabEntryOf (gnuEntryOf Sy S)) = Symbol S" by simp
  ultimately show "\<exists>S \<in> set (fst (addSymbols Sy V G)). \<not> isUndefined (Sy (Symbol S))"
    using S(2) by metis
qed

text \<open>
  C3: a second \<^verbatim>\<open>finalizeContents\<close> of the dynamic symbol table is not a no-op when there is
  a GNU hash table and the table holds a defined symbol. \<^verbatim>\<open>GnuHashTableSection::addSymbols\<close>
  appends the hashed symbols to the vector \<^verbatim>\<open>Symbols\<close> of the hash table, which is never
  cleared, and then appends all of that vector to the symbol table. So the second call
  leaves as many more entries in the symbol table as the hash table held after the
  first call: the entries it held before, and one for each defined symbol. The
  number of symbols, and with it the size of the section, has changed.
\<close>

theorem C3_second_finalize_appends:
  assumes "SymTabType (DynSymTab D) = SHT_DYNSYM" and "GnuHashTab D = Some G"
    and "\<exists>S \<in> set (Symbols (DynSymTab D)). \<not> isUndefined (DynSyms D (Symbol S))"
  shows "getNumSymbols (DynSymTab (SymbolTable_finalizeContents C (SymbolTable_finalizeContents C D)))
         = getNumSymbols (DynSymTab (SymbolTable_finalizeContents C D))
           + length (GnuSymbols G)
           + length (filter (\<lambda>S. \<not> isUndefined (DynSyms D (Symbol S))) (Symbols (DynSymTab D)))
       \<and> SymbolTable_finalizeContents C (SymbolTable_finalizeContents C D)
           \<noteq> SymbolTable_finalizeContents C D"
proof -
  let ?V = "Symbols (DynSymTab D)" and ?Sy = "DynSyms D"
  let ?n = "length (filter (\<lambda>S. \<not> isUndefined (?Sy (Symbol S))) ?V)"
  obtain V1 G1 where a1: "addSymbols ?Sy ?V G = (V1, G1)" by (cases "addSymbols ?Sy ?V G")
  let ?Sy1 = "assignDynsymIndex 0 V1 ?Sy"
  obtain V2 G2 where a2: "addSymbols ?Sy1 V1 G1 = (V2, G2)" by (cases "addSymbols ?Sy1 V1 G1")
  have pos: "0 < ?n" using assms(3) by (simp add: filter_empty_conv)
  from addSymbols_defined [OF assms(3), of G]
  have l1: "length V1 = length ?V + length (GnuSymbols G)"
    and g1: "length (GnuSymbols G1) = length (GnuSymbols G) + ?n"
    and d1: "\<exists>S \<in> set V1. \<not> isUndefined (?Sy (Symbol S))"
    by (simp_all add: a1)
  from d1 have d1': "\<exists>S \<in> set V1. \<not> isUndefined (?Sy1 (Symbol S))"
    by (simp add: assignDynsymIndex_undef)
  from addSymbols_defined(1) [OF d1', of G1]
  have l2: "length V2 = length V1 + length (GnuSymbols G1)" by (simp add: a2)
  have f1: "Symbols (DynSymTab (SymbolTable_finalizeContents C D)) = V1"
    using assms(1,2) by (simp add: SymbolTable_finalizeContents_def Let_def a1)
  have f2: "Symbols (DynSymTab (SymbolTable_finalizeContents C (SymbolTable_finalizeContents C D))) = V2"
    using assms(1,2) by (simp add: SymbolTable_finalizeContents_def Let_def a1 a2)
  have n: "getNumSymbols (DynSymTab (SymbolTable_finalizeContents C (SymbolTable_finalizeContents C D)))
         = getNumSymbols (DynSymTab (SymbolTable_finalizeContents C D)) + length (GnuSymbols G) + ?n"
    using l2 g1 by (simp add: getNumSymbols_def f1 f2)
  moreover have "SymbolTable_finalizeContents C (SymbolTable_finalizeContents C D)
           \<noteq> SymbolTable_finalizeContents C D"
  proof
    assume "SymbolTable_finalizeContents C (SymbolTable_finalizeContents C D)
              = SymbolTable_finalizeContents C D"
    with n pos show False by simp
  qed
  ultimately show ?thesis by simp
qed

text \<open>
  With the defined symbols a, b, c and a new hash table, the first \<^verbatim>\<open>finalizeContents\<close> leaves
  the three symbols in the order c, a, b.
\<close>

lemma dynC_once:
  "map Symbol (Symbols (DynSymTab (SymbolTable_finalizeContents cfgC dynC))) = [3, 1, 2]"
  by (simp add: SymbolTable_finalizeContents_def addSymbols_def stable_partition_def
      stable_sort_def gnuEntryOf_def symtabEntryOf_def hashGnu_def getBucketSize_def bucketSizes_def
      isUndefined_def dynC_def symC_def cfgC_def cfgE_def newGnuHashTableSection_def Let_def)

theorem C3_second_finalize_appends_witness:
  "getNumSymbols (DynSymTab (SymbolTable_finalizeContents cfgC dynC)) = 4
   \<and> getNumSymbols (DynSymTab
        (SymbolTable_finalizeContents cfgC (SymbolTable_finalizeContents cfgC dynC))) = 7
   \<and> SymbolTable_finalizeContents cfgC (SymbolTable_finalizeContents cfgC dynC)
       \<noteq> SymbolTable_finalizeContents cfgC dynC"
proof -
  have h: "SymTabType (DynSymTab dynC) = SHT_DYNSYM" "GnuHashTab dynC = Some newGnuHashTableSection"
    "\<exists>S \<in> set (Symbols (DynSymTab dynC)). \<not> isUndefined (DynSyms dynC (Symbol S))"
    by (simp_all add: dynC_def symC_def isUndefined_def) blast
  have n: "length (GnuSymbols newGnuHashTableSection) = 0"
    "length (filter (\<lambda>S. \<not> isUndefined (DynSyms dynC (Symbol S))) (Symbols (DynSymTab dynC))) = 3"
    by (simp_all add: newGnuHashTableSection_def dynC_def symC_def isUndefined_def)
  have o: "getNumSymbols (DynSymTab (SymbolTable_finalizeContents cfgC dynC)) = 4"
    using arg_cong [OF dynC_once, of length] by (simp add: getNumSymbols_def)
  from C3_second_finalize_appends [OF h, of cfgC] n o show ?thesis by simp
qed

end
